(* ===== verification/Prelude.thy ===== *)
theory Prelude
  imports Complex_Main "HOL-Library.Char_ord" "HOL-Library.List_Lexorder"
begin

section \<open>Prelude: values, errors, results and tables\<close>

text \<open>
  The vocabulary every component theory shares.

  \<^item> Python values that the platform's validators inspect dynamically (\<open>pyval\<close>), JSON
    (\<open>json\<close>), UUIDs, aware and naive datetimes.
  \<^item> Failures as values: a raise of the source is \<open>Inl\<close> of a \<open>py_error\<close>, and
    \<open>bindE\<close> sequences fallible steps the way an uncaught exception does.
  \<^item> Database tables as lists of rows, with the one-row selection and the keyed update the
    PostgreSQL adapters use, and the lemmas on them.
  \<^item> The locale \<open>invariant_machine\<close>: an invariant that every operation keeps holds
    after every sequence of operations.

  A UUID is the natural number \<open>UUID.int\<close>; PostgreSQL and Python both order UUIDs by it.
  A timestamp is the number of microseconds since the epoch in UTC, the resolution of a
  Python \<open>datetime\<close>; a \<open>timedelta\<close> is a number of microseconds. A finite Python
  float is the rational number it denotes; rounding of float arithmetic is not modelled.
\<close>

subsection \<open>Scalars\<close>

type_synonym uuid = nat
type_synonym timestamp = int
type_synonym timedelta = int

abbreviation microseconds_per_second :: int where
  "microseconds_per_second \<equiv> 1000000"

datatype pyfloat = Fin rat | Inf | NegInf | NaN

fun isfinite :: "pyfloat \<Rightarrow> bool" where
  "isfinite (Fin q) = True"
| "isfinite Inf = False"
| "isfinite NegInf = False"
| "isfinite NaN = False"

text \<open>
  What a dynamically typed argument can be, as far as the validators of the platform look:
  \<open>type(x) is int\<close>, \<open>isinstance(x, bool)\<close> and \<open>math.isfinite\<close>.
\<close>

datatype pyval = PyBool bool | PyInt int | PyFloat pyfloat | PyStr string | PyNone

datatype json =
    JNull
  | JBool bool
  | JInt int
  | JFloat pyfloat
  | JStr string
  | JList "json list"
  | JObj "(string \<times> json) list"

type_synonym json_object = "(string \<times> json) list"

subsection \<open>Rendering identifiers\<close>

fun hex_digit :: "nat \<Rightarrow> char" where
  "hex_digit n = (if n < 10 then char_of (48 + n) else char_of (87 + n))"

text \<open>The lowest \<open>k\<close> hexadecimal digits of a number, most significant first.\<close>

primrec hex_digits :: "nat \<Rightarrow> nat \<Rightarrow> string" where
  "hex_digits 0 n = []"
| "hex_digits (Suc k) n = hex_digits k (n div 16) @ [hex_digit (n mod 16)]"

lemma hex_digits_zero: "hex_digits k 0 = replicate k CHR ''0''"
proof (induction k)
  case (Suc k)
  have "hex_digit 0 = CHR ''0''" by code_simp
  with Suc show ?case by (simp add: replicate_append_same)
qed simp

lemma hex_digits_code [code]:
  "hex_digits 0 n = []"
  "hex_digits (Suc k) n =
     (if n = 0 then replicate (Suc k) CHR ''0'' else hex_digits k (n div 16) @ [hex_digit (n mod 16)])"
  using hex_digits_zero [of "Suc k"] by simp_all

text \<open>\<open>str(uuid)\<close>: 32 hexadecimal digits grouped 8-4-4-4-12.\<close>

definition uuid_str :: "uuid \<Rightarrow> string" where
  "uuid_str u =
     (let h = hex_digits 32 u
      in take 8 h @ ''-'' @ take 4 (drop 8 h) @ ''-'' @ take 4 (drop 12 h) @ ''-''
         @ take 4 (drop 16 h) @ ''-'' @ drop 20 h)"

fun nat_str :: "nat \<Rightarrow> string" where
  "nat_str n = (if n < 10 then [char_of (48 + n)] else nat_str (n div 10) @ [char_of (48 + n mod 10)])"

declare nat_str.simps [simp del]

definition int_str :: "int \<Rightarrow> string" where
  "int_str i = (if i < 0 then CHR ''-'' # nat_str (nat (- i)) else nat_str (nat i))"

subsection \<open>Whitespace\<close>

text \<open>
  \<open>str.strip\<close> removes what \<open>str.isspace\<close> accepts; pydantic's \<open>strip_whitespace\<close> is
  Rust's \<open>str::trim\<close>, which keeps the information separators U+001C to U+001F. Both are
  given on the code points below 256.
\<close>

definition py_isspace :: "char \<Rightarrow> bool" where
  "py_isspace c \<longleftrightarrow>
     (let n = of_char c :: nat in 9 \<le> n \<and> n \<le> 13 \<or> 28 \<le> n \<and> n \<le> 32 \<or> n = 133 \<or> n = 160)"

definition rust_isspace :: "char \<Rightarrow> bool" where
  "rust_isspace c \<longleftrightarrow>
     (let n = of_char c :: nat in 9 \<le> n \<and> n \<le> 13 \<or> n = 32 \<or> n = 133 \<or> n = 160)"

definition strip_by :: "(char \<Rightarrow> bool) \<Rightarrow> string \<Rightarrow> string" where
  "strip_by p s = rev (dropWhile p (rev (dropWhile p s)))"

abbreviation py_strip :: "string \<Rightarrow> string" where
  "py_strip \<equiv> strip_by py_isspace"

abbreviation rust_trim :: "string \<Rightarrow> string" where
  "rust_trim \<equiv> strip_by rust_isspace"

lemma strip_by_Nil [simp]: "strip_by p [] = []"
  by (simp add: strip_by_def)

lemma strip_by_idem [simp]: "strip_by p (strip_by p s) = strip_by p s"
proof -
  define u where "u = dropWhile p s"
  have u: "u = [] \<or> \<not> p (hd u)"
    by (metis hd_dropWhile u_def)
  define w where "w = dropWhile p (rev u)"
  have w: "w = [] \<or> \<not> p (hd w)"
    by (metis hd_dropWhile w_def)
  have "rev w = [] \<or> hd (rev w) = hd u"
  proof (cases "rev w = []")
    case False
    obtain pre where "rev u = pre @ w"
      unfolding w_def by (metis takeWhile_dropWhile_id)
    then have "u = rev w @ rev pre" by (metis rev_append rev_rev_ident)
    with False show ?thesis by simp
  qed simp
  moreover have "rev w = [] \<or> \<not> p (hd (rev w))"
    using calculation u by (metis Nil_is_append_conv dropWhile.simps(1) rev.simps(1) rev_rev_ident w_def)
  ultimately have "dropWhile p (rev w) = rev w"
    by (cases "rev w") auto
  moreover have "dropWhile p w = w"
    using w by (cases w) auto
  ultimately show ?thesis
    by (simp add: strip_by_def u_def w_def)
qed

lemma strip_by_nil_or: "strip_by p s = [] \<or> \<not> p (hd (strip_by p s)) \<and> \<not> p (last (strip_by p s))"
proof (cases "strip_by p s = []")
  case False
  define w where "w = dropWhile p (rev (dropWhile p s))"
  have s: "strip_by p s = rev w" by (simp add: strip_by_def w_def)
  from False s have w0: "w \<noteq> []" by simp
  then have "\<not> p (hd w)" unfolding w_def by (rule hd_dropWhile)
  then have last: "\<not> p (last (rev w))" using w0 by (simp add: last_rev)
  have "strip_by p (rev w) = rev w" using s by (metis strip_by_idem)
  moreover have "dropWhile p (rev w) = rev w"
  proof -
    obtain pre where "rev (dropWhile p s) = pre @ w"
      unfolding w_def by (metis takeWhile_dropWhile_id)
    then have e: "dropWhile p s = rev w @ rev pre" by (metis rev_append rev_rev_ident)
    then have "dropWhile p s \<noteq> []" using w0 by simp
    then have "\<not> p (hd (dropWhile p s))" by (rule hd_dropWhile)
    with e w0 show ?thesis by (cases "rev w") auto
  qed
  then have "\<not> p (hd (rev w))" using w0 by (metis hd_dropWhile rev_is_Nil_conv)
  with last s show ?thesis by simp
qed simp

lemma rust_trim_py_strip [simp]: "rust_trim (py_strip s) = py_strip s"
proof (cases "py_strip s = []")
  case True
  then show ?thesis by simp
next
  case False
  have sub: "rust_isspace c \<Longrightarrow> py_isspace c" for c
    by (auto simp: rust_isspace_def py_isspace_def Let_def)
  define t where "t = py_strip s"
  from strip_by_nil_or [of py_isspace s] False
  have "\<not> rust_isspace (hd t)" "\<not> rust_isspace (last t)"
    using sub by (auto simp: t_def)
  moreover have "t \<noteq> []" using False by (simp add: t_def)
  ultimately have "dropWhile rust_isspace t = t" "dropWhile rust_isspace (rev t) = rev t"
    by (cases t, auto) (metis dropWhile.simps(2) hd_rev list.exhaust_sel rev_is_Nil_conv
        list.simps(3) rev.simps(2))
  then show ?thesis by (simp add: strip_by_def t_def)
qed

subsection \<open>Errors as values\<close>

record ErrorDetail =
  err_code :: string
  err_message :: string
  err_retryable :: bool
  err_details :: json_object

text \<open>
  \<open>DomainOperationError\<close> carries a validated \<open>ErrorDetail\<close>; a pydantic
  \<open>ValidationError\<close> is represented by the first constraint it reports, an
  \<open>IntegrityError\<close> by the database constraint that was violated.
\<close>

datatype py_error =
    DomainOperationError ErrorDetail
  | ValidationError string
  | ValueError string
  | TypeError string
  | RuntimeError string
  | KeyError
  | IntegrityError string

type_synonym 'a result = "py_error + 'a"

definition domain_error :: "string \<Rightarrow> string \<Rightarrow> bool \<Rightarrow> json_object \<Rightarrow> py_error" where
  "domain_error code message retryable details =
     DomainOperationError \<lparr>err_code = code, err_message = message, err_retryable = retryable,
                           err_details = details\<rparr>"

fun error_code :: "py_error \<Rightarrow> string option" where
  "error_code (DomainOperationError d) = Some (err_code d)"
| "error_code _ = None"

lemma error_code_domain_error [simp]: "error_code (domain_error c m r d) = Some c"
  by (simp add: domain_error_def)

subsection \<open>Sequencing fallible steps\<close>

definition bindE :: "'a result \<Rightarrow> ('a \<Rightarrow> 'b result) \<Rightarrow> 'b result" where
  "bindE r f = (case r of Inl e \<Rightarrow> Inl e | Inr x \<Rightarrow> f x)"

definition is_ok :: "'a result \<Rightarrow> bool" where
  "is_ok r = (case r of Inl _ \<Rightarrow> False | Inr _ \<Rightarrow> True)"

lemma bindE_simps [simp]: "bindE (Inl e) f = Inl e" "bindE (Inr x) f = f x"
  by (simp_all add: bindE_def)

lemma is_ok_simps [simp]: "\<not> is_ok (Inl e)" "is_ok (Inr x)"
  by (simp_all add: is_ok_def)

lemma bindE_eq_Inr: "bindE r f = Inr y \<longleftrightarrow> (\<exists>x. r = Inr x \<and> f x = Inr y)"
  by (cases r) auto

lemma bindE_eq_Inl: "bindE r f = Inl e \<longleftrightarrow> r = Inl e \<or> (\<exists>x. r = Inr x \<and> f x = Inl e)"
  by (cases r) auto

lemma is_ok_iff: "is_ok r \<longleftrightarrow> (\<exists>x. r = Inr x)"
  by (cases r) auto

lemma bindE_cong [fundef_cong]:
  "r = r' \<Longrightarrow> (\<And>x. r' = Inr x \<Longrightarrow> f x = g x) \<Longrightarrow> bindE r f = bindE r' g"
  by (cases r') auto

primrec mapE :: "('a \<Rightarrow> 'b result) \<Rightarrow> 'a list \<Rightarrow> 'b list result" where
  "mapE f [] = Inr []"
| "mapE f (x # xs) = bindE (f x) (\<lambda>y. bindE (mapE f xs) (\<lambda>ys. Inr (y # ys)))"

lemma mapE_cong [fundef_cong]:
  "xs = ys \<Longrightarrow> (\<And>x. x \<in> set ys \<Longrightarrow> f x = g x) \<Longrightarrow> mapE f xs = mapE g ys"
  by (induction ys arbitrary: xs) auto

lemma mapE_length: "mapE f xs = Inr ys \<Longrightarrow> length ys = length xs"
  by (induction xs arbitrary: ys) (auto simp: bindE_eq_Inr)

lemma mapE_Inr_nth:
  "mapE f xs = Inr ys \<Longrightarrow> i < length xs \<Longrightarrow> f (xs ! i) = Inr (ys ! i)"
proof (induction xs arbitrary: ys i)
  case Nil
  then show ?case by simp
next
  case (Cons x xs)
  then show ?case by (cases i) (auto simp: bindE_eq_Inr)
qed

lemma mapE_ok_iff: "is_ok (mapE f xs) \<longleftrightarrow> (\<forall>x \<in> set xs. is_ok (f x))"
  by (induction xs) (auto simp: is_ok_iff bindE_eq_Inr)

subsection \<open>Datetimes\<close>

text \<open>
  A \<open>datetime\<close> as a caller can pass it: naive, or wall-clock microseconds with a UTC
  offset. \<open>normalize_timestamp\<close> refuses the naive one and converts the aware one to UTC.
\<close>

datatype datetime = Naive int | Aware int int

fun normalize_timestamp :: "datetime \<Rightarrow> timestamp result" where
  "normalize_timestamp (Naive w) = Inl (ValueError ''timestamp must include a timezone'')"
| "normalize_timestamp (Aware w offset) = Inr (w - offset)"

abbreviation utc :: "int \<Rightarrow> datetime" where
  "utc t \<equiv> Aware t 0"

subsection \<open>Tables\<close>

named_theorems table_simps \<open>selection from and update of tables kept as lists of rows\<close>

definition select_one :: "('r \<Rightarrow> bool) \<Rightarrow> 'r list \<Rightarrow> 'r option" where
  "select_one p t = List.find p t"

definition update_where :: "('r \<Rightarrow> bool) \<Rightarrow> ('r \<Rightarrow> 'r) \<Rightarrow> 'r list \<Rightarrow> 'r list" where
  "update_where p f t = map (\<lambda>r. if p r then f r else r) t"

definition delete_where :: "('r \<Rightarrow> bool) \<Rightarrow> 'r list \<Rightarrow> 'r list" where
  "delete_where p t = filter (\<lambda>r. \<not> p r) t"

definition count_where :: "('r \<Rightarrow> bool) \<Rightarrow> 'r list \<Rightarrow> nat" where
  "count_where p t = length (filter p t)"

lemma select_one_Some: "select_one p t = Some r \<Longrightarrow> r \<in> set t \<and> p r"
  by (auto simp: select_one_def find_Some_iff)

lemma select_one_None: "select_one p t = None \<longleftrightarrow> (\<forall>r \<in> set t. \<not> p r)"
  by (auto simp: select_one_def find_None_iff)

lemma select_one_simps [simp]:
  "select_one p [] = None"
  "select_one p (r # t) = (if p r then Some r else select_one p t)"
  by (simp_all add: select_one_def)

lemma update_where_simps [simp]:
  "update_where p f [] = []"
  "update_where p f (r # t) = (if p r then f r else r) # update_where p f t"
  by (simp_all add: update_where_def)

lemma count_where_simps [simp]:
  "count_where p [] = 0"
  "count_where p (r # t) = (if p r then Suc (count_where p t) else count_where p t)"
  by (simp_all add: count_where_def)

lemma delete_where_simps [simp]:
  "delete_where p [] = []"
  "delete_where p (r # t) = (if p r then delete_where p t else r # delete_where p t)"
  by (simp_all add: delete_where_def)

lemma set_update_where [table_simps]:
  "set (update_where p f t) = {if p r then f r else r | r. r \<in> set t}"
  by (auto simp: update_where_def)

lemma set_delete_where [table_simps]: "set (delete_where p t) = {r \<in> set t. \<not> p r}"
  by (auto simp: delete_where_def)

lemma map_update_where [table_simps]:
  "(\<And>r. p r \<Longrightarrow> key (f r) = key r) \<Longrightarrow> map key (update_where p f t) = map key t"
  by (simp add: update_where_def)

lemma length_update_where [table_simps]: "length (update_where p f t) = length t"
  by (simp add: update_where_def)

lemma distinct_map_delete_where [table_simps]:
  "distinct (map key t) \<Longrightarrow> distinct (map key (delete_where p t))"
  by (simp add: delete_where_def distinct_map_filter)

lemma count_update_where [table_simps]:
  "(\<And>r. p r \<Longrightarrow> q (f r) = q r) \<Longrightarrow> count_where q (update_where p f t) = count_where q t"
  by (induction t) (auto simp: update_where_def)

lemma select_one_update_same:
  assumes "\<And>r. p r \<Longrightarrow> q (f r) = q r"
  shows "select_one q (update_where p f t) =
    map_option (\<lambda>r. if p r then f r else r) (select_one q t)"
  using assms by (induction t) auto

text \<open>A key that identifies rows: rows of the table with the same key are the same row.\<close>

lemma distinct_key_unique:
  "distinct (map key t) \<Longrightarrow> r \<in> set t \<Longrightarrow> s \<in> set t \<Longrightarrow> key r = key s \<Longrightarrow> r = s"
  by (metis distinct_map inj_onD)

lemma select_one_key:
  "distinct (map key t) \<Longrightarrow> r \<in> set t \<Longrightarrow> select_one (\<lambda>x. key x = key r) t = Some r"
proof (induction t)
  case Nil
  then show ?case by simp
next
  case (Cons a t)
  then show ?case by (auto simp: image_iff)
qed

lemma count_where_le_length: "count_where p t \<le> length t"
  by (simp add: count_where_def)

lemma count_delete_key:
  assumes "distinct (map key t)" "r \<in> set t" "q r"
  shows "Suc (count_where q (delete_where (\<lambda>x. key x = key r) t)) = count_where q t"
  using assms
proof (induction t)
  case Nil
  then show ?case by simp
next
  case (Cons a t)
  show ?case
  proof (cases "a = r")
    case True
    with Cons.prems have "delete_where (\<lambda>x. key x = key r) t = t"
      by (auto simp: delete_where_def filter_id_conv image_iff)
    with True Cons.prems show ?thesis by simp
  next
    case False
    with Cons.prems have "r \<in> set t" "key a \<noteq> key r"
      by (auto simp: image_iff)
    with Cons False show ?thesis by auto
  qed
qed

lemma count_delete_other:
  "(\<And>r. r \<in> set t \<Longrightarrow> p r \<Longrightarrow> \<not> q r) \<Longrightarrow> count_where q (delete_where p t) = count_where q t"
  by (induction t) auto

lemma count_delete_le: "count_where q (delete_where p t) \<le> count_where q t"
  by (induction t) auto

text \<open>
  Writing a row back: the row with the same key is replaced. \<open>ORDER BY key LIMIT n\<close> is
  \<open>select_ordered\<close>.
\<close>

definition put_row :: "('r \<Rightarrow> 'k) \<Rightarrow> 'r \<Rightarrow> 'r list \<Rightarrow> 'r list" where
  "put_row key row t = update_where (\<lambda>r. key r = key row) (\<lambda>_. row) t"

definition select_ordered :: "('r \<Rightarrow> 'k::linorder) \<Rightarrow> nat \<Rightarrow> ('r \<Rightarrow> bool) \<Rightarrow> 'r list \<Rightarrow> 'r list" where
  "select_ordered key limit p t = take limit (sort_key key (filter p t))"

lemma set_put_row [table_simps]:
  "set (put_row key row t) =
     {r \<in> set t. key r \<noteq> key row} \<union> (if key row \<in> key ` set t then {row} else {})"
  by (auto simp: put_row_def update_where_def image_iff)

lemma map_key_put_row [table_simps]: "map key (put_row key row t) = map key t"
  by (auto simp: put_row_def update_where_def)

lemma map_put_row:
  "(\<And>r. r \<in> set t \<Longrightarrow> key r = key row \<Longrightarrow> f r = f row) \<Longrightarrow> map f (put_row key row t) = map f t"
  by (auto simp: put_row_def update_where_def)

lemma put_row_mem:
  "x \<in> set (put_row key row t) \<Longrightarrow> x = row \<or> x \<in> set t \<and> key x \<noteq> key row"
  by (auto simp: table_simps split: if_splits)

lemma count_put_row_same:
  "(\<And>r. r \<in> set t \<Longrightarrow> key r = key row \<Longrightarrow> q r = q row) \<Longrightarrow>
     count_where q (put_row key row t) = count_where q t"
  by (induction t) (auto simp: put_row_def)

lemma put_row_absent: "key row \<notin> key ` set t \<Longrightarrow> put_row key row t = t"
  unfolding put_row_def update_where_def by (rule map_idI) (metis imageI)

lemma set_put_row_distinct:
  assumes "distinct (map key t)" "row \<in> set t" "key row' = key row"
  shows "set (put_row key row' t) = insert row' (set t - {row})"
  using assms by (auto simp: set_put_row distinct_map inj_on_def)

lemma map_put_row_distinct:
  assumes "distinct (map key t)" "row \<in> set t" "key row' = key row" "f row' = f row"
  shows "map f (put_row key row' t) = map f t"
  using assms by (intro map_put_row) (auto simp: distinct_map inj_on_def)

lemma distinct_some_put_row:
  assumes "distinct (filter (\<lambda>x. x \<noteq> None) (map f t))" "distinct (map key t)"
    and "f row \<noteq> None \<Longrightarrow> \<forall>r \<in> set t. key r \<noteq> key row \<longrightarrow> f r \<noteq> f row"
  shows "distinct (filter (\<lambda>x. x \<noteq> None) (map f (put_row key row t)))"
  using assms
proof (induction t)
  case Nil
  then show ?case by (simp add: put_row_def)
next
  case (Cons r t)
  show ?case
  proof (cases "key r = key row")
    case True
    then have "put_row key row t = t" using Cons.prems(2) by (intro put_row_absent) auto
    then have "put_row key row (r # t) = row # t" using True by (simp add: put_row_def)
    moreover have "f row \<notin> f ` set t" if "f row \<noteq> None"
    proof
      assume "f row \<in> f ` set t"
      then obtain x where "x \<in> set t" "f x = f row" by auto
      moreover from \<open>x \<in> set t\<close> have "key x \<noteq> key row" using Cons.prems(2) True by (auto simp: image_iff)
      ultimately show False using Cons.prems(3) that by auto
    qed
    moreover have "distinct (filter (\<lambda>x. x \<noteq> None) (map f t))"
      using Cons.prems(1) by (auto split: if_splits)
    ultimately show ?thesis by auto
  next
    case False
    then have eq: "put_row key row (r # t) = r # put_row key row t" by (simp add: put_row_def)
    have IH: "distinct (filter (\<lambda>x. x \<noteq> None) (map f (put_row key row t)))"
      using Cons by (auto split: if_splits)
    have "f r \<notin> f ` set (put_row key row t)" if "f r \<noteq> None"
    proof
      assume "f r \<in> f ` set (put_row key row t)"
      then obtain x where x: "x \<in> set (put_row key row t)" "f r = f x" by auto
      from put_row_mem [OF x(1)] show False
        using Cons.prems(1,3) False x(2) that by (auto split: if_splits)
    qed
    with IH eq show ?thesis by auto
  qed
qed

lemma set_delete_distinct:
  assumes "distinct (map key t)" "row \<in> set t"
  shows "set (delete_where (\<lambda>r. key r = key row) t) = set t - {row}"
  using assms by (auto simp: set_delete_where distinct_map inj_on_def)

lemma select_ordered_mem: "x \<in> set (select_ordered key n p t) \<Longrightarrow> x \<in> set t \<and> p x"
  by (auto simp: select_ordered_def dest: in_set_takeD)

lemma select_ordered_first:
  assumes "select_ordered key 1 p t = x # xs"
  shows "x \<in> set t" "p x" "\<And>y. y \<in> set t \<Longrightarrow> p y \<Longrightarrow> key x \<le> key y"
proof -
  obtain ys where ys: "sort_key key (filter p t) = x # ys"
    using assms by (cases "sort_key key (filter p t)") (auto simp: select_ordered_def)
  then have "set (x # ys) = {y \<in> set t. p y}" by (metis set_filter set_sort)
  then show "x \<in> set t" "p x" by auto
  fix y
  assume "y \<in> set t" "p y"
  then have "y \<in> set (x # ys)" using \<open>set (x # ys) = {y \<in> set t. p y}\<close> by auto
  moreover have "sorted (map key (x # ys))" using ys by (metis sorted_sort_key)
  ultimately show "key x \<le> key y" by auto
qed

lemma select_ordered_empty: "select_ordered key 1 p t = [] \<longleftrightarrow> (\<forall>y \<in> set t. \<not> p y)"
proof -
  have "sort_key key (filter p t) = [] \<longleftrightarrow> filter p t = []"
    by (metis length_0_conv length_sort)
  then show ?thesis by (auto simp: select_ordered_def filter_empty_conv)
qed

lemma length_select_ordered: "length (select_ordered key n p t) \<le> n"
  by (simp add: select_ordered_def)

lemma select_ordered_all:
  "count_where p t \<le> n \<Longrightarrow> set (select_ordered key n p t) = {x \<in> set t. p x}"
  by (simp add: select_ordered_def count_where_def)

subsection \<open>Operations that keep an invariant\<close>

text \<open>
  \<open>run_ops\<close> applies a sequence of operations to a state. The locale states the contract
  between a component and its clients: the operations and an invariant that each keeps.
\<close>

primrec run_ops :: "('op \<Rightarrow> 's \<Rightarrow> 's) \<Rightarrow> 'op list \<Rightarrow> 's \<Rightarrow> 's" where
  "run_ops step [] s = s"
| "run_ops step (x # xs) s = run_ops step xs (step x s)"

locale invariant_machine =
  fixes step :: "'op \<Rightarrow> 's \<Rightarrow> 's"
    and admissible :: "'op \<Rightarrow> bool"
    and inv :: "'s \<Rightarrow> bool"
  assumes step_inv: "inv s \<Longrightarrow> admissible x \<Longrightarrow> inv (step x s)"
begin

lemma run_inv: "inv s \<Longrightarrow> list_all admissible xs \<Longrightarrow> inv (run_ops step xs s)"
  by (induction xs arbitrary: s) (auto intro: step_inv)

lemma run_measure_mono:
  fixes m :: "'s \<Rightarrow> 'm::preorder"
  assumes mono: "\<And>s x. inv s \<Longrightarrow> admissible x \<Longrightarrow> m s \<le> m (step x s)"
  shows "inv s \<Longrightarrow> list_all admissible xs \<Longrightarrow> m s \<le> m (run_ops step xs s)"
proof (induction xs arbitrary: s)
  case Nil
  show ?case by simp
next
  case (Cons x xs)
  have "m s \<le> m (step x s)" using Cons.prems by (intro mono) simp_all
  also have "\<dots> \<le> m (run_ops step xs (step x s))"
    using Cons.prems by (intro Cons.IH step_inv) simp_all
  finally show ?case by simp
qed

end

end
