(* ===== verification/Domain.thy ===== *)
theory Domain
  imports Prelude
begin

section \<open>Domain values: JSON, statuses, entities and their validation\<close>

text \<open>
  The data of \<open>packages/agent-core/src/agent_core/domain\<close>: the status enumerations
  (\<open>status.py\<close>), frozen JSON (\<open>base.py\<close>) and the validated entities (\<open>models.py\<close>).
  An entity is a record; \<open>X_model_validate\<close> is pydantic's \<open>model_validate\<close> for class
  \<open>X\<close>: the field constraints in declaration order (with the whitespace stripping they
  perform), then the \<open>after\<close> validators in definition order. It returns the normalised
  record or the first constraint violated.

  The lemmas show that freezing JSON is lossless and refuses exactly the non-finite numbers,
  and characterise the accepted runs.
\<close>

subsection \<open>Statuses\<close>

datatype SessionStatus = SESSION_ACTIVE | SESSION_COMPLETED | SESSION_CANCELLED

datatype ApprovalMode = REQUIRE_ALL | REQUIRE_SENSITIVE | AUTO_APPROVE

datatype RunStatus =
    QUEUED | LEASED | RUNNING | WAITING_APPROVAL | RETRY_PENDING
  | COMPLETED | FAILED | CANCELLED | LOST

datatype ToolCallStatus =
    TOOL_RECEIVED | TOOL_WAITING_APPROVAL | TOOL_RUNNING
  | TOOL_COMPLETED | TOOL_FAILED | TOOL_CANCELLED

datatype ModelCallStatus = MODEL_STARTED | MODEL_STREAMING | MODEL_COMPLETED | MODEL_FAILED

datatype RunPriorityClass = INTERACTIVE | BACKGROUND | EVALUATION

text \<open>The wire value of a run status (\<open>StrEnum\<close>), and its parser \<open>RunStatus(value)\<close>.\<close>

fun run_status_value :: "RunStatus \<Rightarrow> string" where
  "run_status_value QUEUED = ''queued''"
| "run_status_value LEASED = ''leased''"
| "run_status_value RUNNING = ''running''"
| "run_status_value WAITING_APPROVAL = ''waiting_approval''"
| "run_status_value RETRY_PENDING = ''retry_pending''"
| "run_status_value COMPLETED = ''completed''"
| "run_status_value FAILED = ''failed''"
| "run_status_value CANCELLED = ''cancelled''"
| "run_status_value LOST = ''lost''"

definition all_run_statuses :: "RunStatus list" where
  "all_run_statuses =
     [QUEUED, LEASED, RUNNING, WAITING_APPROVAL, RETRY_PENDING, COMPLETED, FAILED, CANCELLED, LOST]"

definition parse_run_status :: "string \<Rightarrow> RunStatus option" where
  "parse_run_status v = List.find (\<lambda>s. run_status_value s = v) all_run_statuses"

lemma parse_run_status_value [simp]: "parse_run_status (run_status_value s) = Some s"
  by (cases s) (simp_all add: parse_run_status_def all_run_statuses_def)

lemma all_run_statuses_complete [simp]: "s \<in> set all_run_statuses"
  by (cases s) (simp_all add: all_run_statuses_def)

subsection \<open>Frozen JSON\<close>

datatype FrozenJson =
    FNull
  | FBool bool
  | FInt int
  | FFloat pyfloat
  | FStr string
  | FTuple "FrozenJson list"
  | FObject "(string \<times> FrozenJson) list"

type_synonym FrozenJsonObject = "(string \<times> FrozenJson) list"

fun freeze_json_value :: "json \<Rightarrow> FrozenJson result" where
  "freeze_json_value (JObj kvs) =
     bindE (mapE (\<lambda>kv. bindE (freeze_json_value (snd kv)) (\<lambda>w. Inr (fst kv, w))) kvs)
       (\<lambda>xs. Inr (FObject xs))"
| "freeze_json_value (JList vs) = bindE (mapE freeze_json_value vs) (\<lambda>xs. Inr (FTuple xs))"
| "freeze_json_value (JFloat x) =
     (if \<not> isfinite x then Inl (ValueError ''JSON numbers must be finite'') else Inr (FFloat x))"
| "freeze_json_value JNull = Inr FNull"
| "freeze_json_value (JBool b) = Inr (FBool b)"
| "freeze_json_value (JInt i) = Inr (FInt i)"
| "freeze_json_value (JStr s) = Inr (FStr s)"

fun thaw_json_value :: "FrozenJson \<Rightarrow> json" where
  "thaw_json_value (FObject kvs) = JObj (map (\<lambda>kv. (fst kv, thaw_json_value (snd kv))) kvs)"
| "thaw_json_value (FTuple vs) = JList (map thaw_json_value vs)"
| "thaw_json_value FNull = JNull"
| "thaw_json_value (FBool b) = JBool b"
| "thaw_json_value (FInt i) = JInt i"
| "thaw_json_value (FFloat x) = JFloat x"
| "thaw_json_value (FStr s) = JStr s"

text \<open>\<open>FrozenJsonObject._from_validated\<close> and \<open>to_json_object\<close>.\<close>

definition frozen_from_validated :: "json_object \<Rightarrow> FrozenJsonObject result" where
  "frozen_from_validated kvs =
     mapE (\<lambda>kv. bindE (freeze_json_value (snd kv)) (\<lambda>w. Inr (fst kv, w))) kvs"

definition to_json_object :: "FrozenJsonObject \<Rightarrow> json_object" where
  "to_json_object kvs = map (\<lambda>kv. (fst kv, thaw_json_value (snd kv))) kvs"

text \<open>Every number in a JSON value is finite.\<close>

fun json_finite :: "json \<Rightarrow> bool" where
  "json_finite (JObj kvs) = list_all (\<lambda>kv. json_finite (snd kv)) kvs"
| "json_finite (JList vs) = list_all json_finite vs"
| "json_finite (JFloat x) = isfinite x"
| "json_finite JNull = True"
| "json_finite (JBool b) = True"
| "json_finite (JInt i) = True"
| "json_finite (JStr s) = True"

lemma mapE_roundtrip:
  assumes "\<And>x y. x \<in> set xs \<Longrightarrow> f x = Inr y \<Longrightarrow> g y = x" and "mapE f xs = Inr ys"
  shows "map g ys = xs"
  using assms
proof (induction xs arbitrary: ys)
  case Nil
  then show ?case by simp
next
  case (Cons x xs)
  from Cons.prems(2) obtain y ys' where "f x = Inr y" "mapE f xs = Inr ys'" "ys = y # ys'"
    by (auto simp: bindE_eq_Inr)
  with Cons.IH Cons.prems(1) show ?case by auto
qed

lemma thaw_freeze: "freeze_json_value j = Inr f \<Longrightarrow> thaw_json_value f = j"
proof (induction j arbitrary: f rule: freeze_json_value.induct)
  case (1 kvs)
  then obtain xs where
    xs: "mapE (\<lambda>kv. bindE (freeze_json_value (snd kv)) (\<lambda>w. Inr (fst kv, w))) kvs = Inr xs"
    and f: "f = FObject xs"
    by (auto simp: bindE_eq_Inr)
  have "map (\<lambda>kv. (fst kv, thaw_json_value (snd kv))) xs = kvs"
    by (rule mapE_roundtrip [OF _ xs]) (auto simp: bindE_eq_Inr dest: "1.IH")
  with f show ?case by simp
next
  case (2 vs)
  then obtain xs where xs: "mapE freeze_json_value vs = Inr xs" and f: "f = FTuple xs"
    by (auto simp: bindE_eq_Inr)
  have "map thaw_json_value xs = vs"
    by (rule mapE_roundtrip [OF _ xs]) (auto dest: "2.IH")
  with f show ?case by simp
qed (auto split: if_splits)

lemma frozen_object_roundtrip: "frozen_from_validated kvs = Inr f \<Longrightarrow> to_json_object f = kvs"
  unfolding frozen_from_validated_def to_json_object_def
  by (erule mapE_roundtrip [rotated]) (auto simp: bindE_eq_Inr dest: thaw_freeze)

lemma freeze_ok_iff: "is_ok (freeze_json_value j) \<longleftrightarrow> json_finite j"
proof (induction j rule: freeze_json_value.induct)
  case (1 kvs)
  have "is_ok (freeze_json_value (JObj kvs)) \<longleftrightarrow>
      is_ok (mapE (\<lambda>kv. bindE (freeze_json_value (snd kv)) (\<lambda>w. Inr (fst kv, w))) kvs)"
    by (auto simp: is_ok_iff bindE_eq_Inr)
  also have "\<dots> \<longleftrightarrow> (\<forall>kv \<in> set kvs. is_ok (freeze_json_value (snd kv)))"
    unfolding mapE_ok_iff by (auto simp: is_ok_iff bindE_eq_Inr)
  also have "\<dots> \<longleftrightarrow> json_finite (JObj kvs)"
    using "1.IH" by (auto simp: list_all_iff)
  finally show ?case .
next
  case (2 vs)
  have "is_ok (freeze_json_value (JList vs)) \<longleftrightarrow> is_ok (mapE freeze_json_value vs)"
    by (auto simp: is_ok_iff bindE_eq_Inr)
  then show ?case using "2.IH" by (auto simp: mapE_ok_iff list_all_iff)
qed auto

lemma freeze_thaw: "json_finite (thaw_json_value f) \<Longrightarrow> freeze_json_value (thaw_json_value f) = Inr f"
proof (induction f rule: thaw_json_value.induct)
  case (1 kvs)
  have "mapE (\<lambda>kv. bindE (freeze_json_value (snd kv)) (\<lambda>w. Inr (fst kv, w)))
      (map (\<lambda>kv. (fst kv, thaw_json_value (snd kv))) kvs) = Inr kvs"
    using "1" by (induction kvs) auto
  then show ?case by simp
next
  case (2 vs)
  have "mapE freeze_json_value (map thaw_json_value vs) = Inr vs"
    using "2" by (induction vs) auto
  then show ?case by simp
qed auto

lemma frozen_from_validated_JObj:
  "frozen_from_validated kvs = Inr f \<longleftrightarrow> freeze_json_value (JObj kvs) = Inr (FObject f)"
  by (auto simp: frozen_from_validated_def bindE_eq_Inr)

text \<open>
  C38: Freezing and thawing JSON are inverse to each other: \<open>_from_validated\<close> returns a frozen
  object exactly for the objects whose numbers are all finite, and then the one frozen object
  that \<open>to_json_object\<close> maps back to the input, key order included.
\<close>

theorem frozen_json_roundtrip:
  "frozen_from_validated kvs = Inr f \<longleftrightarrow> json_finite (JObj kvs) \<and> to_json_object f = kvs"
proof
  assume f: "frozen_from_validated kvs = Inr f"
  then have "is_ok (freeze_json_value (JObj kvs))" by (simp add: frozen_from_validated_JObj is_ok_def)
  then show "json_finite (JObj kvs) \<and> to_json_object f = kvs"
    using frozen_object_roundtrip [OF f] unfolding freeze_ok_iff by simp
next
  assume "json_finite (JObj kvs) \<and> to_json_object f = kvs"
  then show "frozen_from_validated kvs = Inr f"
    unfolding frozen_from_validated_JObj using freeze_thaw [of "FObject f"] by (auto simp: to_json_object_def)
qed

text \<open>
  Python's \<open>==\<close> on JSON values: numbers and booleans compare by value, dictionaries compare
  regardless of the order of their keys (which are unique).
\<close>

fun json_number :: "FrozenJson \<Rightarrow> rat option" where
  "json_number (FBool b) = Some (if b then 1 else 0)"
| "json_number (FInt i) = Some (of_int i)"
| "json_number (FFloat (Fin q)) = Some q"
| "json_number _ = None"

fun json_same :: "FrozenJson \<Rightarrow> FrozenJson \<Rightarrow> bool" where
  "json_same (FObject a) (FObject b) \<longleftrightarrow>
     length a = length b
   \<and> list_all (\<lambda>kv. list_ex (\<lambda>kw. fst kw = fst kv \<and> json_same (snd kv) (snd kw)) b) a"
| "json_same (FTuple a) (FTuple b) \<longleftrightarrow> list_all2 (\<lambda>x y. json_same x y) a b"
| "json_same a b \<longleftrightarrow>
     (case (json_number a, json_number b) of (Some x, Some y) \<Rightarrow> x = y | _ \<Rightarrow> a = b)"

definition json_object_same :: "FrozenJsonObject \<Rightarrow> FrozenJsonObject \<Rightarrow> bool" where
  "json_object_same a b \<longleftrightarrow> json_same (FObject a) (FObject b)"

lemma json_same_refl [simp]: "json_same x x"
proof (induction x)
  case (FTuple xs)
  then show ?case by (simp add: list.rel_refl_strong)
next
  case (FObject kvs)
  have "list_ex (\<lambda>kw. fst kw = fst kv \<and> json_same (snd kv) (snd kw)) kvs" if "kv \<in> set kvs" for kv
    unfolding list_ex_iff using that FObject [OF that, of "snd kv"] by (intro bexI [of _ kv]) (auto simp: snds.simps)
  then show ?case by (simp add: list_all_iff)
qed (auto split: option.splits)

lemma json_object_same_refl [simp]: "json_object_same a a"
  by (simp add: json_object_same_def del: json_same.simps)

subsection \<open>String constraints\<close>

text \<open>
  \<open>StringConstraints\<close> of \<open>models.py\<close>: whitespace is stripped first, then the length
  and the pattern are checked on the stripped text.
\<close>

definition constrained_string ::
    "string \<Rightarrow> nat \<Rightarrow> nat option \<Rightarrow> (string \<Rightarrow> bool) \<Rightarrow> string \<Rightarrow> string result" where
  "constrained_string field min_length max_length pattern s =
     (let t = rust_trim s
      in if min_length \<le> length t \<and> (case max_length of None \<Rightarrow> True | Some m \<Rightarrow> length t \<le> m)
            \<and> pattern t
         then Inr t else Inl (ValidationError field))"

definition lower_letter :: "char \<Rightarrow> bool" where
  "lower_letter c \<longleftrightarrow> (let n = of_char c :: nat in 97 \<le> n \<and> n \<le> 122)"

definition digit_char :: "char \<Rightarrow> bool" where
  "digit_char c \<longleftrightarrow> (let n = of_char c :: nat in 48 \<le> n \<and> n \<le> 57)"

definition hex_char :: "char \<Rightarrow> bool" where
  "hex_char c \<longleftrightarrow> digit_char c \<or> (let n = of_char c :: nat in 97 \<le> n \<and> n \<le> 102)"

text \<open>The pattern \<open>^[a-z][a-z0-9_]*$\<close>.\<close>

definition snake_case :: "string \<Rightarrow> bool" where
  "snake_case s = (case s of [] \<Rightarrow> False
     | c # cs \<Rightarrow> lower_letter c
         \<and> list_all (\<lambda>d. lower_letter d \<or> digit_char d \<or> d = CHR ''_'') cs)"

definition NonEmptyString :: "string \<Rightarrow> string \<Rightarrow> string result" where
  "NonEmptyString field = constrained_string field 1 None (\<lambda>_. True)"

definition IdentifierString :: "string \<Rightarrow> string \<Rightarrow> string result" where
  "IdentifierString field = constrained_string field 1 (Some 255) (\<lambda>_. True)"

definition ToolName :: "string \<Rightarrow> string \<Rightarrow> string result" where
  "ToolName field = constrained_string field 1 (Some 100) snake_case"

text \<open>The remaining aliases do not strip.\<close>

definition Sha256Hex :: "string \<Rightarrow> string \<Rightarrow> string result" where
  "Sha256Hex field s =
     (if length s = 64 \<and> list_all hex_char s then Inr s else Inl (ValidationError field))"

text \<open>The pattern \<open>^00-[0-9a-f]{32}-[0-9a-f]{16}-[0-9a-f]{2}$\<close>, and the two identifiers
  that \<open>traceparent.split("-")\<close> yields for a text that matches it.\<close>

definition traceparent_pattern :: "string \<Rightarrow> bool" where
  "traceparent_pattern s \<longleftrightarrow>
     length s = 55 \<and> take 3 s = ''00-'' \<and> list_all hex_char (take 32 (drop 3 s))
     \<and> take 1 (drop 35 s) = ''-'' \<and> list_all hex_char (take 16 (drop 36 s))
     \<and> take 1 (drop 52 s) = ''-'' \<and> list_all hex_char (drop 53 s)"

definition TraceParent :: "string \<Rightarrow> string \<Rightarrow> string result" where
  "TraceParent field s = (if traceparent_pattern s then Inr s else Inl (ValidationError field))"

definition TraceState :: "string \<Rightarrow> string \<Rightarrow> string result" where
  "TraceState field s =
     (if 1 \<le> length s \<and> length s \<le> 512 then Inr s else Inl (ValidationError field))"

definition hex_value :: "char \<Rightarrow> nat" where
  "hex_value c = (let n = of_char c :: nat in if n \<le> 57 then n - 48 else n - 87)"

definition int_base16 :: "string \<Rightarrow> nat" where
  "int_base16 s = foldl (\<lambda>acc c. 16 * acc + hex_value c) 0 s"

text \<open>An optional field is validated when it is present.\<close>

definition optional :: "('a \<Rightarrow> 'b result) \<Rightarrow> 'a option \<Rightarrow> 'b option result" where
  "optional f x = (case x of None \<Rightarrow> Inr None | Some v \<Rightarrow> bindE (f v) (\<lambda>w. Inr (Some w)))"

text \<open>A numeric bound (\<open>Field(ge=..., le=...)\<close>).\<close>

definition check :: "bool \<Rightarrow> string \<Rightarrow> unit result" where
  "check ok msg = (if ok then Inr () else Inl (ValidationError msg))"

lemma check_simps [simp]:
  "check True m = Inr ()" "check False m = Inl (ValidationError m)"
  by (simp_all add: check_def)

lemma check_eq_Inr [simp]: "check b m = Inr u \<longleftrightarrow> b"
  by (simp add: check_def)

lemma bindE_check: "bindE (check b m) f = Inr y \<longleftrightarrow> b \<and> f () = Inr y"
  by (cases b) simp_all

lemma if_check:
  "(if b then check c m else check d n) = Inr u \<longleftrightarrow> (if b then c else d)"
  by simp

lemma optional_simps [simp]:
  "optional f None = Inr None"
  "optional f (Some v) = bindE (f v) (\<lambda>w. Inr (Some w))"
  by (simp_all add: optional_def)

lemma optional_eq_Inr:
  "optional f x = Inr y \<longleftrightarrow>
     (x = None \<and> y = None) \<or> (\<exists>v w. x = Some v \<and> f v = Inr w \<and> y = Some w)"
  by (cases x) (auto simp: bindE_eq_Inr)

lemma constrained_string_idem:
  "constrained_string f a b p s = Inr t \<Longrightarrow> constrained_string f a b p t = Inr t"
  by (auto simp: constrained_string_def Let_def split: if_splits option.splits)

subsection \<open>Evaluation\<close>

text \<open>
  An executable form for the check of a hash: a character equal to its predecessor is not
  looked at again.
\<close>

primrec hex_after :: "char \<Rightarrow> string \<Rightarrow> bool" where
  "hex_after p [] = True"
| "hex_after p (c # cs) = ((c = p \<or> hex_char c) \<and> hex_after c cs)"

fun all_hex :: "string \<Rightarrow> bool" where
  "all_hex [] = True"
| "all_hex (c # cs) = (hex_char c \<and> hex_after c cs)"

lemma hex_after: "hex_char p \<Longrightarrow> hex_after p s = list_all hex_char s"
  by (induction s arbitrary: p) auto

lemma all_hex [code_unfold]: "list_all hex_char = all_hex"
proof
  fix s show "list_all hex_char s = all_hex s" by (cases s) (auto simp: hex_after)
qed

end
