(* ===== verification/Entities.thy ===== *)
theory Entities
  imports Domain
begin

section \<open>Validated entities: Session, Run, ToolCall, Checkpoint, ModelCall\<close>

text \<open>
  The classes of \<open>domain/models.py\<close>. The record of a class has its fields in order; the
  \<open>X_model_validate\<close> functions are the constructors every entity passes through.
  \<open>run_valid\<close> says that a run is what the constructor accepts unchanged.
\<close>

subsection \<open>Session\<close>

record Session =
  session_id :: uuid
  session_tenant_id :: uuid
  session_workspace_id :: uuid
  session_status :: SessionStatus
  session_approval_mode :: ApprovalMode
  session_model_route :: string
  session_memory_enabled :: bool
  session_context_generation :: int
  session_created_at :: timestamp
  session_updated_at :: timestamp

definition session_model_validate :: "Session \<Rightarrow> Session result" where
  "session_model_validate s =
     bindE (IdentifierString ''model_route'' (session_model_route s)) (\<lambda>route.
     bindE (check (1 \<le> session_context_generation s) ''context_generation'') (\<lambda>_.
     bindE (check (\<not> session_updated_at s < session_created_at s)
              ''updated_at may not precede created_at'') (\<lambda>_.
     Inr (s\<lparr>session_model_route := route\<rparr>))))"

subsection \<open>Run\<close>

record Run =
  run_id :: uuid
  run_session_id :: uuid
  run_workspace_id :: uuid
  run_status :: RunStatus
  run_priority :: int
  run_priority_class :: RunPriorityClass
  run_attempt :: int
  run_execution_epoch :: int
  run_assigned_worker_id :: "string option"
  run_lease_expires_at :: "timestamp option"
  run_last_checkpoint_id :: "uuid option"
  run_cancellation_requested :: bool
  run_traceparent :: "string option"
  run_tracestate :: "string option"
  run_created_at :: timestamp
  run_started_at :: "timestamp option"
  run_completed_at :: "timestamp option"

definition terminal_run_statuses :: "RunStatus set" where
  "terminal_run_statuses = {COMPLETED, FAILED, CANCELLED}"

definition started_run_statuses :: "RunStatus set" where
  "started_run_statuses = {RUNNING, WAITING_APPROVAL, RETRY_PENDING, COMPLETED, FAILED}"

definition assigned_run_statuses :: "RunStatus set" where
  "assigned_run_statuses = {LEASED, RUNNING}"

definition unassigned_run_statuses :: "RunStatus set" where
  "unassigned_run_statuses = {QUEUED, WAITING_APPROVAL, RETRY_PENDING, LOST}"

lemmas run_status_sets =
  terminal_run_statuses_def started_run_statuses_def assigned_run_statuses_def
  unassigned_run_statuses_def

text \<open>\<open>self.started_at or self.created_at\<close>.\<close>

definition comparison_start :: "Run \<Rightarrow> timestamp" where
  "comparison_start r = (case run_started_at r of Some t \<Rightarrow> t | None \<Rightarrow> run_created_at r)"

definition run_validate_execution_epoch :: "Run \<Rightarrow> unit result" where
  "run_validate_execution_epoch r =
     check (\<not> run_execution_epoch r > run_attempt r)
       ''execution_epoch may not exceed the run attempt''"

definition traceparent_nonzero :: "string option \<Rightarrow> bool" where
  "traceparent_nonzero tp =
     (case tp of None \<Rightarrow> True
      | Some s \<Rightarrow> \<not> (int_base16 (take 32 (drop 3 s)) = 0 \<or> int_base16 (take 16 (drop 36 s)) = 0))"

definition run_validate_lifecycle :: "Run \<Rightarrow> unit result" where
  "run_validate_lifecycle r =
     bindE (check (\<not> (run_tracestate r \<noteq> None \<and> run_traceparent r = None))
              ''tracestate requires traceparent'') (\<lambda>_.
     bindE (check (traceparent_nonzero (run_traceparent r))
              ''traceparent identifiers must be nonzero'') (\<lambda>_.
     bindE (check (case run_started_at r of None \<Rightarrow> True | Some t \<Rightarrow> \<not> t < run_created_at r)
              ''started_at may not precede created_at'') (\<lambda>_.
     bindE (check (case run_completed_at r of None \<Rightarrow> True | Some t \<Rightarrow> \<not> t < comparison_start r)
              ''completed_at may not precede the run start'') (\<lambda>_.
     bindE (check (\<not> (run_status r \<in> started_run_statuses \<and> run_started_at r = None))
              (run_status_value (run_status r) @ '' run must have started_at'')) (\<lambda>_.
     bindE (check (\<not> (run_status r \<in> assigned_run_statuses \<and> run_assigned_worker_id r = None))
              (run_status_value (run_status r) @ '' run must have assigned_worker_id'')) (\<lambda>_.
     bindE (check (\<not> (run_status r \<in> assigned_run_statuses \<and> run_lease_expires_at r = None))
              (run_status_value (run_status r) @ '' run must have lease_expires_at'')) (\<lambda>_.
     bindE (check (\<not> (run_status r \<in> unassigned_run_statuses
                       \<and> (run_assigned_worker_id r \<noteq> None \<or> run_lease_expires_at r \<noteq> None)))
              (run_status_value (run_status r) @ '' run may not retain a worker lease'')) (\<lambda>_.
     if run_status r \<in> terminal_run_statuses
     then check (run_completed_at r \<noteq> None)
            (run_status_value (run_status r) @ '' run must have completed_at'')
     else check (run_completed_at r = None)
            ''non-terminal run may not have completed_at''))))))))"

definition run_model_validate :: "Run \<Rightarrow> Run result" where
  "run_model_validate r =
     bindE (check (-100 \<le> run_priority r \<and> run_priority r \<le> 100) ''priority'') (\<lambda>_.
     bindE (check (1 \<le> run_attempt r) ''attempt'') (\<lambda>_.
     bindE (check (1 \<le> run_execution_epoch r) ''execution_epoch'') (\<lambda>_.
     bindE (optional (IdentifierString ''assigned_worker_id'') (run_assigned_worker_id r)) (\<lambda>worker.
     bindE (optional (TraceParent ''traceparent'') (run_traceparent r)) (\<lambda>tp.
     bindE (optional (TraceState ''tracestate'') (run_tracestate r)) (\<lambda>ts.
     let r' = r\<lparr>run_assigned_worker_id := worker\<rparr>
     in bindE (run_validate_execution_epoch r') (\<lambda>_.
        bindE (run_validate_lifecycle r') (\<lambda>_. Inr r'))))))))"

text \<open>What the constructor accepts, as one predicate.\<close>

definition run_lifecycle_ok :: "Run \<Rightarrow> bool" where
  "run_lifecycle_ok r \<longleftrightarrow>
     \<not> (run_tracestate r \<noteq> None \<and> run_traceparent r = None)
   \<and> traceparent_nonzero (run_traceparent r)
   \<and> (case run_started_at r of None \<Rightarrow> True | Some t \<Rightarrow> \<not> t < run_created_at r)
   \<and> (case run_completed_at r of None \<Rightarrow> True | Some t \<Rightarrow> \<not> t < comparison_start r)
   \<and> \<not> (run_status r \<in> started_run_statuses \<and> run_started_at r = None)
   \<and> \<not> (run_status r \<in> assigned_run_statuses \<and> run_assigned_worker_id r = None)
   \<and> \<not> (run_status r \<in> assigned_run_statuses \<and> run_lease_expires_at r = None)
   \<and> \<not> (run_status r \<in> unassigned_run_statuses
          \<and> (run_assigned_worker_id r \<noteq> None \<or> run_lease_expires_at r \<noteq> None))
   \<and> (if run_status r \<in> terminal_run_statuses then run_completed_at r \<noteq> None
      else run_completed_at r = None)"

definition run_fields_ok :: "Run \<Rightarrow> bool" where
  "run_fields_ok r \<longleftrightarrow>
     -100 \<le> run_priority r \<and> run_priority r \<le> 100
   \<and> 1 \<le> run_attempt r \<and> 1 \<le> run_execution_epoch r
   \<and> run_execution_epoch r \<le> run_attempt r
   \<and> (\<forall>w. run_assigned_worker_id r = Some w \<longrightarrow> IdentifierString ''assigned_worker_id'' w = Inr w)
   \<and> (\<forall>s. run_traceparent r = Some s \<longrightarrow> traceparent_pattern s)
   \<and> (\<forall>s. run_tracestate r = Some s \<longrightarrow> 1 \<le> length s \<and> length s \<le> 512)"

definition run_valid :: "Run \<Rightarrow> bool" where
  "run_valid r \<longleftrightarrow> run_fields_ok r \<and> run_lifecycle_ok r"

lemma IdentifierString_idem:
  "IdentifierString f s = Inr t \<Longrightarrow> IdentifierString g t = Inr t"
  by (auto simp: IdentifierString_def constrained_string_def Let_def split: if_splits)

lemma run_validate_lifecycle_iff: "run_validate_lifecycle r = Inr u \<longleftrightarrow> run_lifecycle_ok r"
  by (simp only: run_validate_lifecycle_def run_lifecycle_ok_def bindE_check if_check)

lemma optional_idem:
  assumes "\<And>v w. f v = Inr w \<Longrightarrow> g w" "optional f x = Inr y"
  shows "\<forall>w. y = Some w \<longrightarrow> g w"
  using assms by (auto simp: optional_eq_Inr)

lemma run_model_validate_sound:
  assumes "run_model_validate r = Inr r'"
  shows "run_valid r'"
proof -
  from assms obtain worker tp ts where
    num: "-100 \<le> run_priority r \<and> run_priority r \<le> 100" "1 \<le> run_attempt r"
      "1 \<le> run_execution_epoch r"
    and worker: "optional (IdentifierString ''assigned_worker_id'') (run_assigned_worker_id r) = Inr worker"
    and tp: "optional (TraceParent ''traceparent'') (run_traceparent r) = Inr tp"
    and ts: "optional (TraceState ''tracestate'') (run_tracestate r) = Inr ts"
    and r': "r' = r\<lparr>run_assigned_worker_id := worker\<rparr>"
    and epoch: "run_validate_execution_epoch r' = Inr ()"
    and life: "run_lifecycle_ok r'"
    unfolding run_model_validate_def bindE_check Let_def
    by (auto simp: bindE_eq_Inr run_validate_lifecycle_iff)
  have "\<forall>w. worker = Some w \<longrightarrow> IdentifierString ''assigned_worker_id'' w = Inr w"
    by (rule optional_idem [OF _ worker]) (rule IdentifierString_idem)
  moreover have "\<forall>s. run_traceparent r = Some s \<longrightarrow> traceparent_pattern s"
    using tp by (auto simp: TraceParent_def bindE_eq_Inr split: if_splits)
  moreover have "\<forall>s. run_tracestate r = Some s \<longrightarrow> 1 \<le> length s \<and> length s \<le> 512"
    using ts by (auto simp: TraceState_def bindE_eq_Inr split: if_splits)
  moreover have "run_execution_epoch r \<le> run_attempt r"
    using epoch r' by (simp add: run_validate_execution_epoch_def)
  ultimately have "run_fields_ok r'"
    using num by (simp add: run_fields_ok_def r')
  with life show ?thesis by (simp add: run_valid_def)
qed

lemma run_model_validate_complete:
  assumes v: "run_valid r"
  shows "run_model_validate r = Inr r"
proof -
  have f: "run_fields_ok r" and l: "run_validate_lifecycle r = Inr ()"
    using v by (simp_all add: run_valid_def run_validate_lifecycle_iff)
  have "optional (IdentifierString ''assigned_worker_id'') (run_assigned_worker_id r) =
      Inr (run_assigned_worker_id r)"
    using f by (cases "run_assigned_worker_id r") (simp_all add: run_fields_ok_def)
  moreover have "optional (TraceParent ''traceparent'') (run_traceparent r) = Inr (run_traceparent r)"
    using f by (cases "run_traceparent r") (simp_all add: run_fields_ok_def TraceParent_def)
  moreover have "optional (TraceState ''tracestate'') (run_tracestate r) = Inr (run_tracestate r)"
    using f by (cases "run_tracestate r") (simp_all add: run_fields_ok_def TraceState_def)
  moreover have "run_validate_execution_epoch r = Inr ()"
    using f by (simp add: run_fields_ok_def run_validate_execution_epoch_def)
  ultimately show ?thesis
    using f l by (simp add: run_model_validate_def run_fields_ok_def)
qed

lemma run_model_validate_fixed_iff: "run_model_validate r = Inr r \<longleftrightarrow> run_valid r"
  using run_model_validate_sound run_model_validate_complete by blast

text \<open>
  \<open>Run.model_copy(update=...)\<close>: \<open>requested\<close> is the \<open>status\<close> key of the update when it
  has one, \<open>values\<close> what the other keys do to the dumped fields.
\<close>

definition run_model_copy :: "Run \<Rightarrow> string option \<Rightarrow> (Run \<Rightarrow> Run) \<Rightarrow> Run result" where
  "run_model_copy r requested values =
     (case requested of
        Some v \<Rightarrow>
          if parse_run_status v \<noteq> Some (run_status r)
          then Inl (domain_error ''run_status_update_requires_transition''
                 ''run status changes must use transition_run'' False
                 [(''run_id'', JStr (uuid_str (run_id r))),
                  (''current_status'', JStr (run_status_value (run_status r))),
                  (''requested_status'', JStr v)])
          else run_model_validate (values r)
      | None \<Rightarrow> run_model_validate (values r))"

subsection \<open>ToolCall\<close>

record ToolCall =
  tool_id :: string
  tool_run_id :: uuid
  tool_execution_epoch :: int
  tool_turn_number :: int
  tool_tool_name :: string
  tool_arguments :: FrozenJsonObject
  tool_argument_hash :: string
  tool_status :: ToolCallStatus
  tool_workspace_version :: "string option"
  tool_result :: "FrozenJsonObject option"
  tool_error :: "ErrorDetail option"
  tool_started_at :: "timestamp option"
  tool_completed_at :: "timestamp option"

fun tool_status_value :: "ToolCallStatus \<Rightarrow> string" where
  "tool_status_value TOOL_RECEIVED = ''received''"
| "tool_status_value TOOL_WAITING_APPROVAL = ''waiting_approval''"
| "tool_status_value TOOL_RUNNING = ''running''"
| "tool_status_value TOOL_COMPLETED = ''completed''"
| "tool_status_value TOOL_FAILED = ''failed''"
| "tool_status_value TOOL_CANCELLED = ''cancelled''"

definition terminal_tool_statuses :: "ToolCallStatus set" where
  "terminal_tool_statuses = {TOOL_COMPLETED, TOOL_FAILED, TOOL_CANCELLED}"

text \<open>
  \<open>canonical_argument_hash\<close>: \<open>dumps\<close> is \<open>json.dumps\<close> with sorted keys, compact
  separators and UTF-8 output, \<open>sha256\<close> the hexadecimal digest; both are arguments.
\<close>

definition canonical_argument_hash ::
    "(json_object \<Rightarrow> 'b) \<Rightarrow> ('b \<Rightarrow> string) \<Rightarrow> FrozenJsonObject \<Rightarrow> string" where
  "canonical_argument_hash dumps sha256 arguments = sha256 (dumps (to_json_object arguments))"

definition tool_validate_execution :: "(FrozenJsonObject \<Rightarrow> string) \<Rightarrow> ToolCall \<Rightarrow> unit result" where
  "tool_validate_execution hash t =
     bindE (check (tool_argument_hash t = hash (tool_arguments t))
              ''argument_hash does not match canonical arguments'') (\<lambda>_.
     bindE (check (case (tool_completed_at t, tool_started_at t) of
                     (Some c, Some s) \<Rightarrow> \<not> c < s | _ \<Rightarrow> True)
              ''completed_at may not precede started_at'') (\<lambda>_.
     bindE (check (\<not> (tool_status t \<in> {TOOL_RUNNING, TOOL_COMPLETED} \<and> tool_started_at t = None))
              (tool_status_value (tool_status t) @ '' tool call must have started_at'')) (\<lambda>_.
     bindE (if tool_status t \<in> terminal_tool_statuses
            then check (tool_completed_at t \<noteq> None)
                   (tool_status_value (tool_status t) @ '' tool call must have completed_at'')
            else check (tool_completed_at t = None)
                   ''non-terminal tool call may not have completed_at'') (\<lambda>_.
     if tool_status t = TOOL_COMPLETED
     then check (\<not> (tool_result t = None \<or> tool_error t \<noteq> None))
            ''completed tool call requires only a result''
     else if tool_status t \<in> {TOOL_FAILED, TOOL_CANCELLED}
     then check (\<not> (tool_error t = None \<or> tool_result t \<noteq> None))
            ''failed or cancelled tool call requires only an error''
     else check (\<not> (tool_result t \<noteq> None \<or> tool_error t \<noteq> None))
            ''non-terminal tool call may not have a result or error''))))"

definition tool_model_validate :: "(FrozenJsonObject \<Rightarrow> string) \<Rightarrow> ToolCall \<Rightarrow> ToolCall result" where
  "tool_model_validate hash t =
     bindE (IdentifierString ''id'' (tool_id t)) (\<lambda>i.
     bindE (check (1 \<le> tool_execution_epoch t) ''execution_epoch'') (\<lambda>_.
     bindE (check (1 \<le> tool_turn_number t) ''turn_number'') (\<lambda>_.
     bindE (ToolName ''tool_name'' (tool_tool_name t)) (\<lambda>n.
     bindE (Sha256Hex ''argument_hash'' (tool_argument_hash t)) (\<lambda>h.
     bindE (optional (IdentifierString ''workspace_version'') (tool_workspace_version t)) (\<lambda>v.
     let t' = t\<lparr>tool_id := i, tool_tool_name := n, tool_workspace_version := v\<rparr>
     in bindE (tool_validate_execution hash t') (\<lambda>_. Inr t')))))))"

subsection \<open>Checkpoint\<close>

record Checkpoint =
  cp_id :: uuid
  cp_run_id :: uuid
  cp_session_id :: uuid
  cp_execution_epoch :: int
  cp_tool_call_id :: string
  cp_message_sequence :: int
  cp_messages :: "FrozenJsonObject list"
  cp_workspace_snapshot_uri :: string
  cp_workspace_revision :: string
  cp_task_plan :: FrozenJsonObject
  cp_context_summary :: "string option"
  cp_created_at :: timestamp

definition checkpoint_model_validate :: "Checkpoint \<Rightarrow> Checkpoint result" where
  "checkpoint_model_validate c =
     bindE (check (1 \<le> cp_execution_epoch c) ''execution_epoch'') (\<lambda>_.
     bindE (IdentifierString ''tool_call_id'' (cp_tool_call_id c)) (\<lambda>i.
     bindE (check (0 \<le> cp_message_sequence c) ''message_sequence'') (\<lambda>_.
     bindE (check (length (cp_messages c) \<le> 4096) ''messages'') (\<lambda>_.
     bindE (NonEmptyString ''workspace_snapshot_uri'' (cp_workspace_snapshot_uri c)) (\<lambda>u.
     bindE (IdentifierString ''workspace_revision'' (cp_workspace_revision c)) (\<lambda>w.
     bindE (check (\<not> (cp_messages c \<noteq> [] \<and> int (length (cp_messages c)) \<noteq> cp_message_sequence c))
              ''checkpoint messages must match message_sequence'') (\<lambda>_.
     Inr (c\<lparr>cp_tool_call_id := i, cp_workspace_snapshot_uri := u, cp_workspace_revision := w\<rparr>))))))))"

subsection \<open>ModelCall\<close>

record ModelCall =
  mc_id :: string
  mc_run_id :: uuid
  mc_execution_epoch :: int
  mc_request_id :: string
  mc_route_name :: string
  mc_provider :: "string option"
  mc_model :: "string option"
  mc_status :: ModelCallStatus
  mc_input_tokens :: "int option"
  mc_output_tokens :: "int option"
  mc_cached_tokens :: "int option"
  mc_estimated_cost_usd :: "rat option"
  mc_retry_count :: int
  mc_fallback_count :: int
  mc_started_at :: timestamp
  mc_first_token_at :: "timestamp option"
  mc_completed_at :: "timestamp option"

fun model_status_value :: "ModelCallStatus \<Rightarrow> string" where
  "model_status_value MODEL_STARTED = ''started''"
| "model_status_value MODEL_STREAMING = ''streaming''"
| "model_status_value MODEL_COMPLETED = ''completed''"
| "model_status_value MODEL_FAILED = ''failed''"

definition terminal_model_statuses :: "ModelCallStatus set" where
  "terminal_model_statuses = {MODEL_COMPLETED, MODEL_FAILED}"

definition model_call_validate_lifecycle :: "ModelCall \<Rightarrow> unit result" where
  "model_call_validate_lifecycle m =
     bindE (check (case mc_first_token_at m of None \<Rightarrow> True | Some t \<Rightarrow> \<not> t < mc_started_at m)
              ''first_token_at may not precede started_at'') (\<lambda>_.
     bindE (check (case mc_completed_at m of None \<Rightarrow> True | Some t \<Rightarrow> \<not> t < mc_started_at m)
              ''completed_at may not precede started_at'') (\<lambda>_.
     bindE (check (case (mc_first_token_at m, mc_completed_at m) of
                     (Some f, Some c) \<Rightarrow> \<not> f > c | _ \<Rightarrow> True)
              ''first_token_at may not follow completed_at'') (\<lambda>_.
     bindE (check (\<not> (mc_status m = MODEL_STREAMING \<and> mc_first_token_at m = None))
              ''streaming model call must have first_token_at'') (\<lambda>_.
     if mc_status m \<in> terminal_model_statuses
     then check (mc_completed_at m \<noteq> None)
            (model_status_value (mc_status m) @ '' model call must have completed_at'')
     else check (mc_completed_at m = None)
            ''non-terminal model call may not have completed_at''))))"

definition nonneg_option :: "'n::linordered_idom option \<Rightarrow> bool" where
  "nonneg_option x = (case x of None \<Rightarrow> True | Some n \<Rightarrow> 0 \<le> n)"

definition model_call_model_validate :: "ModelCall \<Rightarrow> ModelCall result" where
  "model_call_model_validate m =
     bindE (IdentifierString ''id'' (mc_id m)) (\<lambda>i.
     bindE (check (1 \<le> mc_execution_epoch m) ''execution_epoch'') (\<lambda>_.
     bindE (IdentifierString ''request_id'' (mc_request_id m)) (\<lambda>q.
     bindE (IdentifierString ''route_name'' (mc_route_name m)) (\<lambda>n.
     bindE (optional (IdentifierString ''provider'') (mc_provider m)) (\<lambda>p.
     bindE (optional (IdentifierString ''model'') (mc_model m)) (\<lambda>d.
     bindE (check (nonneg_option (mc_input_tokens m)) ''input_tokens'') (\<lambda>_.
     bindE (check (nonneg_option (mc_output_tokens m)) ''output_tokens'') (\<lambda>_.
     bindE (check (nonneg_option (mc_cached_tokens m)) ''cached_tokens'') (\<lambda>_.
     bindE (check (nonneg_option (mc_estimated_cost_usd m)) ''estimated_cost_usd'') (\<lambda>_.
     bindE (check (0 \<le> mc_retry_count m) ''retry_count'') (\<lambda>_.
     bindE (check (0 \<le> mc_fallback_count m) ''fallback_count'') (\<lambda>_.
     let m' = m\<lparr>mc_id := i, mc_request_id := q, mc_route_name := n, mc_provider := p, mc_model := d\<rparr>
     in bindE (model_call_validate_lifecycle m') (\<lambda>_. Inr m')))))))))))))"

end
