(* ===== verification/Gateway_Types.thy ===== *)
theory Gateway_Types
  imports Entities
begin

section \<open>Model gateway messages and stream events\<close>

text \<open>
  The provider-neutral values of \<open>agent_core/gateway.py\<close>: messages, requests and the four
  stream events, with their validators.
\<close>

datatype MessageRole = SYSTEM | USER | ASSISTANT | TOOL

fun role_value :: "MessageRole \<Rightarrow> string" where
  "role_value SYSTEM = ''system''"
| "role_value USER = ''user''"
| "role_value ASSISTANT = ''assistant''"
| "role_value TOOL = ''tool''"

text \<open>The pattern \<open>^[A-Za-z0-9][A-Za-z0-9._:-]*$\<close> with 1 to 255 characters, not stripped.\<close>

definition alnum_char :: "char \<Rightarrow> bool" where
  "alnum_char c \<longleftrightarrow> lower_letter c \<or> digit_char c \<or> (let n = of_char c :: nat in 65 \<le> n \<and> n \<le> 90)"

definition request_identifier_pattern :: "string \<Rightarrow> bool" where
  "request_identifier_pattern s = (case s of [] \<Rightarrow> False
     | c # cs \<Rightarrow> alnum_char c \<and> list_all (\<lambda>d. alnum_char d \<or> d \<in> set ''._:-'') cs)"

definition GatewayRequestIdentifier :: "string \<Rightarrow> string \<Rightarrow> string result" where
  "GatewayRequestIdentifier field s =
     (if 1 \<le> length s \<and> length s \<le> 255 \<and> request_identifier_pattern s then Inr s
      else Inl (ValidationError field))"

record GatewayToolDefinition =
  td_name :: string
  td_description :: string
  td_input_schema :: FrozenJsonObject

record GatewayToolCall =
  gtc_id :: string
  gtc_name :: string
  gtc_arguments :: FrozenJsonObject

definition tool_call_validate :: "GatewayToolCall \<Rightarrow> GatewayToolCall result" where
  "tool_call_validate c =
     bindE (IdentifierString ''id'' (gtc_id c)) (\<lambda>i.
     bindE (ToolName ''name'' (gtc_name c)) (\<lambda>n.
     Inr (c\<lparr>gtc_id := i, gtc_name := n\<rparr>)))"

record GatewayMessage =
  gm_role :: MessageRole
  gm_content :: string
  gm_tool_call_id :: "string option"
  gm_tool_calls :: "GatewayToolCall list"

definition message_validate_role_fields :: "GatewayMessage \<Rightarrow> unit result" where
  "message_validate_role_fields m =
     (if gm_role m \<in> {SYSTEM, USER} then
        bindE (check (gm_content m \<noteq> [])
                 (role_value (gm_role m) @ '' message must contain content'')) (\<lambda>_.
        check (\<not> (gm_tool_call_id m \<noteq> None \<or> gm_tool_calls m \<noteq> []))
          (role_value (gm_role m) @ '' message may not contain tool-call fields''))
      else if gm_role m = ASSISTANT then
        bindE (check (\<not> (gm_content m = [] \<and> gm_tool_calls m = []))
                 ''assistant message must contain content or tool calls'') (\<lambda>_.
        check (gm_tool_call_id m = None) ''assistant message may not contain tool_call_id'')
      else
        bindE (check (gm_tool_call_id m \<noteq> None) ''tool message must contain tool_call_id'') (\<lambda>_.
        bindE (check (gm_content m \<noteq> []) ''tool message must contain content'') (\<lambda>_.
        check (gm_tool_calls m = []) ''tool message may not contain tool_calls'')))"

definition message_model_validate :: "GatewayMessage \<Rightarrow> GatewayMessage result" where
  "message_model_validate m =
     bindE (optional (IdentifierString ''tool_call_id'') (gm_tool_call_id m)) (\<lambda>i.
     bindE (mapE tool_call_validate (gm_tool_calls m)) (\<lambda>cs.
     let m' = m\<lparr>gm_tool_call_id := i, gm_tool_calls := cs\<rparr>
     in bindE (message_validate_role_fields m') (\<lambda>_. Inr m')))"

record GatewayRequest =
  gr_tenant_id :: uuid
  gr_session_id :: uuid
  gr_run_id :: uuid
  gr_execution_epoch :: int
  gr_turn_number :: int
  gr_model_call_id :: string
  gr_request_id :: string
  gr_route_name :: string
  gr_messages :: "GatewayMessage list"
  gr_tools :: "GatewayToolDefinition list"

definition tool_definition_validate :: "GatewayToolDefinition \<Rightarrow> GatewayToolDefinition result" where
  "tool_definition_validate t =
     bindE (ToolName ''name'' (td_name t)) (\<lambda>n.
     bindE (NonEmptyString ''description'' (td_description t)) (\<lambda>d.
     Inr (t\<lparr>td_name := n, td_description := d\<rparr>)))"

definition gateway_request_validate :: "GatewayRequest \<Rightarrow> GatewayRequest result" where
  "gateway_request_validate r =
     bindE (check (1 \<le> gr_execution_epoch r) ''execution_epoch'') (\<lambda>_.
     bindE (check (1 \<le> gr_turn_number r \<and> gr_turn_number r \<le> 100) ''turn_number'') (\<lambda>_.
     bindE (GatewayRequestIdentifier ''model_call_id'' (gr_model_call_id r)) (\<lambda>_.
     bindE (GatewayRequestIdentifier ''request_id'' (gr_request_id r)) (\<lambda>_.
     bindE (IdentifierString ''route_name'' (gr_route_name r)) (\<lambda>n.
     bindE (mapE message_model_validate (gr_messages r)) (\<lambda>ms.
     bindE (check (1 \<le> length ms \<and> length ms \<le> 4096) ''messages'') (\<lambda>_.
     bindE (mapE tool_definition_validate (gr_tools r)) (\<lambda>ts.
     bindE (check (length ts \<le> 1000) ''tools'') (\<lambda>_.
     bindE (check (distinct (map td_name ts)) ''gateway tool names must be unique'') (\<lambda>_.
     Inr (r\<lparr>gr_route_name := n, gr_messages := ms, gr_tools := ts\<rparr>)))))))))))"

datatype GatewayFinishReason = STOP | TOOL_CALLS | LENGTH | CONTENT_FILTER

record GatewayResponseCompleted =
  rc_finish_reason :: GatewayFinishReason
  rc_input_tokens :: int
  rc_output_tokens :: int
  rc_cached_tokens :: int
  rc_estimated_cost_usd :: "rat option"
  rc_provider :: "string option"
  rc_model :: "string option"

datatype GatewayEvent =
    GatewayTextDelta string
  | GatewayToolCallEvent GatewayToolCall
  | GatewayInvalidToolCallEvent string string ErrorDetail
  | GatewayResponseCompletedEvent GatewayResponseCompleted

fun is_response_completed :: "GatewayEvent \<Rightarrow> bool" where
  "is_response_completed (GatewayResponseCompletedEvent _) = True"
| "is_response_completed _ = False"

end
