(* ===== verification/Run_Lifecycle.thy ===== *)
theory Run_Lifecycle
  imports Entities
begin

section \<open>The run state machine\<close>

text \<open>
  \<open>domain/transitions.py\<close> and the error of \<open>domain/errors.py\<close>: the central transition
  table, \<open>transition_run\<close> with the data each transition writes, and \<open>rewind_run\<close>.

  Shown here: a transition of a valid run succeeds exactly under the documented conditions
  and then does what the table says (\<open>transition_run_ok_iff\<close>, \<open>transition_run_result\<close>);
  the re-validation at its end never fails; attempts and epochs only grow; terminal
  statuses are left by \<open>rewind_run\<close> only; every run reachable from a valid one through any
  mixture of transitions and rewinds is valid.
\<close>

subsection \<open>The transition table\<close>

fun RUN_STATUS_TRANSITIONS :: "RunStatus \<Rightarrow> RunStatus set" where
  "RUN_STATUS_TRANSITIONS QUEUED = {LEASED, CANCELLED}"
| "RUN_STATUS_TRANSITIONS LEASED = {RUNNING, QUEUED, CANCELLED, LOST}"
| "RUN_STATUS_TRANSITIONS RUNNING =
     {WAITING_APPROVAL, RETRY_PENDING, COMPLETED, FAILED, CANCELLED, LOST}"
| "RUN_STATUS_TRANSITIONS WAITING_APPROVAL = {QUEUED, FAILED, CANCELLED}"
| "RUN_STATUS_TRANSITIONS RETRY_PENDING = {QUEUED, FAILED, CANCELLED}"
| "RUN_STATUS_TRANSITIONS LOST = {QUEUED, CANCELLED}"
| "RUN_STATUS_TRANSITIONS COMPLETED = {}"
| "RUN_STATUS_TRANSITIONS FAILED = {}"
| "RUN_STATUS_TRANSITIONS CANCELLED = {}"

definition rewindable_run_statuses :: "RunStatus set" where
  "rewindable_run_statuses = {WAITING_APPROVAL, RETRY_PENDING, COMPLETED, FAILED, CANCELLED, LOST}"

definition allowed_run_transitions :: "RunStatus \<Rightarrow> RunStatus set" where
  "allowed_run_transitions status = RUN_STATUS_TRANSITIONS status"

text \<open>\<open>sorted(status.value for status in allowed_statuses)\<close> and the error built from it.\<close>

definition sorted_status_values :: "RunStatus set \<Rightarrow> string list" where
  "sorted_status_values allowed =
     sort (map run_status_value (filter (\<lambda>s. s \<in> allowed) all_run_statuses))"

definition InvalidRunTransitionError :: "RunStatus \<Rightarrow> RunStatus \<Rightarrow> RunStatus set \<Rightarrow> py_error" where
  "InvalidRunTransitionError current requested allowed =
     domain_error ''invalid_run_transition''
       (''run cannot transition from '' @ run_status_value current @ '' to ''
          @ run_status_value requested) False
       [(''current_status'', JStr (run_status_value current)),
        (''requested_status'', JStr (run_status_value requested)),
        (''allowed_statuses'', JList (map JStr (sorted_status_values allowed)))]"

lemma error_code_InvalidRunTransitionError [simp]:
  "error_code (InvalidRunTransitionError c q a) = Some ''invalid_run_transition''"
  unfolding InvalidRunTransitionError_def by (rule error_code_domain_error)

subsection \<open>Operations\<close>

definition run_details :: "Run \<Rightarrow> json_object" where
  "run_details run = [(''run_id'', JStr (uuid_str (run_id run)))]"

fun value_error_text :: "py_error \<Rightarrow> string" where
  "value_error_text (ValueError s) = s"
| "value_error_text _ = ''''"

definition operation_timestamp :: "datetime \<Rightarrow> Run \<Rightarrow> string \<Rightarrow> timestamp result" where
  "operation_timestamp v run code =
     (case normalize_timestamp v of
        Inl e \<Rightarrow> Inl (domain_error code (value_error_text e) False (run_details run))
      | Inr t \<Rightarrow> Inr t)"

text \<open>The fields \<open>transition_run\<close> writes for one target status, before validation.\<close>

definition transition_data ::
    "Run \<Rightarrow> RunStatus \<Rightarrow> timestamp \<Rightarrow> string option \<Rightarrow> datetime option \<Rightarrow> Run result" where
  "transition_data run new_status timestamp worker_id lease_expires_at =
     (let data = run\<lparr>run_status := new_status\<rparr>
      in if new_status = LEASED then
           (let normalized_worker_id = (case worker_id of Some w \<Rightarrow> py_strip w | None \<Rightarrow> [])
            in case lease_expires_at of
                 None \<Rightarrow> Inl (domain_error ''invalid_run_lease''
                           ''leasing a run requires worker_id and lease_expires_at'' False
                           (run_details run))
               | Some expiry \<Rightarrow>
                   if normalized_worker_id = [] then
                     Inl (domain_error ''invalid_run_lease''
                       ''leasing a run requires worker_id and lease_expires_at'' False
                       (run_details run))
                   else bindE (operation_timestamp expiry run ''invalid_run_lease'')
                     (\<lambda>normalized_expiry.
                        if normalized_expiry \<le> timestamp then
                          Inl (domain_error ''invalid_run_lease''
                            ''lease_expires_at must follow the lease timestamp'' False
                            (run_details run))
                        else Inr (data\<lparr>run_assigned_worker_id := Some normalized_worker_id,
                                       run_lease_expires_at := Some normalized_expiry\<rparr>)))
         else if new_status = RUNNING then
           Inr (data\<lparr>run_started_at :=
                  Some (case run_started_at run of Some t \<Rightarrow> t | None \<Rightarrow> timestamp)\<rparr>)
         else if new_status \<in> {WAITING_APPROVAL, RETRY_PENDING} then
           Inr (data\<lparr>run_assigned_worker_id := None, run_lease_expires_at := None\<rparr>)
         else if new_status = QUEUED then
           Inr (data\<lparr>run_assigned_worker_id := None, run_lease_expires_at := None,
                     run_attempt := (if run_status run \<in> {RETRY_PENDING, LOST}
                                     then run_attempt run + 1 else run_attempt run)\<rparr>)
         else if new_status = LOST then
           Inr (data\<lparr>run_assigned_worker_id := None, run_lease_expires_at := None\<rparr>)
         else
           Inr (data\<lparr>run_completed_at := Some timestamp, run_assigned_worker_id := None,
                     run_lease_expires_at := None,
                     run_cancellation_requested :=
                       (if new_status = CANCELLED then True else run_cancellation_requested run)\<rparr>))"

definition transition_run ::
    "Run \<Rightarrow> RunStatus \<Rightarrow> datetime \<Rightarrow> string option \<Rightarrow> datetime option \<Rightarrow> Run result" where
  "transition_run run new_status occurred_at worker_id lease_expires_at =
     (let allowed = allowed_run_transitions (run_status run)
      in if new_status \<notin> allowed
         then Inl (InvalidRunTransitionError (run_status run) new_status allowed)
         else bindE (operation_timestamp occurred_at run ''invalid_run_transition_timestamp'')
           (\<lambda>timestamp.
              if timestamp < comparison_start run then
                Inl (domain_error ''invalid_run_transition_timestamp''
                  ''transition timestamp may not precede the current run lifecycle'' False
                  (run_details run))
              else bindE (transition_data run new_status timestamp worker_id lease_expires_at)
                run_model_validate))"

definition rewind_run :: "Run \<Rightarrow> uuid \<Rightarrow> Run result" where
  "rewind_run run checkpoint_id =
     (if run_status run \<notin> rewindable_run_statuses
      then Inl (domain_error ''run_rewind_state_conflict''
             ''only suspended or terminal runs may be rewound'' False
             [(''run_id'', JStr (uuid_str (run_id run))),
              (''status'', JStr (run_status_value (run_status run)))])
      else run_model_validate
        (run\<lparr>run_status := QUEUED,
             run_attempt := run_attempt run + 1,
             run_execution_epoch := run_execution_epoch run + 1,
             run_assigned_worker_id := None,
             run_lease_expires_at := None,
             run_last_checkpoint_id := Some checkpoint_id,
             run_cancellation_requested := False,
             run_completed_at := None\<rparr>))"

subsection \<open>Facts about the table\<close>

lemma terminal_no_successor:
  "s \<in> terminal_run_statuses \<longleftrightarrow> RUN_STATUS_TRANSITIONS s = {}"
  by (cases s) (simp_all add: terminal_run_statuses_def)

lemma no_self_transition: "s \<notin> RUN_STATUS_TRANSITIONS s"
  by (cases s) simp_all

lemma cancellable:
  "s \<notin> terminal_run_statuses \<Longrightarrow> CANCELLED \<in> RUN_STATUS_TRANSITIONS s"
  by (cases s) (simp_all add: terminal_run_statuses_def)

lemma lease_source: "LEASED \<in> RUN_STATUS_TRANSITIONS s \<longleftrightarrow> s = QUEUED"
  by (cases s) simp_all

lemma running_source: "RUNNING \<in> RUN_STATUS_TRANSITIONS s \<longleftrightarrow> s = LEASED"
  by (cases s) simp_all

lemma started_source:
  "t \<in> RUN_STATUS_TRANSITIONS s \<Longrightarrow> t \<in> started_run_statuses \<Longrightarrow> t \<noteq> RUNNING \<Longrightarrow>
     s \<in> started_run_statuses"
  by (cases s) (auto simp: started_run_statuses_def)

subsection \<open>Successful transitions\<close>

lemma IdentifierString_py_strip:
  "py_strip w \<noteq> [] \<Longrightarrow> length (py_strip w) \<le> 255 \<Longrightarrow> IdentifierString f (py_strip w) = Inr (py_strip w)"
  by (simp add: IdentifierString_def constrained_string_def Suc_le_eq)

text \<open>
  The conditions under which a transition is accepted: the table allows it, the timestamp
  is aware and does not precede the run's lifecycle, and a lease names a worker and an
  expiry that follows the timestamp.
\<close>

definition lease_arguments_ok :: "timestamp \<Rightarrow> string option \<Rightarrow> datetime option \<Rightarrow> bool" where
  "lease_arguments_ok t worker_id lease_expires_at =
     (case (worker_id, lease_expires_at) of
        (Some w, Some (Aware x off)) \<Rightarrow> py_strip w \<noteq> [] \<and> length (py_strip w) \<le> 255 \<and> t < x - off
      | _ \<Rightarrow> False)"

definition transition_accepted ::
    "Run \<Rightarrow> RunStatus \<Rightarrow> datetime \<Rightarrow> string option \<Rightarrow> datetime option \<Rightarrow> bool" where
  "transition_accepted run s occurred_at worker_id lease_expires_at =
     (s \<in> allowed_run_transitions (run_status run)
      \<and> (case normalize_timestamp occurred_at of
           Inl _ \<Rightarrow> False
         | Inr t \<Rightarrow> comparison_start run \<le> t
             \<and> (s = LEASED \<longrightarrow> lease_arguments_ok t worker_id lease_expires_at)))"

text \<open>What an accepted transition returns.\<close>

definition transition_spec ::
    "Run \<Rightarrow> RunStatus \<Rightarrow> timestamp \<Rightarrow> string \<Rightarrow> timestamp \<Rightarrow> Run" where
  "transition_spec run s t worker expiry =
     run\<lparr>run_status := s,
         run_attempt := (if s = QUEUED \<and> run_status run \<in> {RETRY_PENDING, LOST}
                         then run_attempt run + 1 else run_attempt run),
         run_assigned_worker_id :=
           (if s = LEASED then Some worker
            else if s = RUNNING then run_assigned_worker_id run else None),
         run_lease_expires_at :=
           (if s = LEASED then Some expiry
            else if s = RUNNING then run_lease_expires_at run else None),
         run_cancellation_requested := (s = CANCELLED \<or> run_cancellation_requested run),
         run_started_at :=
           (if s = RUNNING then
              Some (case run_started_at run of Some u \<Rightarrow> u | None \<Rightarrow> t)
            else run_started_at run),
         run_completed_at :=
           (if s \<in> terminal_run_statuses then Some t else run_completed_at run)\<rparr>"

lemma transition_data_spec:
  assumes "s = LEASED \<Longrightarrow> lease_arguments_ok t worker_id lease_expires_at"
    and "worker = (case worker_id of Some w \<Rightarrow> py_strip w | None \<Rightarrow> [])"
    and "expiry = (case lease_expires_at of Some (Aware x off) \<Rightarrow> x - off | _ \<Rightarrow> 0)"
  shows "transition_data run s t worker_id lease_expires_at = Inr (transition_spec run s t worker expiry)"
  using assms
  by (cases s)
    (auto simp: transition_data_def transition_spec_def lease_arguments_ok_def Let_def
      operation_timestamp_def terminal_run_statuses_def
      split: option.splits datetime.splits)

lemma transition_spec_simps [simp]:
  "run_status (transition_spec run s t w x) = s"
  "run_attempt (transition_spec run s t w x) =
     (if s = QUEUED \<and> run_status run \<in> {RETRY_PENDING, LOST} then run_attempt run + 1
      else run_attempt run)"
  "run_execution_epoch (transition_spec run s t w x) = run_execution_epoch run"
  "run_id (transition_spec run s t w x) = run_id run"
  "run_session_id (transition_spec run s t w x) = run_session_id run"
  "run_workspace_id (transition_spec run s t w x) = run_workspace_id run"
  "run_priority (transition_spec run s t w x) = run_priority run"
  "run_priority_class (transition_spec run s t w x) = run_priority_class run"
  "run_created_at (transition_spec run s t w x) = run_created_at run"
  "run_traceparent (transition_spec run s t w x) = run_traceparent run"
  "run_tracestate (transition_spec run s t w x) = run_tracestate run"
  "run_last_checkpoint_id (transition_spec run s t w x) = run_last_checkpoint_id run"
  "run_cancellation_requested (transition_spec run s t w x) =
     (s = CANCELLED \<or> run_cancellation_requested run)"
  by (simp_all add: transition_spec_def)

lemma transition_spec_fields_ok:
  assumes "run_fields_ok run"
    and "s = LEASED \<Longrightarrow> IdentifierString ''assigned_worker_id'' w = Inr w"
  shows "run_fields_ok (transition_spec run s t w x)"
  using assms by (auto simp: run_fields_ok_def transition_spec_def)

lemma transition_spec_lifecycle_ok:
  assumes l: "run_lifecycle_ok run"
    and allowed: "s \<in> RUN_STATUS_TRANSITIONS (run_status run)"
    and t: "comparison_start run \<le> t"
  shows "run_lifecycle_ok (transition_spec run s t w x)"
proof -
  from allowed have nt: "run_status run \<notin> terminal_run_statuses"
    using terminal_no_successor by auto
  have fin: "run_completed_at run = None"
    using l nt by (simp add: run_lifecycle_ok_def)
  have started: "run_started_at run \<noteq> None" if "run_status run \<in> started_run_statuses"
    using l that by (simp add: run_lifecycle_ok_def)
  have assigned: "run_assigned_worker_id run \<noteq> None" "run_lease_expires_at run \<noteq> None"
    if "run_status run = LEASED"
    using l that by (auto simp: run_lifecycle_ok_def assigned_run_statuses_def)
  have trace: "\<not> (run_tracestate run \<noteq> None \<and> run_traceparent run = None)"
    "traceparent_nonzero (run_traceparent run)"
    using l by (simp_all only: run_lifecycle_ok_def simp_thms)
  have start: "case run_started_at run of None \<Rightarrow> True | Some u \<Rightarrow> \<not> u < run_created_at run"
    using l by (simp only: run_lifecycle_ok_def simp_thms)
  have st: "run_started_at run \<noteq> None" if "s \<in> started_run_statuses" "s \<noteq> RUNNING"
    using started_source [OF allowed that] started by blast
  show ?thesis
    unfolding run_lifecycle_ok_def transition_spec_simps
  proof (intro conjI)
    show "\<not> (run_tracestate run \<noteq> None \<and> run_traceparent run = None)" by fact
    show "traceparent_nonzero (run_traceparent run)" by fact
    show "case run_started_at (transition_spec run s t w x) of None \<Rightarrow> True
        | Some u \<Rightarrow> \<not> u < run_created_at run"
      using start t by (auto simp: transition_spec_def comparison_start_def split: option.splits)
    show "case run_completed_at (transition_spec run s t w x) of None \<Rightarrow> True
        | Some u \<Rightarrow> \<not> u < comparison_start (transition_spec run s t w x)"
      using t fin by (auto simp: transition_spec_def comparison_start_def split: option.splits)
    show "\<not> (s \<in> started_run_statuses \<and> run_started_at (transition_spec run s t w x) = None)"
      using st by (auto simp: transition_spec_def)
    show "\<not> (s \<in> assigned_run_statuses \<and> run_assigned_worker_id (transition_spec run s t w x) = None)"
      using assigned running_source [of "run_status run"] allowed
      by (auto simp: transition_spec_def assigned_run_statuses_def)
    show "\<not> (s \<in> assigned_run_statuses \<and> run_lease_expires_at (transition_spec run s t w x) = None)"
      using assigned running_source [of "run_status run"] allowed
      by (auto simp: transition_spec_def assigned_run_statuses_def)
    show "\<not> (s \<in> unassigned_run_statuses \<and>
        (run_assigned_worker_id (transition_spec run s t w x) \<noteq> None \<or>
         run_lease_expires_at (transition_spec run s t w x) \<noteq> None))"
      by (auto simp: transition_spec_def unassigned_run_statuses_def)
    show "if s \<in> terminal_run_statuses
        then run_completed_at (transition_spec run s t w x) \<noteq> None
        else run_completed_at (transition_spec run s t w x) = None"
      using fin by (simp add: transition_spec_def)
  qed
qed

lemma transition_run_accepted:
  assumes v: "run_valid run"
    and acc: "transition_accepted run s occurred_at worker_id lease_expires_at"
  shows "\<exists>t worker expiry. normalize_timestamp occurred_at = Inr t \<and> comparison_start run \<le> t
    \<and> transition_run run s occurred_at worker_id lease_expires_at =
        Inr (transition_spec run s t worker expiry)
    \<and> run_valid (transition_spec run s t worker expiry)
    \<and> (s = LEASED \<longrightarrow> (\<exists>w. worker_id = Some w \<and> worker = py_strip w)
         \<and> (\<exists>d. lease_expires_at = Some d \<and> normalize_timestamp d = Inr expiry \<and> t < expiry))"
proof -
  define worker where "worker = (case worker_id of Some w \<Rightarrow> py_strip w | None \<Rightarrow> [])"
  define expiry where "expiry = (case lease_expires_at of Some (Aware x off) \<Rightarrow> x - off | _ \<Rightarrow> 0)"
  from acc obtain t where allowed: "s \<in> RUN_STATUS_TRANSITIONS (run_status run)"
    and t: "normalize_timestamp occurred_at = Inr t" "comparison_start run \<le> t"
    and lease: "s = LEASED \<Longrightarrow> lease_arguments_ok t worker_id lease_expires_at"
    by (auto simp: transition_accepted_def allowed_run_transitions_def split: sum.splits)
  have args: "\<exists>w x off. worker_id = Some w \<and> lease_expires_at = Some (Aware x off) \<and> worker = py_strip w
      \<and> py_strip w \<noteq> [] \<and> length (py_strip w) \<le> 255 \<and> expiry = x - off \<and> t < x - off"
    if "s = LEASED"
    using lease [OF that]
    by (auto simp: lease_arguments_ok_def worker_def expiry_def split: option.splits datetime.splits)
  have valid: "run_valid (transition_spec run s t worker expiry)"
    unfolding run_valid_def
  proof
    show "run_fields_ok (transition_spec run s t worker expiry)"
      using v args by (intro transition_spec_fields_ok) (auto simp: run_valid_def IdentifierString_py_strip)
    show "run_lifecycle_ok (transition_spec run s t worker expiry)"
      using v allowed t by (intro transition_spec_lifecycle_ok) (simp_all add: run_valid_def)
  qed
  have "transition_run run s occurred_at worker_id lease_expires_at =
      Inr (transition_spec run s t worker expiry)"
    using allowed t valid
    by (simp add: transition_run_def allowed_run_transitions_def operation_timestamp_def
        transition_data_spec [OF lease worker_def expiry_def] run_model_validate_complete)
  moreover have "s = LEASED \<longrightarrow> (\<exists>w. worker_id = Some w \<and> worker = py_strip w)
      \<and> (\<exists>d. lease_expires_at = Some d \<and> normalize_timestamp d = Inr expiry \<and> t < expiry)"
    using args by auto
  ultimately show ?thesis using t valid by blast
qed

lemma transition_run_accepted_ok:
  assumes "run_valid run" "transition_accepted run s d w x"
  shows "\<exists>r. transition_run run s d w x = Inr r \<and> run_valid r \<and> run_status r = s"
  using transition_run_accepted [OF assms] by auto

lemma transition_data_LEASED:
  assumes "transition_data run LEASED t worker_id lease_expires_at = Inr r"
  shows "\<exists>w x off. worker_id = Some w \<and> lease_expires_at = Some (Aware x off) \<and> t < x - off
    \<and> py_strip w \<noteq> [] \<and> run_assigned_worker_id r = Some (py_strip w)"
proof -
  from assms obtain d where d: "lease_expires_at = Some d"
    by (cases lease_expires_at) (auto simp: transition_data_def Let_def)
  from assms d obtain w where w: "worker_id = Some w" "py_strip w \<noteq> []"
    by (cases worker_id) (auto simp: transition_data_def Let_def split: if_splits)
  from assms d w obtain x off where x: "d = Aware x off" "t < x - off"
    by (cases d) (auto simp: transition_data_def Let_def operation_timestamp_def split: if_splits)
  with assms d w show ?thesis
    by (auto simp: transition_data_def Let_def operation_timestamp_def)
qed

lemma transition_data_LEASED_error:
  assumes "transition_data run LEASED t worker_id lease_expires_at = Inl e"
  shows "error_code e = Some ''invalid_run_lease''"
proof (cases lease_expires_at)
  case None
  with assms show ?thesis by (auto simp: transition_data_def Let_def)
next
  case (Some d)
  then show ?thesis
    using assms
    by (cases d) (auto simp: transition_data_def Let_def operation_timestamp_def split: if_splits)
qed

lemma IdentifierString_length: "IdentifierString f s = Inr t \<Longrightarrow> length t \<le> 255"
  by (auto simp: IdentifierString_def constrained_string_def Let_def split: if_splits)

lemma run_model_validate_worker:
  "run_model_validate r = Inr r' \<Longrightarrow> run_assigned_worker_id r = Some w \<Longrightarrow>
     \<exists>u. IdentifierString ''assigned_worker_id'' w = Inr u"
  unfolding run_model_validate_def bindE_check
  by (auto simp: bindE_eq_Inr)

lemma transition_run_ok_accepted:
  assumes ok: "transition_run run s occurred_at worker_id lease_expires_at = Inr r"
  shows "transition_accepted run s occurred_at worker_id lease_expires_at"
proof -
  from ok have allowed: "s \<in> allowed_run_transitions (run_status run)"
    by (auto simp: transition_run_def Let_def split: if_splits)
  with ok obtain t data where t: "normalize_timestamp occurred_at = Inr t" "comparison_start run \<le> t"
    and data: "transition_data run s t worker_id lease_expires_at = Inr data"
    and r: "run_model_validate data = Inr r"
    by (auto simp: transition_run_def Let_def bindE_eq_Inr operation_timestamp_def
        split: if_splits sum.splits)
  have "lease_arguments_ok t worker_id lease_expires_at" if "s = LEASED"
  proof -
    from transition_data_LEASED data that obtain w x off where
      wx: "worker_id = Some w" "lease_expires_at = Some (Aware x off)" "t < x - off"
        "py_strip w \<noteq> []" "run_assigned_worker_id data = Some (py_strip w)"
      by blast
    from run_model_validate_worker [OF r wx(5)]
    obtain u where u: "IdentifierString ''assigned_worker_id'' (py_strip w) = Inr u" by blast
    then have "u = py_strip w"
      by (auto simp: IdentifierString_def constrained_string_def Let_def split: if_splits)
    with IdentifierString_length [OF u] wx show ?thesis
      by (simp add: lease_arguments_ok_def)
  qed
  with allowed t show ?thesis by (simp add: transition_accepted_def)
qed

text \<open>Transitions at a normalized time, as the stores call them.\<close>

lemma transition_spec_irrelevant:
  "s \<noteq> LEASED \<Longrightarrow> transition_spec run s t w x = transition_spec run s t w' x'"
  by (simp add: transition_spec_def)

lemma transition_utc_iff:
  assumes v: "run_valid run" and s: "s \<noteq> LEASED"
  shows "transition_run run s (utc t) None None = Inr r \<longleftrightarrow>
    s \<in> RUN_STATUS_TRANSITIONS (run_status run) \<and> comparison_start run \<le> t
    \<and> r = transition_spec run s t [] 0"
proof -
  have acc: "transition_accepted run s (utc t) None None \<longleftrightarrow>
      s \<in> RUN_STATUS_TRANSITIONS (run_status run) \<and> comparison_start run \<le> t"
    using s by (simp add: transition_accepted_def allowed_run_transitions_def)
  show ?thesis
  proof (cases "transition_accepted run s (utc t) None None")
    case True
    from transition_run_accepted [OF v True]
    have "transition_run run s (utc t) None None = Inr (transition_spec run s t [] 0)"
      using transition_spec_irrelevant [OF s, of run t] by fastforce
    with True acc show ?thesis by auto
  next
    case False
    with acc transition_run_ok_accepted show ?thesis by blast
  qed
qed

lemma transition_spec_valid:
  assumes "run_valid run" "s \<in> RUN_STATUS_TRANSITIONS (run_status run)" "comparison_start run \<le> t"
    and "s = LEASED \<Longrightarrow> IdentifierString ''assigned_worker_id'' w = Inr w"
  shows "run_valid (transition_spec run s t w x)"
  using assms transition_spec_fields_ok transition_spec_lifecycle_ok by (simp add: run_valid_def)

lemma transition_leased_iff:
  assumes v: "run_valid run" and w: "py_strip w = w" "w \<noteq> []" "length w \<le> 255" and x: "t < x"
  shows "transition_run run LEASED (utc t) (Some w) (Some (utc x)) = Inr r \<longleftrightarrow>
    run_status run = QUEUED \<and> comparison_start run \<le> t \<and> r = transition_spec run LEASED t w x"
proof -
  have acc: "transition_accepted run LEASED (utc t) (Some w) (Some (utc x)) \<longleftrightarrow>
      run_status run = QUEUED \<and> comparison_start run \<le> t"
    using w x by (simp add: transition_accepted_def allowed_run_transitions_def lease_source lease_arguments_ok_def)
  show ?thesis
  proof (cases "transition_accepted run LEASED (utc t) (Some w) (Some (utc x))")
    case True
    from transition_run_accepted [OF v True] w(1)
    have "transition_run run LEASED (utc t) (Some w) (Some (utc x)) = Inr (transition_spec run LEASED t w x)"
      by auto
    with True acc show ?thesis by auto
  next
    case False
    with acc transition_run_ok_accepted show ?thesis by blast
  qed
qed

lemma rewind_run_valid:
  assumes "run_valid run" "run_status run \<in> rewindable_run_statuses"
  shows "rewind_run run c =
      Inr (run\<lparr>run_status := QUEUED, run_attempt := run_attempt run + 1,
               run_execution_epoch := run_execution_epoch run + 1,
               run_assigned_worker_id := None, run_lease_expires_at := None,
               run_last_checkpoint_id := Some c, run_cancellation_requested := False,
               run_completed_at := None\<rparr>)"
proof -
  let ?r = "run\<lparr>run_status := QUEUED, run_attempt := run_attempt run + 1,
               run_execution_epoch := run_execution_epoch run + 1,
               run_assigned_worker_id := None, run_lease_expires_at := None,
               run_last_checkpoint_id := Some c, run_cancellation_requested := False,
               run_completed_at := None\<rparr>"
  have "run_valid ?r"
    using assms(1)
    by (simp add: run_valid_def run_fields_ok_def run_lifecycle_ok_def run_status_sets
        cong: option.case_cong)
  then show ?thesis
    using assms(2) by (simp add: rewind_run_def run_model_validate_complete)
qed

subsection \<open>Lifecycles\<close>

text \<open>One accepted operation on a run: a transition or a rewind.\<close>

inductive run_step :: "Run \<Rightarrow> Run \<Rightarrow> bool" where
  transition: "transition_run r s d w x = Inr r' \<Longrightarrow> run_step r r'"
| rewind: "rewind_run r c = Inr r' \<Longrightarrow> run_step r r'"

lemma run_step_cases_valid [consumes 2, case_names moved rewound]:
  assumes "run_step r r'" "run_valid r"
  obtains (moved) s t worker expiry where
      "s \<in> RUN_STATUS_TRANSITIONS (run_status r)" "comparison_start r \<le> t"
      "r' = transition_spec r s t worker expiry" "run_valid r'"
    | (rewound) c where "run_status r \<in> rewindable_run_statuses" "rewind_run r c = Inr r'" "run_valid r'"
  using assms(1)
proof (cases rule: run_step.cases)
  case (transition s d w x)
  have acc: "transition_accepted r s d w x" by (rule transition_run_ok_accepted [OF transition])
  from transition_run_accepted [OF assms(2) acc] obtain t worker expiry where
    t: "comparison_start r \<le> t"
      "transition_run r s d w x = Inr (transition_spec r s t worker expiry)"
      "run_valid (transition_spec r s t worker expiry)"
    by blast
  moreover have "s \<in> RUN_STATUS_TRANSITIONS (run_status r)"
    using acc by (simp add: transition_accepted_def allowed_run_transitions_def)
  ultimately show ?thesis using transition moved by simp
next
  case (rewind c)
  then have rw: "run_status r \<in> rewindable_run_statuses"
    by (auto simp: rewind_run_def split: if_splits)
  then have "run_valid r'"
    using rewind by (auto simp: rewind_run_def intro: run_model_validate_sound)
  with rw rewind show ?thesis using rewound by blast
qed

lemma run_step_valid: "run_step r r' \<Longrightarrow> run_valid r \<Longrightarrow> run_valid r'"
  by (erule (1) run_step_cases_valid) simp_all

lemma run_step_counters:
  assumes "run_step r r'" "run_valid r"
  shows "run_attempt r \<le> run_attempt r' \<and> run_execution_epoch r \<le> run_execution_epoch r'
    \<and> run_id r' = run_id r \<and> run_created_at r' = run_created_at r"
  using assms by (cases rule: run_step_cases_valid) (auto simp: rewind_run_valid assms(2))

subsection \<open>Properties\<close>

text \<open>
  C18: A transition of a valid run succeeds exactly when the transition table allows it, the
  timestamp is timezone-aware and does not precede the run's start, and (for a lease) a
  worker of 1 to 255 characters and an expiry after the timestamp are given. The result is
  then exactly the documented update, and it is valid: the re-validation never fails.
\<close>

theorem transition_run_correct:
  assumes "run_valid run"
  shows "(is_ok (transition_run run s d w x) \<longleftrightarrow> transition_accepted run s d w x)
    \<and> (\<forall>r. transition_run run s d w x = Inr r \<longrightarrow>
          run_valid r \<and>
          (\<exists>t worker expiry. normalize_timestamp d = Inr t \<and> r = transition_spec run s t worker expiry
             \<and> (s = LEASED \<longrightarrow> (\<exists>v. w = Some v \<and> worker = py_strip v)
                  \<and> (\<exists>y. x = Some y \<and> normalize_timestamp y = Inr expiry \<and> t < expiry))))"
proof (intro conjI allI impI)
  show "is_ok (transition_run run s d w x) \<longleftrightarrow> transition_accepted run s d w x"
    unfolding is_ok_iff
    using transition_run_ok_accepted transition_run_accepted_ok [OF assms] by blast
next
  fix r
  assume r: "transition_run run s d w x = Inr r"
  note acc = transition_run_ok_accepted [OF r]
  show "run_valid r" using transition_run_accepted_ok [OF assms acc] r by simp
  from transition_run_accepted [OF assms acc] obtain t worker expiry where
    t: "normalize_timestamp d = Inr t"
    and tr: "transition_run run s d w x = Inr (transition_spec run s t worker expiry)"
    and lease: "s = LEASED \<longrightarrow> (\<exists>v. w = Some v \<and> worker = py_strip v)
      \<and> (\<exists>y. x = Some y \<and> normalize_timestamp y = Inr expiry \<and> t < expiry)"
    by blast
  from r tr have "r = transition_spec run s t worker expiry" by simp
  with t lease show "\<exists>t worker expiry. normalize_timestamp d = Inr t \<and> r = transition_spec run s t worker expiry
      \<and> (s = LEASED \<longrightarrow> (\<exists>v. w = Some v \<and> worker = py_strip v)
           \<and> (\<exists>y. x = Some y \<and> normalize_timestamp y = Inr expiry \<and> t < expiry))"
    by blast
qed

definition sample_run :: Run where
  "sample_run = \<lparr>run_id = 7, run_session_id = 2, run_workspace_id = 3, run_status = QUEUED,
     run_priority = 0, run_priority_class = INTERACTIVE, run_attempt = 1, run_execution_epoch = 1,
     run_assigned_worker_id = None, run_lease_expires_at = None, run_last_checkpoint_id = None,
     run_cancellation_requested = False, run_traceparent = None, run_tracestate = None,
     run_created_at = 100, run_started_at = None, run_completed_at = None\<rparr>"

lemma sample_run_valid [simp]: "run_valid sample_run"
  by (simp add: sample_run_def run_valid_def run_fields_ok_def run_lifecycle_ok_def run_status_sets
      traceparent_nonzero_def)

theorem transition_run_correct_witness:
  "run_valid sample_run \<and> is_ok (transition_run sample_run CANCELLED (Aware 3600000150 3600000000) None None)"
proof -
  have "transition_accepted sample_run CANCELLED (Aware 3600000150 3600000000) None None"
    by (simp add: transition_accepted_def allowed_run_transitions_def sample_run_def
        comparison_start_def)
  then show ?thesis
    using transition_run_correct [OF sample_run_valid, of CANCELLED "Aware 3600000150 3600000000" None None]
    by simp
qed

text \<open>
  C19: Whatever sequence of accepted transitions and rewinds is applied to a valid run, the
  run stays valid, keeps its identity and creation time, its attempt and its execution epoch
  never decrease, and the epoch never exceeds the attempt.
\<close>

theorem run_lifecycle_invariant:
  assumes "run_step\<^sup>*\<^sup>* r r'" "run_valid r"
  shows "run_valid r' \<and> run_id r' = run_id r \<and> run_created_at r' = run_created_at r
    \<and> run_attempt r \<le> run_attempt r' \<and> run_execution_epoch r \<le> run_execution_epoch r'
    \<and> run_execution_epoch r' \<le> run_attempt r'"
  using assms
proof (induction rule: rtranclp_induct)
  case base
  then show ?case by (simp add: run_valid_def run_fields_ok_def)
next
  case (step y z)
  then have y: "run_valid y" and z: "run_valid z" by (blast intro: run_step_valid)+
  from z have "run_execution_epoch z \<le> run_attempt z"
    by (simp add: run_valid_def run_fields_ok_def)
  with z step.IH [OF step.prems] run_step_counters [OF step.hyps(2) y] show ?case by linarith
qed

theorem run_lifecycle_invariant_witness:
  "\<exists>r. run_step\<^sup>*\<^sup>* sample_run r \<and> run_status r = CANCELLED \<and> run_valid r"
proof -
  have acc: "transition_accepted sample_run CANCELLED (utc 150) None None"
    by (simp add: transition_accepted_def allowed_run_transitions_def sample_run_def
        comparison_start_def)
  from transition_run_accepted_ok [OF sample_run_valid acc] obtain r where
    r: "transition_run sample_run CANCELLED (utc 150) None None = Inr r" "run_status r = CANCELLED"
    by blast
  then have "run_step\<^sup>*\<^sup>* sample_run r" by (blast intro: run_step.transition)
  with run_lifecycle_invariant [OF this sample_run_valid] r show ?thesis by blast
qed

text \<open>
  C36: Terminal statuses are absorbing but for a rewind: the only operation accepted on a
  completed, failed or cancelled run is \<open>rewind_run\<close>, and it forks a new queued attempt in
  a strictly later execution epoch at the chosen checkpoint, with the cancellation cleared.
\<close>

theorem terminal_run_only_rewinds:
  assumes "run_step r r'" "run_valid r" "run_status r \<in> terminal_run_statuses"
  shows "(\<exists>c. rewind_run r c = Inr r' \<and> run_last_checkpoint_id r' = Some c)
    \<and> run_status r' = QUEUED \<and> run_attempt r' = run_attempt r + 1
    \<and> run_execution_epoch r' = run_execution_epoch r + 1
    \<and> \<not> run_cancellation_requested r' \<and> run_completed_at r' = None"
  using assms
proof (cases rule: run_step_cases_valid)
  case (moved s t worker expiry)
  with assms(3) terminal_no_successor show ?thesis by auto
next
  case (rewound c)
  with assms(2) show ?thesis by (auto simp: rewind_run_valid)
qed

definition sample_cancelled :: Run where
  "sample_cancelled = sample_run\<lparr>run_status := CANCELLED, run_cancellation_requested := True,
     run_completed_at := Some 150\<rparr>"

lemma sample_cancelled_valid: "run_valid sample_cancelled"
  by (simp add: sample_cancelled_def sample_run_def run_valid_def run_fields_ok_def
      run_lifecycle_ok_def run_status_sets traceparent_nonzero_def comparison_start_def)

theorem terminal_run_only_rewinds_witness:
  "\<exists>r'. run_step sample_cancelled r' \<and> run_execution_epoch r' = 2 \<and> run_status r' = QUEUED"
proof -
  have rw: "run_status sample_cancelled \<in> rewindable_run_statuses"
    and fin: "run_status sample_cancelled \<in> terminal_run_statuses"
    by (simp_all add: sample_cancelled_def rewindable_run_statuses_def terminal_run_statuses_def)
  obtain r' where r': "run_step sample_cancelled r'"
    using rewind_run_valid [OF sample_cancelled_valid rw, of 5] by (blast intro: run_step.rewind)
  from terminal_run_only_rewinds [OF r' sample_cancelled_valid fin]
  show ?thesis using r' by (auto simp: sample_cancelled_def sample_run_def)
qed

text \<open>
  C37: The error of a refused transition names its cause, in the order the code checks: a
  transition the table does not list, then a naive or backdated timestamp, then a lease
  without a worker, without an expiry or with an expiry that does not follow the timestamp.
  Only a worker identifier of more than 255 characters surfaces as a validation error.
\<close>

theorem transition_run_error_codes:
  assumes "run_valid run" "transition_run run s d w x = Inl e"
  shows "(s \<notin> allowed_run_transitions (run_status run) \<and> error_code e = Some ''invalid_run_transition'')
    \<or> (s \<in> allowed_run_transitions (run_status run)
        \<and> (\<forall>t. normalize_timestamp d = Inr t \<longrightarrow> t < comparison_start run)
        \<and> error_code e = Some ''invalid_run_transition_timestamp'')
    \<or> (s = LEASED \<and> run_status run = QUEUED
        \<and> (\<exists>t. normalize_timestamp d = Inr t \<and> \<not> lease_arguments_ok t w x)
        \<and> (error_code e = Some ''invalid_run_lease''
           \<or> e = ValidationError ''assigned_worker_id'' \<and> (\<exists>v. w = Some v \<and> 255 < length (py_strip v))))"
proof (cases "s \<in> allowed_run_transitions (run_status run)")
  case False
  with assms(2) have "e = InvalidRunTransitionError (run_status run) s (allowed_run_transitions (run_status run))"
    by (simp add: transition_run_def)
  with False show ?thesis by (metis error_code_InvalidRunTransitionError)
next
  case True
  show ?thesis
  proof (cases "\<exists>t. normalize_timestamp d = Inr t \<and> comparison_start run \<le> t")
    case False
    then have late: "\<forall>t. normalize_timestamp d = Inr t \<longrightarrow> t < comparison_start run" by auto
    have "error_code e = Some ''invalid_run_transition_timestamp''"
      using True late assms(2)
      by (cases d) (auto simp: transition_run_def operation_timestamp_def)
    with True late show ?thesis by blast
  next
    case ts: True
    then obtain t where t: "normalize_timestamp d = Inr t" "comparison_start run \<le> t" by blast
    have na: "\<not> transition_accepted run s d w x"
      using transition_run_accepted_ok [OF assms(1)] assms(2) by fastforce
    with True t have lease: "s = LEASED" "\<not> lease_arguments_ok t w x"
      by (auto simp: transition_accepted_def)
    with True have q: "run_status run = QUEUED"
      using lease_source by (simp add: allowed_run_transitions_def)
    have "error_code e = Some ''invalid_run_lease''
        \<or> e = ValidationError ''assigned_worker_id'' \<and> (\<exists>v. w = Some v \<and> 255 < length (py_strip v))"
    proof (cases "transition_data run s t w x")
      case (Inl a)
      with assms(2) True t have "a = e"
        by (simp add: transition_run_def operation_timestamp_def)
      with Inl lease show ?thesis using transition_data_LEASED_error by blast
    next
      case (Inr r)
      with lease obtain v y off where v: "w = Some v" "x = Some (Aware y off)" "t < y - off"
        "py_strip v \<noteq> []" "run_assigned_worker_id r = Some (py_strip v)"
        using transition_data_LEASED by blast
      with lease have long: "255 < length (py_strip v)"
        by (simp add: lease_arguments_ok_def)
      have e: "run_model_validate r = Inl e"
        using assms(2) True t Inr by (simp add: transition_run_def operation_timestamp_def)
      have "run_priority r = run_priority run" "run_attempt r = run_attempt run"
        "run_execution_epoch r = run_execution_epoch run"
        using Inr lease v by (auto simp: transition_data_def Let_def operation_timestamp_def)
      with assms(1) e long v(5) have "e = ValidationError ''assigned_worker_id''"
        by (simp add: run_model_validate_def run_valid_def run_fields_ok_def
            IdentifierString_def constrained_string_def Let_def)
      with v long show ?thesis by blast
    qed
    with lease q t show ?thesis by blast
  qed
qed

theorem transition_run_error_codes_witness:
  "transition_run sample_run COMPLETED (utc 150) None None =
     Inl (InvalidRunTransitionError QUEUED COMPLETED {LEASED, CANCELLED})
   \<and> error_code (InvalidRunTransitionError QUEUED COMPLETED {LEASED, CANCELLED})
       = Some ''invalid_run_transition''"
proof -
  have e: "transition_run sample_run COMPLETED (utc 150) None None =
      Inl (InvalidRunTransitionError QUEUED COMPLETED {LEASED, CANCELLED})"
    by (simp add: transition_run_def allowed_run_transitions_def sample_run_def)
  from transition_run_error_codes [OF sample_run_valid e]
  have "error_code (InvalidRunTransitionError QUEUED COMPLETED {LEASED, CANCELLED})
      = Some ''invalid_run_transition''"
    by (simp only: error_code_InvalidRunTransitionError)
  with e show ?thesis by blast
qed

end
