(* ===== verification/Contracts.thy ===== *)
theory Contracts
  imports Gateway_Types Run_Lifecycle
begin

section \<open>Contracts of distributed execution\<close>

text \<open>
  The validated values exchanged by scheduler, workers and stores:
  \<open>agent_core/distributed.py\<close> (worker registrations, run leases, workspace writer leases,
  durable tool outcomes and pending calls, recovery states, execution results),
  \<open>agent_core/scheduling.py\<close> and the quota of \<open>agent_core/capacity.py\<close>.
\<close>

subsection \<open>Workers\<close>

datatype WorkerStatus = WORKER_ACTIVE | WORKER_DRAINING | WORKER_OFFLINE

record WorkerRegistration =
  wr_worker_id :: string
  wr_supported_sandbox_types :: "string list"
  wr_total_slots :: int
  wr_available_slots :: int
  wr_status :: WorkerStatus
  wr_registered_at :: timestamp
  wr_last_heartbeat_at :: timestamp

definition worker_validate_capacity :: "WorkerRegistration \<Rightarrow> unit result" where
  "worker_validate_capacity w =
     bindE (check (\<not> wr_available_slots w > wr_total_slots w)
              ''available_slots may not exceed total_slots'') (\<lambda>_.
     bindE (check (length (remdups (wr_supported_sandbox_types w)) = length (wr_supported_sandbox_types w))
              ''supported_sandbox_types must be unique'') (\<lambda>_.
     check (\<not> wr_last_heartbeat_at w < wr_registered_at w)
       ''last_heartbeat_at may not precede registered_at''))"

definition worker_model_validate :: "WorkerRegistration \<Rightarrow> WorkerRegistration result" where
  "worker_model_validate w =
     bindE (IdentifierString ''worker_id'' (wr_worker_id w)) (\<lambda>i.
     bindE (mapE (IdentifierString ''supported_sandbox_types'') (wr_supported_sandbox_types w)) (\<lambda>ts.
     bindE (check (1 \<le> length ts \<and> length ts \<le> 32) ''supported_sandbox_types'') (\<lambda>_.
     bindE (check (1 \<le> wr_total_slots w \<and> wr_total_slots w \<le> 1024) ''total_slots'') (\<lambda>_.
     bindE (check (0 \<le> wr_available_slots w \<and> wr_available_slots w \<le> 1024) ''available_slots'') (\<lambda>_.
     let w' = w\<lparr>wr_worker_id := i, wr_supported_sandbox_types := ts\<rparr>
     in bindE (worker_validate_capacity w') (\<lambda>_. Inr w'))))))"

subsection \<open>Leases\<close>

record RunLease =
  rl_tenant_id :: uuid
  rl_run_id :: uuid
  rl_session_id :: uuid
  rl_workspace_id :: uuid
  rl_worker_id :: string
  rl_route_name :: string
  rl_lease_token :: uuid
  rl_generation :: int
  rl_attempt :: int
  rl_execution_epoch :: int
  rl_priority :: int
  rl_priority_class :: RunPriorityClass
  rl_queued_at :: "timestamp option"
  rl_acquired_at :: timestamp
  rl_expires_at :: timestamp
  rl_checkpoint_id :: "uuid option"
  rl_cancellation_requested :: bool
  rl_traceparent :: "string option"
  rl_tracestate :: "string option"

definition run_lease_validate_window :: "RunLease \<Rightarrow> unit result" where
  "run_lease_validate_window l =
     bindE (check (\<not> rl_expires_at l \<le> rl_acquired_at l)
              ''run lease expiry must follow acquisition'') (\<lambda>_.
     bindE (check (case rl_queued_at l of None \<Rightarrow> True | Some q \<Rightarrow> \<not> q > rl_acquired_at l)
              ''run lease queue time may not follow acquisition'') (\<lambda>_.
     check (\<not> (rl_tracestate l \<noteq> None \<and> rl_traceparent l = None))
       ''tracestate requires traceparent''))"

definition run_lease_model_validate :: "RunLease \<Rightarrow> RunLease result" where
  "run_lease_model_validate l =
     bindE (IdentifierString ''worker_id'' (rl_worker_id l)) (\<lambda>w.
     bindE (IdentifierString ''route_name'' (rl_route_name l)) (\<lambda>n.
     bindE (check (1 \<le> rl_generation l) ''generation'') (\<lambda>_.
     bindE (check (1 \<le> rl_attempt l) ''attempt'') (\<lambda>_.
     bindE (check (1 \<le> rl_execution_epoch l) ''execution_epoch'') (\<lambda>_.
     bindE (check (-100 \<le> rl_priority l \<and> rl_priority l \<le> 100) ''priority'') (\<lambda>_.
     bindE (optional (TraceParent ''traceparent'') (rl_traceparent l)) (\<lambda>_.
     bindE (optional (TraceState ''tracestate'') (rl_tracestate l)) (\<lambda>_.
     let l' = l\<lparr>rl_worker_id := w, rl_route_name := n\<rparr>
     in bindE (run_lease_validate_window l') (\<lambda>_. Inr l')))))))))"

record RunLeaseHeartbeat =
  hb_lease_token :: uuid
  hb_generation :: int
  hb_expires_at :: timestamp
  hb_cancellation_requested :: bool

record WorkspaceWriterLease =
  ww_tenant_id :: uuid
  ww_workspace_id :: uuid
  ww_run_id :: uuid
  ww_worker_id :: string
  ww_run_lease_token :: uuid
  ww_lease_token :: uuid
  ww_generation :: int
  ww_acquired_at :: timestamp
  ww_expires_at :: timestamp

definition writer_lease_model_validate :: "WorkspaceWriterLease \<Rightarrow> WorkspaceWriterLease result" where
  "writer_lease_model_validate l =
     bindE (IdentifierString ''worker_id'' (ww_worker_id l)) (\<lambda>w.
     bindE (check (1 \<le> ww_generation l) ''generation'') (\<lambda>_.
     bindE (check (\<not> ww_expires_at l \<le> ww_acquired_at l)
              ''workspace lease expiry must follow acquisition'') (\<lambda>_.
     Inr (l\<lparr>ww_worker_id := w\<rparr>))))"

subsection \<open>Recovery\<close>

record DurableToolOutcome =
  to_tool_call_id :: string
  to_tool_name :: string
  to_turn_number :: int
  to_argument_hash :: string
  to_status :: ToolCallStatus
  to_workspace_version :: "string option"
  to_result :: "FrozenJsonObject option"
  to_error :: "ErrorDetail option"

definition tool_outcome_validate_terminal :: "DurableToolOutcome \<Rightarrow> unit result" where
  "tool_outcome_validate_terminal t =
     bindE (check (to_status t \<in> {TOOL_COMPLETED, TOOL_FAILED, TOOL_CANCELLED})
              ''durable tool outcome must be terminal'') (\<lambda>_.
     if to_status t = TOOL_COMPLETED
     then check (\<not> (to_result t = None \<or> to_error t \<noteq> None))
            ''completed durable tool outcome requires only a result''
     else check (\<not> (to_error t = None \<or> to_result t \<noteq> None))
            ''failed or cancelled durable tool outcome requires only an error'')"

definition tool_outcome_model_validate :: "DurableToolOutcome \<Rightarrow> DurableToolOutcome result" where
  "tool_outcome_model_validate t =
     bindE (IdentifierString ''tool_call_id'' (to_tool_call_id t)) (\<lambda>i.
     bindE (ToolName ''tool_name'' (to_tool_name t)) (\<lambda>n.
     bindE (check (1 \<le> to_turn_number t) ''turn_number'') (\<lambda>_.
     bindE (Sha256Hex ''argument_hash'' (to_argument_hash t)) (\<lambda>_.
     bindE (optional (IdentifierString ''workspace_version'') (to_workspace_version t)) (\<lambda>v.
     let t' = t\<lparr>to_tool_call_id := i, to_tool_name := n, to_workspace_version := v\<rparr>
     in bindE (tool_outcome_validate_terminal t') (\<lambda>_. Inr t'))))))"

text \<open>The UTF-8 length of a text whose code points are below 256.\<close>

definition utf8_length :: "string \<Rightarrow> nat" where
  "utf8_length s = sum_list (map (\<lambda>c. if (of_char c :: nat) < 128 then 1 else 2) s)"

definition MAX_APPROVAL_RESPONSE_BYTES :: nat where
  "MAX_APPROVAL_RESPONSE_BYTES = 65536"

record DurablePendingToolCall =
  pt_tool_call_id :: string
  pt_tool_name :: string
  pt_turn_number :: int
  pt_arguments :: FrozenJsonObject
  pt_argument_hash :: string
  pt_approval_id :: "uuid option"
  pt_approval_approved :: "bool option"
  pt_approval_response :: "string option"

definition pending_validate_approval ::
    "(FrozenJsonObject \<Rightarrow> string) \<Rightarrow> DurablePendingToolCall \<Rightarrow> unit result" where
  "pending_validate_approval hash p =
     bindE (check (pt_argument_hash p = hash (pt_arguments p))
              ''pending tool argument hash does not match its arguments'') (\<lambda>_.
     bindE (check ((pt_approval_id p = None) = (pt_approval_approved p = None))
              ''approval identity and decision must be present together'') (\<lambda>_.
     bindE (check (\<not> (pt_approval_response p \<noteq> None \<and> pt_approval_id p = None))
              ''approval response requires an approval decision'') (\<lambda>_.
     check (case pt_approval_response p of None \<Rightarrow> True
            | Some s \<Rightarrow> \<not> utf8_length s > MAX_APPROVAL_RESPONSE_BYTES)
       ''approval response exceeds its UTF-8 byte limit'')))"

definition pending_model_validate ::
    "(FrozenJsonObject \<Rightarrow> string) \<Rightarrow> DurablePendingToolCall \<Rightarrow> DurablePendingToolCall result" where
  "pending_model_validate hash p =
     bindE (IdentifierString ''tool_call_id'' (pt_tool_call_id p)) (\<lambda>i.
     bindE (ToolName ''tool_name'' (pt_tool_name p)) (\<lambda>n.
     bindE (check (1 \<le> pt_turn_number p) ''turn_number'') (\<lambda>_.
     bindE (Sha256Hex ''argument_hash'' (pt_argument_hash p)) (\<lambda>_.
     bindE (check (case pt_approval_response p of None \<Rightarrow> True
                   | Some s \<Rightarrow> 1 \<le> length s \<and> length s \<le> 65536) ''approval_response'') (\<lambda>_.
     let p' = p\<lparr>pt_tool_call_id := i, pt_tool_name := n\<rparr>
     in bindE (pending_validate_approval hash p') (\<lambda>_. Inr p'))))))"

definition MAX_RECOVERY_STATE_BYTES :: nat where
  "MAX_RECOVERY_STATE_BYTES = 16 * 1024 * 1024"

record RunRecoveryState =
  rs_checkpoint :: "Checkpoint option"
  rs_workspace_restore_revision :: "string option"
  rs_messages :: "GatewayMessage list"
  rs_task_plan :: FrozenJsonObject
  rs_context_summary :: "string option"
  rs_prior_tool_outcomes :: "DurableToolOutcome list"
  rs_approval_mode :: ApprovalMode
  rs_pending_tool_calls :: "DurablePendingToolCall list"

text \<open>\<open>json_size\<close> is \<open>len(self.model_dump_json().encode("utf-8"))\<close>, an argument.\<close>

definition recovery_validate_outcomes :: "(RunRecoveryState \<Rightarrow> nat) \<Rightarrow> RunRecoveryState \<Rightarrow> unit result" where
  "recovery_validate_outcomes json_size s =
     (let identifiers = map to_tool_call_id (rs_prior_tool_outcomes s);
          pending_identifiers = map pt_tool_call_id (rs_pending_tool_calls s)
      in bindE (check ((rs_checkpoint s = None) = (rs_workspace_restore_revision s = None))
                  ''workspace_restore_revision must be present exactly when a checkpoint is present'') (\<lambda>_.
         bindE (check (distinct identifiers) ''prior durable tool-call IDs must be unique'') (\<lambda>_.
         bindE (check (distinct pending_identifiers)
                  ''pending durable tool-call IDs must be unique'') (\<lambda>_.
         bindE (check (\<not> (rs_pending_tool_calls s \<noteq> []
                          \<and> length (remdups (map pt_turn_number (rs_pending_tool_calls s))) \<noteq> 1))
                  ''pending durable tool calls must belong to one atomic model turn'') (\<lambda>_.
         bindE (check (set identifiers \<inter> set pending_identifiers = {})
                  ''terminal and pending tool-call IDs must be disjoint'') (\<lambda>_.
         check (\<not> json_size s > MAX_RECOVERY_STATE_BYTES)
           ''serialized recovery state exceeds 16777216-byte limit''))))))"

definition recovery_model_validate ::
    "(RunRecoveryState \<Rightarrow> nat) \<Rightarrow> RunRecoveryState \<Rightarrow> RunRecoveryState result" where
  "recovery_model_validate json_size s =
     bindE (optional (IdentifierString ''workspace_restore_revision'') (rs_workspace_restore_revision s)) (\<lambda>w.
     bindE (check (1 \<le> length (rs_messages s) \<and> length (rs_messages s) \<le> 4096) ''messages'') (\<lambda>_.
     bindE (check (length (rs_prior_tool_outcomes s) \<le> 100) ''prior_tool_outcomes'') (\<lambda>_.
     bindE (check (length (rs_pending_tool_calls s) \<le> 100) ''pending_tool_calls'') (\<lambda>_.
     let s' = s\<lparr>rs_workspace_restore_revision := w\<rparr>
     in bindE (recovery_validate_outcomes json_size s') (\<lambda>_. Inr s')))))"

subsection \<open>Execution results\<close>

record RunExecutionResult =
  er_status :: RunStatus
  er_last_checkpoint_id :: "uuid option"
  er_error :: "ErrorDetail option"
  er_retry_delay_seconds :: "rat option"

definition execution_result_model_validate :: "RunExecutionResult \<Rightarrow> RunExecutionResult result" where
  "execution_result_model_validate r =
     bindE (check (case er_retry_delay_seconds r of None \<Rightarrow> True | Some d \<Rightarrow> 0 \<le> d \<and> d \<le> 3600)
              ''retry_delay_seconds'') (\<lambda>_.
     bindE (check (er_status r \<in> {COMPLETED, FAILED, CANCELLED, WAITING_APPROVAL, RETRY_PENDING})
              ''worker execution result must release its run lease'') (\<lambda>_.
     bindE (check (\<not> (er_status r = FAILED \<and> er_error r = None))
              ''failed worker execution requires an error'') (\<lambda>_.
     bindE (check (\<not> (er_status r \<noteq> FAILED \<and> er_error r \<noteq> None))
              ''only failed worker execution may include an error'') (\<lambda>_.
     bindE (check (\<not> ((er_status r = RETRY_PENDING) \<noteq> (er_retry_delay_seconds r \<noteq> None)))
              ''retry-pending execution requires only a retry delay'') (\<lambda>_.
     Inr r)))))"

definition execution_result_valid :: "RunExecutionResult \<Rightarrow> bool" where
  "execution_result_valid r \<longleftrightarrow> execution_result_model_validate r = Inr r"

subsection \<open>Admission policy and tenant quota\<close>

datatype CapacityScope =
    TENANT_ACTIVE_RUNS | TENANT_QUEUED_RUNS | TENANT_GATEWAY_REQUESTS | PROVIDER_REQUESTS
  | PROVIDER_TOKENS | GLOBAL_QUEUE | WORKER_RUNS | WORKER_SANDBOXES

fun capacity_scope_value :: "CapacityScope \<Rightarrow> string" where
  "capacity_scope_value TENANT_ACTIVE_RUNS = ''tenant_active_runs''"
| "capacity_scope_value TENANT_QUEUED_RUNS = ''tenant_queued_runs''"
| "capacity_scope_value TENANT_GATEWAY_REQUESTS = ''tenant_gateway_requests''"
| "capacity_scope_value PROVIDER_REQUESTS = ''provider_requests''"
| "capacity_scope_value PROVIDER_TOKENS = ''provider_tokens''"
| "capacity_scope_value GLOBAL_QUEUE = ''global_queue''"
| "capacity_scope_value WORKER_RUNS = ''worker_runs''"
| "capacity_scope_value WORKER_SANDBOXES = ''worker_sandboxes''"

record QueueAdmissionPolicy =
  qp_global_queue_limit :: int
  qp_retry_after_seconds :: rat
  qp_priority_aging_seconds :: rat

definition admission_policy_validate :: "QueueAdmissionPolicy \<Rightarrow> QueueAdmissionPolicy result" where
  "admission_policy_validate p =
     bindE (check (1 \<le> qp_global_queue_limit p \<and> qp_global_queue_limit p \<le> 1000000) ''global_queue_limit'') (\<lambda>_.
     bindE (check (0 < qp_retry_after_seconds p \<and> qp_retry_after_seconds p \<le> 3600) ''retry_after_seconds'') (\<lambda>_.
     bindE (check (0 < qp_priority_aging_seconds p \<and> qp_priority_aging_seconds p \<le> 86400)
              ''priority_aging_seconds'') (\<lambda>_. Inr p)))"

record TenantQuota =
  tq_max_active_runs :: int
  tq_max_queued_runs :: int
  tq_max_gateway_requests :: int
  tq_memory_enabled :: bool

definition tenant_quota_validate :: "TenantQuota \<Rightarrow> TenantQuota result" where
  "tenant_quota_validate q =
     bindE (check (1 \<le> tq_max_active_runs q \<and> tq_max_active_runs q \<le> 10000) ''max_active_runs'') (\<lambda>_.
     bindE (check (1 \<le> tq_max_queued_runs q \<and> tq_max_queued_runs q \<le> 100000) ''max_queued_runs'') (\<lambda>_.
     bindE (check (1 \<le> tq_max_gateway_requests q \<and> tq_max_gateway_requests q \<le> 10000)
              ''max_gateway_requests'') (\<lambda>_. Inr q)))"

lemma execution_result_status:
  "execution_result_valid r \<Longrightarrow>
     er_status r \<in> {COMPLETED, FAILED, CANCELLED, WAITING_APPROVAL, RETRY_PENDING}
   \<and> (er_status r = RETRY_PENDING \<longleftrightarrow> er_retry_delay_seconds r \<noteq> None)
   \<and> (er_status r = FAILED \<longleftrightarrow> er_error r \<noteq> None)"
  unfolding execution_result_valid_def execution_result_model_validate_def bindE_check by auto

end
