(* ===== verification/Task_Plans.thy ===== *)
theory Task_Plans
  imports Domain
begin

section \<open>Task plans\<close>

text \<open>
  The tracked tasks of \<open>agent_core/control.py\<close> and the validator of a plan update: unique
  ids, known dependencies, an acyclic dependency graph (the depth-first search \<open>visit\<close>),
  and no task that runs ahead of its dependencies.

  The search is the mutual recursion of \<open>visit\<close> and of its loop over the dependencies; it
  ends because every nested call adds a known id to \<open>visiting\<close>. \<open>validate_graph_iff\<close> shows
  that the validator accepts exactly the acyclic plans whose started tasks rest on
  completed ones.
\<close>

subsection \<open>Tasks\<close>

datatype TaskStatus = TASK_PENDING | TASK_IN_PROGRESS | TASK_COMPLETED | TASK_BLOCKED | TASK_CANCELLED

fun task_status_value :: "TaskStatus \<Rightarrow> string" where
  "task_status_value TASK_PENDING = ''pending''"
| "task_status_value TASK_IN_PROGRESS = ''in_progress''"
| "task_status_value TASK_COMPLETED = ''completed''"
| "task_status_value TASK_BLOCKED = ''blocked''"
| "task_status_value TASK_CANCELLED = ''cancelled''"

record TrackedTask =
  tt_id :: string
  tt_title :: string
  tt_status :: TaskStatus
  tt_details :: string
  tt_depends_on :: "string list"

definition task_validate_dependencies :: "TrackedTask \<Rightarrow> unit result" where
  "task_validate_dependencies t =
     bindE (check (tt_id t \<notin> set (tt_depends_on t)) ''a task may not depend on itself'') (\<lambda>_.
     check (distinct (tt_depends_on t)) ''task dependencies must be unique'')"

definition task_model_validate :: "TrackedTask \<Rightarrow> TrackedTask result" where
  "task_model_validate t =
     bindE (IdentifierString ''id'' (tt_id t)) (\<lambda>i.
     bindE (constrained_string ''title'' 1 (Some 1000) (\<lambda>_. True) (tt_title t)) (\<lambda>n.
     bindE (check (length (tt_details t) \<le> 16384) ''details'') (\<lambda>_.
     bindE (mapE (IdentifierString ''depends_on'') (tt_depends_on t)) (\<lambda>ds.
     bindE (check (length ds \<le> 100) ''depends_on'') (\<lambda>_.
     let t' = t\<lparr>tt_id := i, tt_title := n, tt_depends_on := ds\<rparr>
     in bindE (task_validate_dependencies t') (\<lambda>_. Inr t'))))))"

subsection \<open>The dependency search\<close>

type_synonym dependencies = "(string \<times> string list) list"

lemma unvisited_decreases:
  "map_of deps i = Some ds \<Longrightarrow> i \<notin> set visiting \<Longrightarrow>
     card (fst ` set deps - set (i # visiting)) < card (fst ` set deps - set visiting)"
proof (rule psubset_card_mono)
  assume "map_of deps i = Some ds" "i \<notin> set visiting"
  then have "i \<in> fst ` set deps - set visiting" by (force dest: map_of_SomeD)
  then show "fst ` set deps - set (i # visiting) \<subset> fst ` set deps - set visiting" by auto
qed simp

function visit :: "dependencies \<Rightarrow> string list \<Rightarrow> string list \<Rightarrow> string \<Rightarrow> string list result"
  and visit_all :: "dependencies \<Rightarrow> string list \<Rightarrow> string list \<Rightarrow> string list \<Rightarrow> string list result"
where
  "visit deps visiting visited identifier =
     (if identifier \<in> set visiting then Inl (ValidationError ''task dependencies must be acyclic'')
      else if identifier \<in> set visited then Inr visited
      else (case map_of deps identifier of
              None \<Rightarrow> Inl KeyError
            | Some ds \<Rightarrow>
                bindE (visit_all deps (identifier # visiting) visited ds)
                  (\<lambda>visited'. Inr (identifier # visited'))))"
| "visit_all deps visiting visited ds =
     (case ds of
        [] \<Rightarrow> Inr visited
      | d # rest \<Rightarrow> bindE (visit deps visiting visited d) (\<lambda>v. visit_all deps visiting v rest))"
  by pat_completeness auto

termination visit
  by (relation "measures
      [\<lambda>c. (case c of Inl (deps, visiting, _, _) \<Rightarrow> card (fst ` set deps - set visiting)
             | Inr (deps, visiting, _, _) \<Rightarrow> card (fst ` set deps - set visiting)),
       \<lambda>c. (case c of Inl _ \<Rightarrow> 0 | Inr (_, _, _, ds) \<Rightarrow> Suc (length ds))]")
    (auto dest: unvisited_decreases)

declare visit.simps [simp del] visit_all.simps [simp del]

definition task_dependencies :: "TrackedTask list \<Rightarrow> dependencies" where
  "task_dependencies tasks = map (\<lambda>t. (tt_id t, tt_depends_on t)) tasks"

text \<open>The last loop of the validator: \<open>by_id[dependency]\<close> is a dictionary lookup.\<close>

definition started_tasks_ready :: "TrackedTask list \<Rightarrow> bool" where
  "started_tasks_ready tasks =
     list_all (\<lambda>t. tt_status t \<in> {TASK_IN_PROGRESS, TASK_COMPLETED} \<longrightarrow>
         list_all (\<lambda>d. map_of (map (\<lambda>u. (tt_id u, tt_status u)) tasks) d = Some TASK_COMPLETED)
           (tt_depends_on t)) tasks"

definition validate_graph :: "TrackedTask list \<Rightarrow> unit result" where
  "validate_graph tasks =
     (let identifiers = map tt_id tasks
      in bindE (check (distinct identifiers) ''task IDs must be unique'') (\<lambda>_.
         bindE (check (list_all (\<lambda>t. list_all (\<lambda>d. d \<in> set identifiers) (tt_depends_on t)) tasks)
                  ''task dependencies must reference tasks in the same plan'') (\<lambda>_.
         bindE (visit_all (task_dependencies tasks) [] [] identifiers) (\<lambda>_.
         check (started_tasks_ready tasks)
           ''in-progress and completed tasks require completed dependencies''))))"

record TaskPlanUpdate =
  tpu_expected_version :: int
  tpu_tasks :: "TrackedTask list"

definition task_plan_update_validate :: "TaskPlanUpdate \<Rightarrow> TaskPlanUpdate result" where
  "task_plan_update_validate u =
     bindE (check (0 \<le> tpu_expected_version u) ''expected_version'') (\<lambda>_.
     bindE (mapE task_model_validate (tpu_tasks u)) (\<lambda>tasks.
     bindE (check (length tasks \<le> 500) ''tasks'') (\<lambda>_.
     bindE (validate_graph tasks) (\<lambda>_. Inr (u\<lparr>tpu_tasks := tasks\<rparr>)))))"

subsection \<open>The search decides acyclicity\<close>

text \<open>The edges of the dependency graph.\<close>

definition dependency_edges :: "dependencies \<Rightarrow> (string \<times> string) set" where
  "dependency_edges deps = {(i, d). \<exists>ds. map_of deps i = Some ds \<and> d \<in> set ds}"

text \<open>
  What the search knows of the visited ids: they are closed under dependencies and no
  cycle runs through them.
\<close>

definition settled :: "dependencies \<Rightarrow> string set \<Rightarrow> bool" where
  "settled deps V \<longleftrightarrow>
     (\<forall>i d. i \<in> V \<longrightarrow> (i, d) \<in> dependency_edges deps \<longrightarrow> d \<in> V)
   \<and> acyclic (dependency_edges deps \<inter> V \<times> UNIV)"

lemma acyclic_insert_sink_of:
  assumes closed: "\<And>a b. a \<in> V \<Longrightarrow> (a, b) \<in> E \<Longrightarrow> b \<in> V"
    and ac: "acyclic (E \<inter> V \<times> UNIV)" and i: "i \<notin> V" and succ: "\<And>b. (i, b) \<in> E \<Longrightarrow> b \<in> V"
  shows "acyclic (E \<inter> insert i V \<times> UNIV)"
proof (rule acyclicI, intro allI notI)
  fix x
  assume cyc: "(x, x) \<in> (E \<inter> insert i V \<times> UNIV)\<^sup>+"
  have stay: "b \<in> V \<and> (a, b) \<in> (E \<inter> V \<times> UNIV)\<^sup>+"
    if "(a, b) \<in> (E \<inter> insert i V \<times> UNIV)\<^sup>+" "a \<in> V" for a b
    using that
  proof (induction rule: trancl_induct)
    case (base b)
    then show ?case using closed i by auto
  next
    case (step b c)
    then have "b \<in> V" "(a, b) \<in> (E \<inter> V \<times> UNIV)\<^sup>+" by auto
    moreover have "(b, c) \<in> E \<inter> V \<times> UNIV" using step.hyps(2) \<open>b \<in> V\<close> i by auto
    ultimately show ?case using closed by (auto intro: trancl_into_trancl)
  qed
  show False
  proof (cases "x \<in> V")
    case True
    with stay [OF cyc] ac show False by (auto simp: acyclic_def)
  next
    case False
    from cyc obtain y where y: "(x, y) \<in> E \<inter> insert i V \<times> UNIV"
      and rest: "y = x \<or> (y, x) \<in> (E \<inter> insert i V \<times> UNIV)\<^sup>+"
      by (metis converse_tranclE)
    with False have "x = i" by auto
    then have "y \<in> V" using y succ by auto
    with rest stay False show False by blast
  qed
qed

lemma visit_settled:
  "visit deps visiting V i = Inr W \<Longrightarrow> settled deps (set V) \<Longrightarrow>
     settled deps (set W) \<and> set V \<subseteq> set W \<and> i \<in> set W"
  "visit_all deps visiting V ds = Inr W \<Longrightarrow> settled deps (set V) \<Longrightarrow>
     settled deps (set W) \<and> set V \<subseteq> set W \<and> set ds \<subseteq> set W"
proof (induction deps visiting V i and deps visiting V ds arbitrary: W and W rule: visit_visit_all.induct)
  case (1 deps visiting V i)
  show ?case
  proof (cases "i \<in> set V")
    case True
    with "1.prems" show ?thesis by (auto simp: visit.simps split: if_splits)
  next
    case False
    with "1.prems" obtain ds W' where
      nv: "i \<notin> set visiting" and ds: "map_of deps i = Some ds"
      and W': "visit_all deps (i # visiting) V ds = Inr W'" and W: "W = i # W'"
      by (auto simp: visit.simps [of deps] bindE_eq_Inr split: if_splits option.splits)
    from "1.IH" [OF nv False ds W' "1.prems"(2)]
    have IH: "settled deps (set W')" "set V \<subseteq> set W'" "set ds \<subseteq> set W'" by auto
    have "settled deps (insert i (set W'))"
    proof (cases "i \<in> set W'")
      case True
      with IH show ?thesis by (simp add: insert_absorb)
    next
      case False
      have "acyclic (dependency_edges deps \<inter> insert i (set W') \<times> UNIV)"
        by (rule acyclic_insert_sink_of)
          (use IH False ds in \<open>auto simp: settled_def dependency_edges_def\<close>)
      with IH ds show ?thesis by (auto simp: settled_def dependency_edges_def)
    qed
    with IH W show ?thesis by auto
  qed
next
  case (2 deps visiting V ds)
  show ?case
  proof (cases ds)
    case Nil
    with "2.prems" show ?thesis by (simp add: visit_all.simps)
  next
    case (Cons d rest)
    with "2.prems" obtain V' where
      V': "visit deps visiting V d = Inr V'" and W: "visit_all deps visiting V' rest = Inr W"
      by (auto simp: visit_all.simps [of deps visiting V] bindE_eq_Inr)
    from "2.IH"(1) [OF Cons V' "2.prems"(2)]
    have "settled deps (set V')" "set V \<subseteq> set V'" "d \<in> set V'" by auto
    with "2.IH"(2) [OF Cons V' W] Cons show ?thesis by auto
  qed
qed
text \<open>
  The search fails only on a cycle, when every dependency is known: the ids being visited
  lead to the current one.
\<close>

definition closed_graph :: "dependencies \<Rightarrow> bool" where
  "closed_graph deps \<longleftrightarrow> (\<forall>i d. (i, d) \<in> dependency_edges deps \<longrightarrow> d \<in> fst ` set deps)"

lemma visit_total:
  "closed_graph deps \<Longrightarrow> acyclic (dependency_edges deps) \<Longrightarrow> i \<in> fst ` set deps \<Longrightarrow>
     (\<forall>p \<in> set visiting. (p, i) \<in> (dependency_edges deps)\<^sup>+) \<Longrightarrow> \<exists>W. visit deps visiting V i = Inr W"
  "closed_graph deps \<Longrightarrow> acyclic (dependency_edges deps) \<Longrightarrow> set ds \<subseteq> fst ` set deps \<Longrightarrow>
     (\<forall>p \<in> set visiting. \<forall>d \<in> set ds. (p, d) \<in> (dependency_edges deps)\<^sup>+) \<Longrightarrow>
     \<exists>W. visit_all deps visiting V ds = Inr W"
proof (induction deps visiting V i and deps visiting V ds rule: visit_visit_all.induct)
  case (1 deps visiting V i)
  have nv: "i \<notin> set visiting" using "1.prems"(2,4) by (auto simp: acyclic_def)
  show ?case
  proof (cases "i \<in> set V")
    case True
    with nv show ?thesis by (simp add: visit.simps)
  next
    case False
    from "1.prems"(3) obtain ds where ds: "map_of deps i = Some ds"
      by (metis domIff dom_map_of_conv_image_fst not_None_eq)
    have edges: "(i, d) \<in> dependency_edges deps" if "d \<in> set ds" for d
      using that ds by (auto simp: dependency_edges_def)
    have "set ds \<subseteq> fst ` set deps" using "1.prems"(1) edges by (auto simp: closed_graph_def)
    moreover have "\<forall>p \<in> set (i # visiting). \<forall>d \<in> set ds. (p, d) \<in> (dependency_edges deps)\<^sup>+"
      using "1.prems"(4) edges by (auto intro: trancl_into_trancl)
    ultimately have "\<exists>W. visit_all deps (i # visiting) V ds = Inr W"
      using "1.IH" [OF nv False ds] "1.prems"(1,2) by blast
    with nv False ds show ?thesis by (auto simp: visit.simps [of deps])
  qed
next
  case (2 deps visiting V ds)
  show ?case
  proof (cases ds)
    case Nil
    then show ?thesis by (simp add: visit_all.simps)
  next
    case (Cons d rest)
    with "2.IH"(1) [OF Cons] "2.prems" obtain V' where V': "visit deps visiting V d = Inr V'" by auto
    have "\<exists>W. visit_all deps visiting V' rest = Inr W"
      using "2.IH"(2) [OF Cons V'] "2.prems" Cons by auto
    with V' Cons show ?thesis by (auto simp: visit_all.simps [of deps visiting V])
  qed
qed

lemma dependency_edges_tasks:
  assumes "distinct (map tt_id tasks)"
  shows "dependency_edges (task_dependencies tasks) =
    {(tt_id t, d) | t d. t \<in> set tasks \<and> d \<in> set (tt_depends_on t)}"
proof -
  have "map fst (task_dependencies tasks) = map tt_id tasks"
    by (simp add: task_dependencies_def comp_def)
  then have "map_of (task_dependencies tasks) i = Some ds \<longleftrightarrow> (i, ds) \<in> set (task_dependencies tasks)"
    for i ds
    using assms by (metis map_of_eq_Some_iff)
  then show ?thesis by (auto simp: dependency_edges_def task_dependencies_def)
qed

lemma visit_all_iff_acyclic:
  assumes d: "distinct (map tt_id tasks)"
    and k: "list_all (\<lambda>t. list_all (\<lambda>d. d \<in> set (map tt_id tasks)) (tt_depends_on t)) tasks"
  shows "is_ok (visit_all (task_dependencies tasks) [] [] (map tt_id tasks)) \<longleftrightarrow>
    acyclic {(tt_id t, d) | t d. t \<in> set tasks \<and> d \<in> set (tt_depends_on t)}"
proof -
  let ?deps = "task_dependencies tasks" and ?ids = "map tt_id tasks"
  have keys: "fst ` set ?deps = set ?ids" by (simp add: task_dependencies_def image_image)
  have closed: "closed_graph ?deps"
    using k unfolding closed_graph_def keys dependency_edges_tasks [OF d] by (auto simp: list_all_iff)
  have "acyclic (dependency_edges ?deps)" if W: "visit_all ?deps [] [] ?ids = Inr W" for W
  proof -
    have "settled ?deps (set W) \<and> set ?ids \<subseteq> set W"
      using visit_settled(2) [OF W] by (simp add: settled_def acyclic_def)
    moreover have "dependency_edges ?deps \<subseteq> set ?ids \<times> UNIV"
      unfolding dependency_edges_tasks [OF d] by auto
    ultimately show ?thesis
      by (metis acyclic_subset inf.absorb1 inf.order_iff Sigma_mono order_refl order_trans settled_def)
  qed
  moreover have "\<exists>W. visit_all ?deps [] [] ?ids = Inr W" if "acyclic (dependency_edges ?deps)"
    using visit_total(2) [OF closed that, of ?ids "[]"] by (simp add: keys)
  ultimately show ?thesis unfolding is_ok_iff dependency_edges_tasks [OF d] by blast
qed

subsection \<open>The validator\<close>

text \<open>
  C20: the validator of a task plan accepts a plan exactly when its ids are unique, every
  dependency names a task of the plan, the dependency relation has no cycle, and every
  task in progress or completed depends on completed tasks only.
\<close>

theorem validate_graph_iff:
  "is_ok (validate_graph tasks) \<longleftrightarrow>
     distinct (map tt_id tasks)
   \<and> (\<forall>t d. t \<in> set tasks \<and> d \<in> set (tt_depends_on t) \<longrightarrow> d \<in> tt_id ` set tasks)
   \<and> acyclic {(tt_id t, d) | t d. t \<in> set tasks \<and> d \<in> set (tt_depends_on t)}
   \<and> (\<forall>t d. t \<in> set tasks \<and> d \<in> set (tt_depends_on t)
        \<and> tt_status t \<in> {TASK_IN_PROGRESS, TASK_COMPLETED} \<longrightarrow>
          (\<exists>u \<in> set tasks. tt_id u = d \<and> tt_status u = TASK_COMPLETED))"
proof (cases "distinct (map tt_id tasks)
    \<and> list_all (\<lambda>t. list_all (\<lambda>d. d \<in> set (map tt_id tasks)) (tt_depends_on t)) tasks")
  case False
  then show ?thesis
    unfolding validate_graph_def Let_def is_ok_iff bindE_check by (auto simp: list_all_iff)
next
  case True
  have status: "map_of (map (\<lambda>u. (tt_id u, tt_status u)) tasks) d = Some TASK_COMPLETED \<longleftrightarrow>
      (\<exists>u \<in> set tasks. tt_id u = d \<and> tt_status u = TASK_COMPLETED)" for d
    using True by (subst map_of_eq_Some_iff) (auto simp: comp_def)
  have "is_ok (validate_graph tasks) \<longleftrightarrow>
      is_ok (visit_all (task_dependencies tasks) [] [] (map tt_id tasks)) \<and> started_tasks_ready tasks"
    using True unfolding validate_graph_def Let_def is_ok_iff bindE_check bindE_eq_Inr
    by (auto simp: check_def)
  also have "\<dots> \<longleftrightarrow> acyclic {(tt_id t, d) | t d. t \<in> set tasks \<and> d \<in> set (tt_depends_on t)}
      \<and> started_tasks_ready tasks"
    using visit_all_iff_acyclic True by blast
  finally show ?thesis
    using True unfolding started_tasks_ready_def status by (auto simp: list_all_iff)
qed

definition sample_tasks :: "TrackedTask list" where
  "sample_tasks =
     [\<lparr>tt_id = ''a'', tt_title = ''A'', tt_status = TASK_COMPLETED, tt_details = [], tt_depends_on = []\<rparr>,
      \<lparr>tt_id = ''b'', tt_title = ''B'', tt_status = TASK_IN_PROGRESS, tt_details = [],
       tt_depends_on = [''a'']\<rparr>]"

theorem validate_graph_iff_witness:
  "is_ok (validate_graph sample_tasks)
   \<and> acyclic {(tt_id t, d) | t d. t \<in> set sample_tasks \<and> d \<in> set (tt_depends_on t)}"
proof -
  have "is_ok (validate_graph sample_tasks)" by code_simp
  with validate_graph_iff [of sample_tasks] show ?thesis by simp
qed

end
