(* ===== verification/Control.thy ===== *)
theory Control
  imports Contracts Task_Plans
begin

section \<open>Control-plane values\<close>

text \<open>
  The durable values that API and persistence share, \<open>agent_core/control.py\<close>: approvals,
  messages, task plans, run submissions, memory extraction jobs and the identity of a run
  creation payload. SHA-256 and \<open>json.dumps\<close> are arguments.
\<close>

subsection \<open>Idempotency keys\<close>

definition key_start_char :: "char \<Rightarrow> bool" where
  "key_start_char c \<longleftrightarrow>
     lower_letter c \<or> digit_char c \<or> (let n = of_char c :: nat in 65 \<le> n \<and> n \<le> 90)"

definition IdempotencyKey :: "string \<Rightarrow> string \<Rightarrow> string result" where
  "IdempotencyKey field s =
     (if 1 \<le> length s \<and> length s \<le> 255
         \<and> (case s of [] \<Rightarrow> False
            | c # cs \<Rightarrow> key_start_char c
                \<and> list_all (\<lambda>d. key_start_char d \<or> d \<in> {CHR ''.'', CHR ''_'', CHR '':'', CHR ''-''}) cs)
      then Inr s else Inl (ValidationError field))"

record RunCreationResult =
  rc_run :: Run
  rc_created :: bool

subsection \<open>Approvals\<close>

datatype ApprovalStatus = APPROVAL_PENDING | APPROVAL_APPROVED | APPROVAL_REJECTED

record ApprovalDecision =
  ad_approved :: bool
  ad_decided_by :: string
  ad_decided_at :: timestamp
  ad_response :: "string option"

definition approval_decision_validate :: "ApprovalDecision \<Rightarrow> ApprovalDecision result" where
  "approval_decision_validate d =
     bindE (constrained_string ''decided_by'' 1 (Some 255) (\<lambda>_. True) (ad_decided_by d)) (\<lambda>b.
     bindE (optional (constrained_string ''response'' 1 (Some 65536) (\<lambda>_. True)) (ad_response d)) (\<lambda>r.
     Inr (d\<lparr>ad_decided_by := b, ad_response := r\<rparr>)))"

record PersistedApproval =
  pa_id :: uuid
  pa_run_id :: uuid
  pa_execution_epoch :: int
  pa_status :: ApprovalStatus
  pa_reason :: string
  pa_arguments :: FrozenJsonObject
  pa_decided_by :: "string option"
  pa_requested_at :: timestamp
  pa_decided_at :: "timestamp option"
  pa_response :: "string option"

definition approval_validate_decision :: "PersistedApproval \<Rightarrow> unit result" where
  "approval_validate_decision a =
     bindE (if pa_status a = APPROVAL_PENDING
            then check (\<not> (pa_decided_by a \<noteq> None \<or> pa_decided_at a \<noteq> None \<or> pa_response a \<noteq> None))
                   ''pending approval may not contain decision metadata''
            else check (\<not> (pa_decided_by a = None \<or> pa_decided_at a = None))
                   ''decided approval requires subject and timestamp'') (\<lambda>_.
     bindE (check (case pa_decided_at a of None \<Rightarrow> True | Some t \<Rightarrow> \<not> t < pa_requested_at a)
              ''approval decision may not precede its request'') (\<lambda>_.
     check (case pa_response a of None \<Rightarrow> True
            | Some r \<Rightarrow> \<not> utf8_length r > MAX_APPROVAL_RESPONSE_BYTES)
       ''approval response exceeds its UTF-8 byte limit''))"

definition approval_model_validate :: "PersistedApproval \<Rightarrow> PersistedApproval result" where
  "approval_model_validate a =
     bindE (check (1 \<le> pa_execution_epoch a) ''execution_epoch'') (\<lambda>_.
     bindE (approval_validate_decision a) (\<lambda>_. Inr a))"

subsection \<open>Messages and plans\<close>

record PersistedMessage =
  pm_id :: uuid
  pm_session_id :: uuid
  pm_run_id :: uuid
  pm_execution_epoch :: int
  pm_sequence :: int
  pm_role :: MessageRole
  pm_content :: string
  pm_metadata :: FrozenJsonObject
  pm_created_at :: timestamp

definition persisted_message_model_validate :: "PersistedMessage \<Rightarrow> PersistedMessage result" where
  "persisted_message_model_validate m =
     bindE (check (1 \<le> pm_execution_epoch m) ''execution_epoch'') (\<lambda>_.
     bindE (check (1 \<le> pm_sequence m) ''sequence'') (\<lambda>_. Inr m))"

record PersistedTaskPlan =
  pp_id :: uuid
  pp_run_id :: uuid
  pp_execution_epoch :: int
  pp_version :: int
  pp_plan :: FrozenJsonObject
  pp_created_at :: timestamp

definition task_plan_model_validate :: "PersistedTaskPlan \<Rightarrow> PersistedTaskPlan result" where
  "task_plan_model_validate p =
     bindE (check (1 \<le> pp_execution_epoch p) ''execution_epoch'') (\<lambda>_.
     bindE (check (1 \<le> pp_version p) ''version'') (\<lambda>_. Inr p))"

subsection \<open>Run submissions\<close>

definition MAX_INITIAL_TASK_BYTES :: nat where
  "MAX_INITIAL_TASK_BYTES = 65536"

definition MAX_REFERENCED_WORKSPACE_FILES :: nat where
  "MAX_REFERENCED_WORKSPACE_FILES = 32"

text \<open>A referenced file is its canonical path.\<close>

record RunSubmission =
  sub_run :: Run
  sub_task :: string
  sub_initial_tasks :: "TrackedTask list"
  sub_referenced_files :: "string list"

definition submission_validate :: "RunSubmission \<Rightarrow> unit result" where
  "submission_validate s =
     bindE (check (\<not> utf8_length (sub_task s) > MAX_INITIAL_TASK_BYTES)
              ''initial task exceeds its UTF-8 byte limit'') (\<lambda>_.
     bindE (task_plan_update_validate \<lparr>tpu_expected_version = 0, tpu_tasks = sub_initial_tasks s\<rparr>) (\<lambda>_.
     check (distinct (sub_referenced_files s)) ''referenced workspace file paths must be unique''))"

definition submission_model_validate :: "RunSubmission \<Rightarrow> RunSubmission result" where
  "submission_model_validate s =
     bindE (constrained_string ''task'' 1 (Some 65536) (\<lambda>_. True) (sub_task s)) (\<lambda>t.
     bindE (mapE task_model_validate (sub_initial_tasks s)) (\<lambda>tasks.
     bindE (check (length tasks \<le> 500) ''initial_tasks'') (\<lambda>_.
     bindE (check (length (sub_referenced_files s) \<le> MAX_REFERENCED_WORKSPACE_FILES)
              ''referenced_files'') (\<lambda>_.
     let s' = s\<lparr>sub_task := t, sub_initial_tasks := tasks\<rparr>
     in bindE (submission_validate s') (\<lambda>_. Inr s')))))"

text \<open>\<open>TrackedTask.model_dump(mode="json")\<close> and \<open>WorkspaceFileReference.model_dump\<close>.\<close>

definition tracked_task_dump :: "TrackedTask \<Rightarrow> json" where
  "tracked_task_dump t = JObj
     [(''id'', JStr (tt_id t)), (''title'', JStr (tt_title t)),
      (''status'', JStr (task_status_value (tt_status t))), (''details'', JStr (tt_details t)),
      (''depends_on'', JList (map JStr (tt_depends_on t)))]"

definition file_reference_dump :: "string \<Rightarrow> json" where
  "file_reference_dump path = JObj [(''path'', JStr path)]"

fun priority_class_value :: "RunPriorityClass \<Rightarrow> string" where
  "priority_class_value INTERACTIVE = ''interactive''"
| "priority_class_value BACKGROUND = ''background''"
| "priority_class_value EVALUATION = ''evaluation''"

text \<open>The payload of \<open>run_creation_hash\<close>, and its digest with \<open>dumps\<close> and \<open>sha256\<close> given.\<close>

definition run_creation_payload ::
    "int \<Rightarrow> RunPriorityClass \<Rightarrow> string option \<Rightarrow> TrackedTask list option \<Rightarrow> string list option \<Rightarrow> json_object"
where
  "run_creation_payload priority priority_class task initial_tasks referenced_files =
     [(''priority'', JInt priority), (''priority_class'', JStr (priority_class_value priority_class))]
     @ (case task of None \<Rightarrow> [] | Some t \<Rightarrow> [(''task'', JStr t)])
     @ (case initial_tasks of None \<Rightarrow> []
        | Some ts \<Rightarrow> [(''initial_tasks'', JList (map tracked_task_dump ts))])
     @ (case referenced_files of None \<Rightarrow> []
        | Some fs \<Rightarrow> if fs = [] then []
                      else [(''referenced_files'', JList (map file_reference_dump fs))])"

definition run_creation_hash ::
    "(json_object \<Rightarrow> string) \<Rightarrow> int \<Rightarrow> RunPriorityClass \<Rightarrow> string option \<Rightarrow> TrackedTask list option \<Rightarrow>
     string list option \<Rightarrow> string"
where
  "run_creation_hash digest priority priority_class task initial_tasks referenced_files =
     digest (run_creation_payload priority priority_class task initial_tasks referenced_files)"

lemma task_status_value_inj: "task_status_value s = task_status_value t \<longleftrightarrow> s = t"
  by (cases s; cases t) simp_all

lemma tracked_task_dump_inj: "tracked_task_dump s = tracked_task_dump t \<longleftrightarrow> s = t"
proof
  assume "tracked_task_dump s = tracked_task_dump t"
  then have "map JStr (tt_depends_on s) = map JStr (tt_depends_on t)" "tt_id s = tt_id t"
    "tt_title s = tt_title t" "tt_status s = tt_status t" "tt_details s = tt_details t"
    by (simp_all add: tracked_task_dump_def task_status_value_inj)
  moreover have "inj JStr" by (rule injI) simp
  ultimately show "s = t" by (cases s; cases t) (simp add: inj_map_eq_map)
qed simp

lemma file_reference_dump_inj: "inj file_reference_dump"
  by (rule injI) (simp add: file_reference_dump_def)

lemma priority_class_value_inj: "priority_class_value s = priority_class_value t \<longleftrightarrow> s = t"
  by (cases s; cases t) simp_all

text \<open>
  The payload identifies what it is computed from, except that no referenced files and
  an empty tuple of them are the same payload.
\<close>

lemma run_creation_payload_inj:
  assumes "run_creation_payload p c (Some t) (Some ts) (Some fs)
         = run_creation_payload p' c' (Some t') (Some ts') (Some fs')"
  shows "p = p' \<and> c = c' \<and> t = t' \<and> ts = ts' \<and> fs = fs'"
proof -
  have d: "inj tracked_task_dump" by (rule injI) (simp add: tracked_task_dump_inj)
  show ?thesis
    using assms
    by (auto simp: run_creation_payload_def priority_class_value_inj inj_map_eq_map [OF d]
        inj_map_eq_map [OF file_reference_dump_inj] split: if_splits)
qed

subsection \<open>Memory extraction jobs\<close>

datatype MemoryExtractionStatus = MEM_PENDING | MEM_RUNNING | MEM_COMPLETED | MEM_FAILED

record MemoryExtractionJob =
  mj_id :: uuid
  mj_tenant_id :: uuid
  mj_session_id :: uuid
  mj_run_id :: uuid
  mj_execution_epoch :: int
  mj_status :: MemoryExtractionStatus
  mj_source_message_sequence :: int
  mj_attempt :: int
  mj_worker_id :: "string option"
  mj_lease_token :: "uuid option"
  mj_lease_generation :: int
  mj_lease_expires_at :: "timestamp option"
  mj_error :: "FrozenJsonObject option"
  mj_created_at :: timestamp
  mj_started_at :: "timestamp option"
  mj_completed_at :: "timestamp option"

definition memory_job_status_check :: "MemoryExtractionJob \<Rightarrow> unit result" where
  "memory_job_status_check j =
     (let no_lease = (mj_worker_id j = None \<and> mj_lease_token j = None \<and> mj_lease_expires_at j = None)
      in case mj_status j of
           MEM_PENDING \<Rightarrow>
             check (mj_started_at j = None \<and> mj_completed_at j = None \<and> mj_error j = None \<and> no_lease)
               ''pending memory job may not have execution state''
         | MEM_RUNNING \<Rightarrow>
             check (mj_started_at j \<noteq> None \<and> mj_completed_at j = None \<and> mj_error j = None
                    \<and> mj_worker_id j \<noteq> None \<and> mj_lease_token j \<noteq> None \<and> mj_lease_expires_at j \<noteq> None
                    \<and> \<not> mj_lease_generation j < 1)
               ''running memory job requires fenced lease state''
         | MEM_COMPLETED \<Rightarrow>
             check (mj_started_at j \<noteq> None \<and> mj_completed_at j \<noteq> None \<and> mj_error j = None \<and> no_lease)
               ''completed memory job requires execution timestamps''
         | MEM_FAILED \<Rightarrow>
             check (mj_started_at j \<noteq> None \<and> mj_completed_at j \<noteq> None \<and> mj_error j \<noteq> None \<and> no_lease)
               ''failed memory job requires timestamps and error'')"

definition memory_job_validate_lifecycle :: "MemoryExtractionJob \<Rightarrow> unit result" where
  "memory_job_validate_lifecycle j =
     bindE (memory_job_status_check j) (\<lambda>_.
     bindE (check (case mj_started_at j of None \<Rightarrow> True | Some s \<Rightarrow> \<not> s < mj_created_at j)
              ''memory job start may not precede creation'') (\<lambda>_.
     bindE (check (case mj_completed_at j of None \<Rightarrow> True
                   | Some c \<Rightarrow> (case mj_started_at j of None \<Rightarrow> False | Some s \<Rightarrow> \<not> c < s))
              ''memory job completion may not precede start'') (\<lambda>_.
     check (case mj_lease_expires_at j of None \<Rightarrow> True
            | Some x \<Rightarrow> (case mj_started_at j of None \<Rightarrow> False | Some s \<Rightarrow> \<not> x \<le> s))
       ''memory job lease must expire after its start'')))"

definition memory_job_model_validate :: "MemoryExtractionJob \<Rightarrow> MemoryExtractionJob result" where
  "memory_job_model_validate j =
     bindE (check (1 \<le> mj_execution_epoch j) ''execution_epoch'') (\<lambda>_.
     bindE (check (0 \<le> mj_source_message_sequence j) ''source_message_sequence'') (\<lambda>_.
     bindE (check (1 \<le> mj_attempt j \<and> mj_attempt j \<le> 100) ''attempt'') (\<lambda>_.
     bindE (optional (IdentifierString ''worker_id'') (mj_worker_id j)) (\<lambda>w.
     bindE (check (0 \<le> mj_lease_generation j) ''lease_generation'') (\<lambda>_.
     let j' = j\<lparr>mj_worker_id := w\<rparr>
     in bindE (memory_job_validate_lifecycle j') (\<lambda>_. Inr j'))))))"

subsection \<open>Context compactions\<close>

datatype ContextCompactionStatus = COMPACTION_PENDING | COMPACTION_COMPLETED | COMPACTION_FAILED

record PersistedContextCompaction =
  pc_id :: uuid
  pc_session_id :: uuid
  pc_context_generation :: int
  pc_status :: ContextCompactionStatus
  pc_idempotency_key :: string
  pc_source_message_sequence :: int
  pc_route_name :: string
  pc_summary :: "string option"
  pc_input_tokens :: "int option"
  pc_output_tokens :: "int option"
  pc_error :: "FrozenJsonObject option"
  pc_requested_at :: timestamp
  pc_completed_at :: "timestamp option"

definition compaction_validate_lifecycle :: "PersistedContextCompaction \<Rightarrow> unit result" where
  "compaction_validate_lifecycle c =
     bindE (check (case pc_summary c of None \<Rightarrow> True | Some s \<Rightarrow> \<not> utf8_length s > 262144)
              ''compaction summary exceeds its UTF-8 byte limit'') (\<lambda>_.
     bindE (case pc_status c of
              COMPACTION_PENDING \<Rightarrow>
                check (\<not> (pc_summary c \<noteq> None \<or> pc_input_tokens c \<noteq> None \<or> pc_output_tokens c \<noteq> None
                         \<or> pc_error c \<noteq> None \<or> pc_completed_at c \<noteq> None))
                  ''pending compaction may not contain a terminal outcome''
            | COMPACTION_COMPLETED \<Rightarrow>
                check (\<not> (pc_summary c = None \<or> pc_summary c = Some [] \<or> pc_input_tokens c = None
                         \<or> pc_output_tokens c = None \<or> pc_error c \<noteq> None \<or> pc_completed_at c = None))
                  ''completed compaction requires summary, usage, and timestamp''
            | COMPACTION_FAILED \<Rightarrow>
                check (\<not> (pc_error c = None \<or> pc_summary c \<noteq> None \<or> pc_input_tokens c \<noteq> None
                         \<or> pc_output_tokens c \<noteq> None \<or> pc_completed_at c = None))
                  ''failed compaction requires only an error and timestamp'') (\<lambda>_.
     check (case pc_completed_at c of None \<Rightarrow> True | Some t \<Rightarrow> \<not> t < pc_requested_at c)
       ''compaction completion may not precede its request''))"

definition compaction_model_validate :: "PersistedContextCompaction \<Rightarrow> PersistedContextCompaction result" where
  "compaction_model_validate c =
     bindE (check (1 \<le> pc_context_generation c) ''context_generation'') (\<lambda>_.
     bindE (IdempotencyKey ''idempotency_key'' (pc_idempotency_key c)) (\<lambda>k.
     bindE (check (0 \<le> pc_source_message_sequence c) ''source_message_sequence'') (\<lambda>_.
     bindE (IdentifierString ''route_name'' (pc_route_name c)) (\<lambda>n.
     bindE (check (nonneg_option (pc_input_tokens c)) ''input_tokens'') (\<lambda>_.
     bindE (check (nonneg_option (pc_output_tokens c)) ''output_tokens'') (\<lambda>_.
     let c' = c\<lparr>pc_idempotency_key := k, pc_route_name := n\<rparr>
     in bindE (compaction_validate_lifecycle c') (\<lambda>_. Inr c')))))))"

end
