(* ===== verification/Database.thy ===== *)
theory Database
  imports Control
begin

section \<open>Control-plane tables and their constraints\<close>

text \<open>
  The rows of \<open>platform_persistence/models.py\<close> that the run queue, the workspace leases,
  the repositories and recovery read and write, as one \<open>database\<close> record of tables, with
  the CHECK, UNIQUE and FOREIGN KEY constraints PostgreSQL enforces on them. A transaction
  is a function from the database to an error or to its result and the new database: an
  error rolls back, so it carries no new database. \<open>flush\<close> is the point where the
  constraints are enforced; the constraints hold of every committed database, so checking
  the whole database is checking the rows that changed.

  A row that mirrors a domain value holds that value beside the columns of its own, and a
  column whose CHECK admits exactly the values of an enumeration has the enumeration's type.
\<close>

subsection \<open>Rows\<close>

type_synonym WorkerRecord = WorkerRegistration
type_synonym SessionRecord = Session
type_synonym MemoryExtractionJobRecord = MemoryExtractionJob

record RunRecord =
  rr_tenant_id :: uuid
  rr_run :: Run
  rr_lease_generation :: int
  rr_retry_ready_at :: "timestamp option"
  rr_idempotency_key :: string
  rr_creation_hash :: string
  rr_next_event_sequence :: int

record RunLeaseRecord =
  le_run_id :: uuid
  le_tenant_id :: uuid
  le_worker_id :: string
  le_lease_token :: uuid
  le_generation :: int
  le_acquired_at :: timestamp
  le_last_heartbeat_at :: timestamp
  le_expires_at :: timestamp

record WorkspaceLeaseRecord =
  ws_tenant_id :: uuid
  ws_workspace_id :: uuid
  ws_run_id :: "uuid option"
  ws_worker_id :: "string option"
  ws_run_lease_token :: "uuid option"
  ws_lease_token :: "uuid option"
  ws_generation :: int
  ws_acquired_at :: "timestamp option"
  ws_expires_at :: "timestamp option"

record TenantQuotaRecord =
  tqr_tenant_id :: uuid
  tqr_quota :: TenantQuota
  tqr_created_at :: timestamp
  tqr_updated_at :: timestamp

record QueueAdmissionRecord =
  qa_global_queue_limit :: int
  qa_retry_after_seconds :: rat
  qa_created_at :: timestamp
  qa_updated_at :: timestamp

record MessageRecord =
  mr_tenant_id :: uuid
  mr_message :: PersistedMessage

record TaskPlanRecord =
  tp_tenant_id :: uuid
  tp_plan :: PersistedTaskPlan

record ToolCallRecord =
  tc_tenant_id :: uuid
  tc_call :: ToolCall

record ApprovalRecord =
  ap_tenant_id :: uuid
  ap_tool_call_id :: "string option"
  ap_approval :: PersistedApproval

record CheckpointRecord =
  cr_tenant_id :: uuid
  cr_checkpoint :: Checkpoint
  cr_completed_snapshot_uri :: "string option"
  cr_completed_revision :: "string option"

record ModelCallRecord =
  mc_tenant_id :: uuid
  mc_call :: ModelCall

record ContextCompactionRecord =
  cc_tenant_id :: uuid
  cc_compaction :: PersistedContextCompaction

record database =
  db_workers :: "WorkerRecord list"
  db_sessions :: "SessionRecord list"
  db_runs :: "RunRecord list"
  db_run_leases :: "RunLeaseRecord list"
  db_workspace_leases :: "WorkspaceLeaseRecord list"
  db_quotas :: "TenantQuotaRecord list"
  db_admission :: "QueueAdmissionRecord option"
  db_memory_jobs :: "MemoryExtractionJobRecord list"
  db_messages :: "MessageRecord list"
  db_task_plans :: "TaskPlanRecord list"
  db_tool_calls :: "ToolCallRecord list"
  db_approvals :: "ApprovalRecord list"
  db_checkpoints :: "CheckpointRecord list"
  db_model_calls :: "ModelCallRecord list"
  db_compactions :: "ContextCompactionRecord list"

type_synonym 'a transaction = "database \<Rightarrow> ('a \<times> database) result"

abbreviation rr_id :: "RunRecord \<Rightarrow> uuid" where
  "rr_id r \<equiv> run_id (rr_run r)"

abbreviation rr_status :: "RunRecord \<Rightarrow> RunStatus" where
  "rr_status r \<equiv> run_status (rr_run r)"

definition ws_key :: "WorkspaceLeaseRecord \<Rightarrow> uuid \<times> uuid" where
  "ws_key w = (ws_tenant_id w, ws_workspace_id w)"

text \<open>The columns of \<open>runs\<close> and \<open>sessions\<close> that foreign keys refer to.\<close>

definition run_key :: "RunRecord \<Rightarrow> uuid \<times> uuid \<times> uuid \<times> uuid" where
  "run_key r = (rr_tenant_id r, rr_id r, run_session_id (rr_run r), run_workspace_id (rr_run r))"

definition session_key :: "Session \<Rightarrow> uuid \<times> uuid \<times> uuid" where
  "session_key s = (session_tenant_id s, session_id s, session_workspace_id s)"

subsection \<open>CHECK constraints\<close>

definition worker_row_ok :: "WorkerRecord \<Rightarrow> bool" where
  "worker_row_ok w \<longleftrightarrow>
     1 \<le> wr_total_slots w \<and> wr_total_slots w \<le> 1024
   \<and> 0 \<le> wr_available_slots w \<and> wr_available_slots w \<le> wr_total_slots w
   \<and> wr_registered_at w \<le> wr_last_heartbeat_at w"

definition session_row_ok :: "SessionRecord \<Rightarrow> bool" where
  "session_row_ok s \<longleftrightarrow> session_created_at s \<le> session_updated_at s \<and> 1 \<le> session_context_generation s"

text \<open>
  The constraints of \<open>runs\<close>. \<open>run_lifecycle_ok\<close> is \<open>traceparent\<close> (its two identifiers are
  not zero), \<open>started_timestamp\<close>, \<open>completed_timestamp\<close>, \<open>started_state\<close>,
  \<open>terminal_state\<close>, \<open>active_lease\<close> and \<open>suspended_without_lease\<close>.
\<close>

definition run_row_ok :: "RunRecord \<Rightarrow> bool" where
  "run_row_ok r \<longleftrightarrow>
     1 \<le> run_attempt (rr_run r) \<and> 1 \<le> run_execution_epoch (rr_run r)
   \<and> run_execution_epoch (rr_run r) \<le> run_attempt (rr_run r)
   \<and> -100 \<le> run_priority (rr_run r) \<and> run_priority (rr_run r) \<le> 100
   \<and> 0 \<le> rr_lease_generation r \<and> 1 \<le> rr_next_event_sequence r
   \<and> length (rr_creation_hash r) = 64 \<and> list_all hex_char (rr_creation_hash r)
   \<and> (case run_traceparent (rr_run r) of None \<Rightarrow> True | Some s \<Rightarrow> traceparent_pattern s)
   \<and> (case run_tracestate (rr_run r) of None \<Rightarrow> True
      | Some s \<Rightarrow> 1 \<le> utf8_length s \<and> utf8_length s \<le> 512)
   \<and> run_lifecycle_ok (rr_run r)
   \<and> (rr_status r = RETRY_PENDING \<longleftrightarrow> rr_retry_ready_at r \<noteq> None)"

definition lease_row_ok :: "RunLeaseRecord \<Rightarrow> bool" where
  "lease_row_ok l \<longleftrightarrow>
     1 \<le> le_generation l \<and> le_acquired_at l \<le> le_last_heartbeat_at l
   \<and> le_last_heartbeat_at l < le_expires_at l"

definition workspace_row_ok :: "WorkspaceLeaseRecord \<Rightarrow> bool" where
  "workspace_row_ok w \<longleftrightarrow>
     0 \<le> ws_generation w
   \<and> ((ws_run_id w = None \<and> ws_worker_id w = None \<and> ws_run_lease_token w = None
        \<and> ws_lease_token w = None \<and> ws_acquired_at w = None \<and> ws_expires_at w = None)
      \<or> (ws_run_id w \<noteq> None \<and> ws_worker_id w \<noteq> None \<and> ws_run_lease_token w \<noteq> None
        \<and> ws_lease_token w \<noteq> None
        \<and> (case (ws_acquired_at w, ws_expires_at w) of (Some a, Some x) \<Rightarrow> a < x | _ \<Rightarrow> False)))"

definition quota_ok :: "TenantQuota \<Rightarrow> bool" where
  "quota_ok q \<longleftrightarrow>
     1 \<le> tq_max_active_runs q \<and> tq_max_active_runs q \<le> 10000
   \<and> 1 \<le> tq_max_queued_runs q \<and> tq_max_queued_runs q \<le> 100000
   \<and> 1 \<le> tq_max_gateway_requests q \<and> tq_max_gateway_requests q \<le> 10000"

definition quota_row_ok :: "TenantQuotaRecord \<Rightarrow> bool" where
  "quota_row_ok q \<longleftrightarrow> quota_ok (tqr_quota q) \<and> tqr_created_at q \<le> tqr_updated_at q"

definition admission_row_ok :: "QueueAdmissionRecord \<Rightarrow> bool" where
  "admission_row_ok a \<longleftrightarrow>
     1 \<le> qa_global_queue_limit a \<and> qa_global_queue_limit a \<le> 1000000
   \<and> 0 < qa_retry_after_seconds a \<and> qa_retry_after_seconds a \<le> 3600
   \<and> qa_created_at a \<le> qa_updated_at a"

definition memory_job_row_ok :: "MemoryExtractionJobRecord \<Rightarrow> bool" where
  "memory_job_row_ok j \<longleftrightarrow>
     1 \<le> mj_attempt j \<and> mj_attempt j \<le> 100 \<and> 0 \<le> mj_lease_generation j
   \<and> 0 \<le> mj_source_message_sequence j \<and> 1 \<le> mj_execution_epoch j
   \<and> is_ok (memory_job_validate_lifecycle j)
   \<and> (mj_status j = MEM_PENDING \<longrightarrow> mj_lease_generation j = 0)"

definition message_row_ok :: "MessageRecord \<Rightarrow> bool" where
  "message_row_ok m \<longleftrightarrow> 1 \<le> pm_sequence (mr_message m) \<and> 1 \<le> pm_execution_epoch (mr_message m)"

definition task_plan_row_ok :: "TaskPlanRecord \<Rightarrow> bool" where
  "task_plan_row_ok p \<longleftrightarrow> 1 \<le> pp_version (tp_plan p) \<and> 1 \<le> pp_execution_epoch (tp_plan p)"

definition tool_call_row_ok :: "ToolCallRecord \<Rightarrow> bool" where
  "tool_call_row_ok r = (let t = tc_call r in
     1 \<le> tool_turn_number t \<and> 1 \<le> tool_execution_epoch t
   \<and> length (tool_argument_hash t) = 64 \<and> list_all hex_char (tool_argument_hash t)
   \<and> (case (tool_completed_at t, tool_started_at t) of (Some c, Some s) \<Rightarrow> s \<le> c | _ \<Rightarrow> True)
   \<and> (tool_status t \<in> {TOOL_RUNNING, TOOL_COMPLETED} \<longrightarrow> tool_started_at t \<noteq> None)
   \<and> (tool_status t \<in> terminal_tool_statuses \<longleftrightarrow> tool_completed_at t \<noteq> None)
   \<and> (tool_result t \<noteq> None \<longleftrightarrow> tool_status t = TOOL_COMPLETED)
   \<and> (tool_error t \<noteq> None \<longleftrightarrow> tool_status t \<in> {TOOL_FAILED, TOOL_CANCELLED}))"

definition approval_row_ok :: "ApprovalRecord \<Rightarrow> bool" where
  "approval_row_ok r = (let a = ap_approval r in
     (if pa_status a = APPROVAL_PENDING then pa_decided_by a = None \<and> pa_decided_at a = None
      else pa_decided_by a \<noteq> None
         \<and> (case pa_decided_at a of None \<Rightarrow> False | Some t \<Rightarrow> pa_requested_at a \<le> t))
   \<and> (case pa_response a of None \<Rightarrow> True | Some s \<Rightarrow> 1 \<le> utf8_length s \<and> utf8_length s \<le> 65536)
   \<and> 1 \<le> pa_execution_epoch a)"

definition checkpoint_row_ok :: "CheckpointRecord \<Rightarrow> bool" where
  "checkpoint_row_ok r \<longleftrightarrow>
     0 \<le> cp_message_sequence (cr_checkpoint r) \<and> 1 \<le> cp_execution_epoch (cr_checkpoint r)
   \<and> (cr_completed_snapshot_uri r = None \<longleftrightarrow> cr_completed_revision r = None)"

definition model_call_row_ok :: "ModelCallRecord \<Rightarrow> bool" where
  "model_call_row_ok r = (let m = mc_call r in
     1 \<le> mc_execution_epoch m \<and> 0 \<le> mc_retry_count m \<and> 0 \<le> mc_fallback_count m
   \<and> nonneg_option (mc_input_tokens m) \<and> nonneg_option (mc_output_tokens m)
   \<and> nonneg_option (mc_cached_tokens m) \<and> nonneg_option (mc_estimated_cost_usd m)
   \<and> (case mc_first_token_at m of None \<Rightarrow> True | Some t \<Rightarrow> mc_started_at m \<le> t)
   \<and> (case mc_completed_at m of None \<Rightarrow> True | Some t \<Rightarrow> mc_started_at m \<le> t)
   \<and> (case (mc_first_token_at m, mc_completed_at m) of (Some f, Some c) \<Rightarrow> f \<le> c | _ \<Rightarrow> True)
   \<and> (mc_status m = MODEL_STREAMING \<longrightarrow> mc_first_token_at m \<noteq> None)
   \<and> (mc_status m \<in> terminal_model_statuses \<longleftrightarrow> mc_completed_at m \<noteq> None))"

definition compaction_row_ok :: "ContextCompactionRecord \<Rightarrow> bool" where
  "compaction_row_ok r = (let c = cc_compaction r;
        ended = (case pc_completed_at c of None \<Rightarrow> False | Some t \<Rightarrow> pc_requested_at c \<le> t)
     in 0 \<le> pc_source_message_sequence c \<and> 1 \<le> pc_context_generation c
      \<and> (case pc_status c of
           COMPACTION_PENDING \<Rightarrow> pc_summary c = None \<and> pc_input_tokens c = None \<and> pc_output_tokens c = None
             \<and> pc_error c = None \<and> pc_completed_at c = None
         | COMPACTION_COMPLETED \<Rightarrow>
             (case pc_summary c of None \<Rightarrow> False | Some s \<Rightarrow> 0 < utf8_length s \<and> utf8_length s \<le> 262144)
             \<and> (case pc_input_tokens c of None \<Rightarrow> False | Some n \<Rightarrow> 0 \<le> n)
             \<and> (case pc_output_tokens c of None \<Rightarrow> False | Some n \<Rightarrow> 0 \<le> n)
             \<and> pc_error c = None \<and> ended
         | COMPACTION_FAILED \<Rightarrow> pc_summary c = None \<and> pc_input_tokens c = None
             \<and> pc_output_tokens c = None \<and> pc_error c \<noteq> None \<and> ended))"

subsection \<open>Constraints of the tables\<close>

text \<open>
  The tables of the queue: workers, sessions, runs, leases, quotas and admission.
\<close>

definition rows_ok :: "database \<Rightarrow> bool" where
  "rows_ok db \<longleftrightarrow>
     list_all worker_row_ok (db_workers db) \<and> list_all session_row_ok (db_sessions db)
   \<and> list_all run_row_ok (db_runs db) \<and> list_all lease_row_ok (db_run_leases db)
   \<and> list_all workspace_row_ok (db_workspace_leases db)
   \<and> list_all quota_row_ok (db_quotas db)
   \<and> (case db_admission db of None \<Rightarrow> True | Some a \<Rightarrow> admission_row_ok a)"

definition unique_ok :: "database \<Rightarrow> bool" where
  "unique_ok db \<longleftrightarrow>
     distinct (map wr_worker_id (db_workers db))
   \<and> distinct (map session_id (db_sessions db))
   \<and> distinct (map rr_id (db_runs db))
   \<and> distinct (map (\<lambda>r. (rr_tenant_id r, run_session_id (rr_run r), rr_idempotency_key r)) (db_runs db))
   \<and> distinct (map le_run_id (db_run_leases db))
   \<and> distinct (map le_lease_token (db_run_leases db))
   \<and> distinct (map ws_key (db_workspace_leases db))
   \<and> distinct (filter (\<lambda>t. t \<noteq> None) (map ws_lease_token (db_workspace_leases db)))
   \<and> distinct (map tqr_tenant_id (db_quotas db))"

type_synonym run_columns = "uuid \<times> uuid \<times> uuid \<times> uuid"

definition lease_refers :: "run_columns list \<Rightarrow> string list \<Rightarrow> RunLeaseRecord \<Rightarrow> bool" where
  "lease_refers runs workers l \<longleftrightarrow>
     (\<exists>(t, i, s, w) \<in> set runs. t = le_tenant_id l \<and> i = le_run_id l) \<and> le_worker_id l \<in> set workers"

definition workspace_refers :: "run_columns list \<Rightarrow> string list \<Rightarrow> WorkspaceLeaseRecord \<Rightarrow> bool" where
  "workspace_refers runs workers k \<longleftrightarrow>
     (case ws_run_id k of None \<Rightarrow> True
      | Some r \<Rightarrow> (\<exists>(t, i, s, w) \<in> set runs. t = ws_tenant_id k \<and> i = r \<and> w = ws_workspace_id k))
   \<and> (case ws_worker_id k of None \<Rightarrow> True | Some i \<Rightarrow> i \<in> set workers)"

definition foreign_keys_ok :: "database \<Rightarrow> bool" where
  "foreign_keys_ok db \<longleftrightarrow>
     list_all (\<lambda>(t, _, s, w). (t, s, w) \<in> set (map session_key (db_sessions db))) (map run_key (db_runs db))
   \<and> list_all (lease_refers (map run_key (db_runs db)) (map wr_worker_id (db_workers db))) (db_run_leases db)
   \<and> list_all (workspace_refers (map run_key (db_runs db)) (map wr_worker_id (db_workers db)))
       (db_workspace_leases db)"

text \<open>
  The tables of an execution: messages, plans, tool calls, approvals, checkpoints, memory
  jobs. Their foreign keys lead to \<open>runs\<close>, and from an approval to its tool call.
\<close>

definition execution_rows_ok :: "database \<Rightarrow> bool" where
  "execution_rows_ok db \<longleftrightarrow>
     list_all message_row_ok (db_messages db) \<and> list_all task_plan_row_ok (db_task_plans db)
   \<and> list_all tool_call_row_ok (db_tool_calls db) \<and> list_all approval_row_ok (db_approvals db)
   \<and> list_all checkpoint_row_ok (db_checkpoints db)
   \<and> list_all memory_job_row_ok (db_memory_jobs db)
   \<and> list_all model_call_row_ok (db_model_calls db) \<and> list_all compaction_row_ok (db_compactions db)"

definition message_key :: "MessageRecord \<Rightarrow> uuid \<times> uuid \<times> int" where
  "message_key m = (mr_tenant_id m, pm_session_id (mr_message m), pm_sequence (mr_message m))"

definition task_plan_key :: "TaskPlanRecord \<Rightarrow> uuid \<times> uuid \<times> int \<times> int" where
  "task_plan_key p =
     (tp_tenant_id p, pp_run_id (tp_plan p), pp_execution_epoch (tp_plan p), pp_version (tp_plan p))"

definition tool_call_key :: "ToolCallRecord \<Rightarrow> uuid \<times> uuid \<times> int \<times> string" where
  "tool_call_key t =
     (tc_tenant_id t, tool_run_id (tc_call t), tool_execution_epoch (tc_call t), tool_id (tc_call t))"

definition approval_tool_key :: "ApprovalRecord \<Rightarrow> (uuid \<times> uuid \<times> int \<times> string) option" where
  "approval_tool_key a =
     map_option (\<lambda>i. (ap_tenant_id a, pa_run_id (ap_approval a), pa_execution_epoch (ap_approval a), i))
       (ap_tool_call_id a)"

definition checkpoint_key :: "CheckpointRecord \<Rightarrow> uuid \<times> uuid \<times> int \<times> string" where
  "checkpoint_key c =
     (cr_tenant_id c, cp_run_id (cr_checkpoint c), cp_execution_epoch (cr_checkpoint c),
      cp_tool_call_id (cr_checkpoint c))"

definition memory_job_key :: "MemoryExtractionJobRecord \<Rightarrow> uuid \<times> uuid \<times> int" where
  "memory_job_key j = (mj_tenant_id j, mj_run_id j, mj_execution_epoch j)"

definition model_call_key :: "ModelCallRecord \<Rightarrow> uuid \<times> uuid \<times> int \<times> string" where
  "model_call_key m =
     (mc_tenant_id m, mc_run_id (mc_call m), mc_execution_epoch (mc_call m), mc_id (mc_call m))"

definition model_request_key :: "ModelCallRecord \<Rightarrow> uuid \<times> uuid \<times> int \<times> string" where
  "model_request_key m =
     (mc_tenant_id m, mc_run_id (mc_call m), mc_execution_epoch (mc_call m), mc_request_id (mc_call m))"

definition compaction_session :: "ContextCompactionRecord \<Rightarrow> uuid \<times> uuid" where
  "compaction_session c = (cc_tenant_id c, pc_session_id (cc_compaction c))"

definition compaction_unique_ok :: "ContextCompactionRecord list \<Rightarrow> bool" where
  "compaction_unique_ok cs \<longleftrightarrow>
     distinct (map (pc_id \<circ> cc_compaction) cs)
   \<and> distinct (map (\<lambda>c. (compaction_session c, pc_idempotency_key (cc_compaction c))) cs)
   \<and> distinct (map compaction_session (filter (\<lambda>c. pc_status (cc_compaction c) = COMPACTION_PENDING) cs))"

definition execution_unique_ok :: "database \<Rightarrow> bool" where
  "execution_unique_ok db \<longleftrightarrow>
     distinct (map (pm_id \<circ> mr_message) (db_messages db)) \<and> distinct (map message_key (db_messages db))
   \<and> distinct (map (pp_id \<circ> tp_plan) (db_task_plans db)) \<and> distinct (map task_plan_key (db_task_plans db))
   \<and> distinct (map tool_call_key (db_tool_calls db))
   \<and> distinct (map (pa_id \<circ> ap_approval) (db_approvals db))
   \<and> distinct (filter (\<lambda>k. k \<noteq> None) (map approval_tool_key (db_approvals db)))
   \<and> distinct (map (cp_id \<circ> cr_checkpoint) (db_checkpoints db))
   \<and> distinct (map checkpoint_key (db_checkpoints db))
   \<and> distinct (map mj_id (db_memory_jobs db)) \<and> distinct (map memory_job_key (db_memory_jobs db))
   \<and> distinct (filter (\<lambda>t. t \<noteq> None) (map mj_lease_token (db_memory_jobs db)))
   \<and> distinct (map model_call_key (db_model_calls db)) \<and> distinct (map model_request_key (db_model_calls db))
   \<and> compaction_unique_ok (db_compactions db)"

definition run_exists :: "run_columns list \<Rightarrow> uuid \<Rightarrow> uuid \<Rightarrow> bool" where
  "run_exists runs tenant run \<longleftrightarrow> (\<exists>(t, i, s, w) \<in> set runs. t = tenant \<and> i = run)"

definition run_of_session :: "run_columns list \<Rightarrow> uuid \<Rightarrow> uuid \<Rightarrow> uuid \<Rightarrow> bool" where
  "run_of_session runs tenant run session \<longleftrightarrow>
     (\<exists>(t, i, s, w) \<in> set runs. t = tenant \<and> i = run \<and> s = session)"

definition execution_refers :: "run_columns list \<Rightarrow> database \<Rightarrow> bool" where
  "execution_refers runs db \<longleftrightarrow>
     list_all (\<lambda>m. run_of_session runs (mr_tenant_id m) (pm_run_id (mr_message m))
                   (pm_session_id (mr_message m))) (db_messages db)
   \<and> list_all (\<lambda>p. run_exists runs (tp_tenant_id p) (pp_run_id (tp_plan p))) (db_task_plans db)
   \<and> list_all (\<lambda>t. run_exists runs (tc_tenant_id t) (tool_run_id (tc_call t))) (db_tool_calls db)
   \<and> list_all (\<lambda>a. run_exists runs (ap_tenant_id a) (pa_run_id (ap_approval a))
        \<and> (case approval_tool_key a of None \<Rightarrow> True | Some k \<Rightarrow> k \<in> set (map tool_call_key (db_tool_calls db))))
       (db_approvals db)
   \<and> list_all (\<lambda>c. run_of_session runs (cr_tenant_id c) (cp_run_id (cr_checkpoint c))
                   (cp_session_id (cr_checkpoint c))) (db_checkpoints db)
   \<and> list_all (\<lambda>j. run_of_session runs (mj_tenant_id j) (mj_run_id j) (mj_session_id j)) (db_memory_jobs db)
   \<and> list_all (\<lambda>m. run_exists runs (mc_tenant_id m) (mc_run_id (mc_call m))) (db_model_calls db)"

definition compaction_refers :: "(uuid \<times> uuid \<times> uuid) list \<Rightarrow> ContextCompactionRecord \<Rightarrow> bool" where
  "compaction_refers sessions c \<longleftrightarrow>
     (\<exists>(t, s, w) \<in> set sessions. (t, s) = compaction_session c)"

definition checkpoint_refers :: "CheckpointRecord list \<Rightarrow> RunRecord \<Rightarrow> bool" where
  "checkpoint_refers checkpoints r \<longleftrightarrow>
     (case run_last_checkpoint_id (rr_run r) of None \<Rightarrow> True
      | Some c \<Rightarrow> (rr_tenant_id r, rr_id r, c)
          \<in> (\<lambda>k. (cr_tenant_id k, cp_run_id (cr_checkpoint k), cp_id (cr_checkpoint k))) ` set checkpoints)"

definition execution_keys_ok :: "database \<Rightarrow> bool" where
  "execution_keys_ok db \<longleftrightarrow>
     execution_refers (map run_key (db_runs db)) db
   \<and> list_all (checkpoint_refers (db_checkpoints db)) (db_runs db)
   \<and> list_all (compaction_refers (map session_key (db_sessions db))) (db_compactions db)"

definition constraints_ok :: "database \<Rightarrow> bool" where
  "constraints_ok db \<longleftrightarrow>
     rows_ok db \<and> unique_ok db \<and> foreign_keys_ok db
   \<and> execution_rows_ok db \<and> execution_unique_ok db \<and> execution_keys_ok db"

definition flush :: "database \<Rightarrow> database result" where
  "flush db = (if constraints_ok db then Inr db else Inl (IntegrityError ''constraint''))"

lemma flush_eq_Inr [simp]: "flush db = Inr db' \<longleftrightarrow> db' = db \<and> constraints_ok db"
  by (auto simp: flush_def)

subsection \<open>Row loading and writing\<close>

text \<open>\<open>_run_domain\<close> and \<open>_apply_run\<close> of \<open>repositories.py\<close>.\<close>

definition run_domain :: "RunRecord \<Rightarrow> Run result" where
  "run_domain record = run_model_validate (rr_run record)"

definition apply_run :: "RunRecord \<Rightarrow> Run \<Rightarrow> RunRecord" where
  "apply_run record run = record\<lparr>rr_run := (rr_run record)\<lparr>
     run_status := run_status run,
     run_attempt := run_attempt run,
     run_execution_epoch := run_execution_epoch run,
     run_assigned_worker_id := run_assigned_worker_id run,
     run_lease_expires_at := run_lease_expires_at run,
     run_last_checkpoint_id := run_last_checkpoint_id run,
     run_cancellation_requested := run_cancellation_requested run,
     run_traceparent := run_traceparent run,
     run_tracestate := run_tracestate run,
     run_started_at := run_started_at run,
     run_completed_at := run_completed_at run\<rparr>\<rparr>"

definition ensure_tenant_quota ::
    "uuid \<Rightarrow> TenantQuota \<Rightarrow> timestamp \<Rightarrow> TenantQuotaRecord transaction" where
  "ensure_tenant_quota tenant default_quota occurred_at db =
     (let quotas =
        (if list_ex (\<lambda>q. tqr_tenant_id q = tenant) (db_quotas db) then db_quotas db
         else db_quotas db @ [\<lparr>tqr_tenant_id = tenant, tqr_quota = default_quota,
                               tqr_created_at = occurred_at, tqr_updated_at = occurred_at\<rparr>])
      in case select_one (\<lambda>q. tqr_tenant_id q = tenant) quotas of
           None \<Rightarrow> Inl (RuntimeError ''tenant quota row disappeared'')
         | Some q \<Rightarrow> Inr (q, db\<lparr>db_quotas := quotas\<rparr>))"

text \<open>
  The fields that a transition never touches keep the row and the returned run equal:
  applying to the row what \<open>transition_run\<close> returned makes the row's run that run.
\<close>

lemma apply_run_same:
  assumes "run_id r = run_id (rr_run row)" "run_session_id r = run_session_id (rr_run row)"
    "run_workspace_id r = run_workspace_id (rr_run row)" "run_priority r = run_priority (rr_run row)"
    "run_priority_class r = run_priority_class (rr_run row)"
    "run_created_at r = run_created_at (rr_run row)"
  shows "apply_run row r = row\<lparr>rr_run := r\<rparr>"
  using assms by (cases r; cases "rr_run row") (simp add: apply_run_def)

lemma apply_run_transition [simp]:
  "apply_run row (transition_spec (rr_run row) s t w x) =
     row\<lparr>rr_run := transition_spec (rr_run row) s t w x\<rparr>"
  by (rule apply_run_same) simp_all

lemma run_domain_ok: "run_valid (rr_run row) \<Longrightarrow> run_domain row = Inr (rr_run row)"
  by (simp add: run_domain_def run_model_validate_complete)

lemma ensure_tenant_quota_ok:
  "\<exists>q quotas. ensure_tenant_quota tenant d t db = Inr (q, db\<lparr>db_quotas := quotas\<rparr>)
     \<and> tqr_tenant_id q = tenant \<and> q \<in> set quotas
     \<and> (distinct (map tqr_tenant_id (db_quotas db)) \<longrightarrow> distinct (map tqr_tenant_id quotas))
     \<and> (quota_ok d \<longrightarrow> list_all quota_row_ok (db_quotas db) \<longrightarrow> list_all quota_row_ok quotas)"
proof -
  let ?row = "\<lparr>tqr_tenant_id = tenant, tqr_quota = d, tqr_created_at = t, tqr_updated_at = t\<rparr>"
  let ?quotas = "if list_ex (\<lambda>q. tqr_tenant_id q = tenant) (db_quotas db) then db_quotas db
    else db_quotas db @ [?row]"
  have "select_one (\<lambda>q. tqr_tenant_id q = tenant) ?quotas \<noteq> None"
    by (auto simp: select_one_None list_ex_iff)
  then obtain q where q: "select_one (\<lambda>q. tqr_tenant_id q = tenant) ?quotas = Some q" by blast
  then have "ensure_tenant_quota tenant d t db = Inr (q, db\<lparr>db_quotas := ?quotas\<rparr>)"
    unfolding ensure_tenant_quota_def Let_def by (simp only: option.case)
  moreover have "tqr_tenant_id q = tenant \<and> q \<in> set ?quotas" using select_one_Some [OF q] by blast
  moreover have "distinct (map tqr_tenant_id (db_quotas db)) \<longrightarrow> distinct (map tqr_tenant_id ?quotas)"
    by (auto simp: list_ex_iff)
  moreover have "quota_ok d \<longrightarrow> list_all quota_row_ok (db_quotas db) \<longrightarrow> list_all quota_row_ok ?quotas"
    by (simp add: quota_row_ok_def)
  ultimately show ?thesis by blast
qed

end
