(* ===== verification/Run_Queue.thy ===== *)
theory Run_Queue
  imports Database
begin

section \<open>The run queue\<close>

text \<open>
  \<open>PostgresRunQueue\<close> of \<open>platform_persistence/distributed.py\<close>: worker registration and
  liveness, the claim transaction, start, heartbeat and finish of a leased run, recovery of
  expired leases, the queue snapshot and the authorization of sandbox requests.

  Every public operation is one transaction. Row locks serialize the transactions that
  touch the same rows, so each runs as one step on the database; what another transaction
  holds is seen only through \<open>SKIP LOCKED\<close>, and \<open>locks\<close> says which rows those are. The
  token factory's results are arguments (\<open>None\<close> is a value that is no UUID), and so is
  \<open>uuid5\<close>, the name-based identifier of the memory job. Waking a scheduler after recovery
  sends a notification and does not touch the database.
\<close>

subsection \<open>Configuration and helpers\<close>

record queue_config =
  qc_default_quota :: TenantQuota
  qc_admission_policy :: QueueAdmissionPolicy

record row_locks =
  lk_runs :: "uuid \<Rightarrow> bool"
  lk_leases :: "uuid \<Rightarrow> bool"
  lk_workspaces :: "uuid \<times> uuid \<Rightarrow> bool"

definition MAX_RECOVERY_RUNS :: int where
  "MAX_RECOVERY_RUNS = 1000"

definition MAX_LEASE_SECONDS :: int where
  "MAX_LEASE_SECONDS = 3600"

definition MAX_CLAIM_CANDIDATES :: nat where
  "MAX_CLAIM_CANDIDATES = 1000"

definition operation_time :: "datetime \<Rightarrow> string \<Rightarrow> timestamp result" where
  "operation_time v code =
     (case normalize_timestamp v of
        Inl e \<Rightarrow> Inl (domain_error code (value_error_text e) False [])
      | Inr t \<Rightarrow> Inr t)"

definition lease_expiry :: "timestamp \<Rightarrow> timedelta \<Rightarrow> string \<Rightarrow> timestamp result" where
  "lease_expiry occurred_at duration code =
     (if \<not> (0 < duration \<and> duration \<le> MAX_LEASE_SECONDS * microseconds_per_second)
      then Inl (domain_error code ''lease duration must be in (0, 3600] seconds'' False [])
      else Inr (occurred_at + duration))"

definition worker_domain :: "WorkerRecord \<Rightarrow> WorkerRegistration result" where
  "worker_domain record = worker_model_validate record"

definition run_lease_domain :: "RunLeaseRecord \<Rightarrow> RunRecord \<Rightarrow> string \<Rightarrow> RunLease result" where
  "run_lease_domain record run route_name = run_lease_model_validate
     \<lparr>rl_tenant_id = le_tenant_id record,
      rl_run_id = le_run_id record,
      rl_session_id = run_session_id (rr_run run),
      rl_workspace_id = run_workspace_id (rr_run run),
      rl_worker_id = le_worker_id record,
      rl_route_name = route_name,
      rl_lease_token = le_lease_token record,
      rl_generation = le_generation record,
      rl_attempt = run_attempt (rr_run run),
      rl_execution_epoch = run_execution_epoch (rr_run run),
      rl_priority = run_priority (rr_run run),
      rl_priority_class = run_priority_class (rr_run run),
      rl_queued_at = Some (run_created_at (rr_run run)),
      rl_acquired_at = le_acquired_at record,
      rl_expires_at = le_expires_at record,
      rl_checkpoint_id = run_last_checkpoint_id (rr_run run),
      rl_cancellation_requested = run_cancellation_requested (rr_run run),
      rl_traceparent = run_traceparent (rr_run run),
      rl_tracestate = run_tracestate (rr_run run)\<rparr>"

definition run_id_details :: "uuid \<Rightarrow> json_object" where
  "run_id_details i = [(''run_id'', JStr (uuid_str i))]"

definition worker_id_details :: "string \<Rightarrow> json_object" where
  "worker_id_details i = [(''worker_id'', JStr i)]"

definition lease_matches :: "RunLeaseRecord \<Rightarrow> RunLease \<Rightarrow> bool" where
  "lease_matches record lease \<longleftrightarrow>
     le_tenant_id record = rl_tenant_id lease \<and> le_run_id record = rl_run_id lease
   \<and> le_worker_id record = rl_worker_id lease \<and> le_lease_token record = rl_lease_token lease
   \<and> le_generation record = rl_generation lease"

definition assert_matching_run_lease ::
    "RunLeaseRecord option \<Rightarrow> RunLease \<Rightarrow> RunLeaseRecord result" where
  "assert_matching_run_lease record lease =
     (case record of
        Some l \<Rightarrow>
          if lease_matches l lease then Inr l
          else Inl (domain_error ''run_lease_lost''
                 ''the run lease is no longer owned by this worker'' True
                 (run_id_details (rl_run_id lease)))
      | None \<Rightarrow> Inl (domain_error ''run_lease_lost''
                 ''the run lease is no longer owned by this worker'' True
                 (run_id_details (rl_run_id lease))))"

definition require_unexpired :: "RunLeaseRecord \<Rightarrow> timestamp \<Rightarrow> uuid \<Rightarrow> unit result" where
  "require_unexpired lease_row occurred_at i =
     (if le_expires_at lease_row \<le> occurred_at
      then Inl (domain_error ''run_lease_expired'' ''the run lease expired before the operation'' True
             (run_id_details i))
      else Inr ())"

definition active_worker_leases :: "database \<Rightarrow> string \<Rightarrow> nat" where
  "active_worker_leases db worker_id =
     count_where (\<lambda>l. le_worker_id l = worker_id) (db_run_leases db)"

definition return_worker_slot :: "string \<Rightarrow> database \<Rightarrow> database" where
  "return_worker_slot worker_id db =
     (case select_one (\<lambda>w. wr_worker_id w = worker_id) (db_workers db) of
        None \<Rightarrow> db
      | Some w \<Rightarrow> db\<lparr>db_workers := put_row wr_worker_id
          (w\<lparr>wr_available_slots := min (wr_total_slots w) (wr_available_slots w + 1)\<rparr>) (db_workers db)\<rparr>)"

definition clear_workspace_owner :: "WorkspaceLeaseRecord \<Rightarrow> WorkspaceLeaseRecord" where
  "clear_workspace_owner record = record\<lparr>
     ws_run_id := None, ws_worker_id := None, ws_run_lease_token := None,
     ws_lease_token := None, ws_acquired_at := None, ws_expires_at := None\<rparr>"

definition release_workspace_for_run :: "RunLeaseRecord \<Rightarrow> database \<Rightarrow> database" where
  "release_workspace_for_run lease db =
     (case select_one (\<lambda>w. ws_run_lease_token w = Some (le_lease_token lease)) (db_workspace_leases db) of
        None \<Rightarrow> db
      | Some w \<Rightarrow> db\<lparr>db_workspace_leases :=
          put_row ws_key (clear_workspace_owner w) (db_workspace_leases db)\<rparr>)"

definition delete_lease :: "RunLeaseRecord \<Rightarrow> database \<Rightarrow> database" where
  "delete_lease lease db =
     db\<lparr>db_run_leases := delete_where (\<lambda>l. le_run_id l = le_run_id lease) (db_run_leases db)\<rparr>"

definition put_run :: "RunRecord \<Rightarrow> database \<Rightarrow> database" where
  "put_run row db = db\<lparr>db_runs := put_row rr_id row (db_runs db)\<rparr>"

definition new_token :: "uuid option \<Rightarrow> uuid result" where
  "new_token token =
     (case token of
        None \<Rightarrow> Inl (domain_error ''lease_token_invalid''
                       ''the lease token factory returned an invalid value'' False [])
      | Some t \<Rightarrow> Inr t)"

subsection \<open>Workers\<close>

definition register_worker :: "WorkerRegistration \<Rightarrow> WorkerRegistration transaction" where
  "register_worker registration db =
     (case select_one (\<lambda>w. wr_worker_id w = wr_worker_id registration) (db_workers db) of
        None \<Rightarrow>
          bindE (flush (db\<lparr>db_workers := db_workers db @ [registration]\<rparr>)) (\<lambda>db'.
          bindE (worker_domain registration) (\<lambda>w. Inr (w, db')))
      | Some row \<Rightarrow>
          if wr_last_heartbeat_at registration < wr_last_heartbeat_at row
          then Inl (domain_error ''worker_heartbeat_stale''
                 ''worker registration may not move liveness backward'' False
                 (worker_id_details (wr_worker_id row)))
          else
            let active_count = int (active_worker_leases db (wr_worker_id row))
            in if wr_total_slots registration < active_count
               then Inl (domain_error ''worker_capacity_conflict''
                      ''worker capacity may not be reduced below active leases'' False
                      (worker_id_details (wr_worker_id row) @ [(''active_leases'', JInt active_count)]))
               else
                 let row' = row\<lparr>
                       wr_supported_sandbox_types := wr_supported_sandbox_types registration,
                       wr_total_slots := wr_total_slots registration,
                       wr_available_slots := min (wr_available_slots registration)
                                               (wr_total_slots registration - active_count),
                       wr_status := wr_status registration,
                       wr_last_heartbeat_at := wr_last_heartbeat_at registration\<rparr>
                 in bindE (flush (db\<lparr>db_workers := put_row wr_worker_id row' (db_workers db)\<rparr>)) (\<lambda>db'.
                    bindE (worker_domain row') (\<lambda>w. Inr (w, db'))))"

definition worker_not_registered :: "string \<Rightarrow> py_error" where
  "worker_not_registered worker_id =
     domain_error ''worker_not_registered'' ''the worker is not registered'' False
       (worker_id_details worker_id)"

definition heartbeat_worker ::
    "string \<Rightarrow> datetime \<Rightarrow> pyval \<Rightarrow> WorkerRegistration transaction" where
  "heartbeat_worker worker_id occurred_at available_slots db =
     bindE (operation_time occurred_at ''worker_heartbeat_invalid'') (\<lambda>timestamp.
     case select_one (\<lambda>w. wr_worker_id w = worker_id) (db_workers db) of
       None \<Rightarrow> Inl (worker_not_registered worker_id)
     | Some row \<Rightarrow>
         if timestamp < wr_last_heartbeat_at row
         then Inl (domain_error ''worker_heartbeat_stale''
                ''worker heartbeat may not move liveness backward'' False (worker_id_details worker_id))
         else (case available_slots of
             PyInt n \<Rightarrow>
               if 0 \<le> n \<and> n \<le> wr_total_slots row then
                 let active_count = int (active_worker_leases db worker_id);
                     row' = row\<lparr>wr_available_slots := min n (wr_total_slots row - active_count),
                                wr_last_heartbeat_at := timestamp\<rparr>
                 in bindE (flush (db\<lparr>db_workers := put_row wr_worker_id row' (db_workers db)\<rparr>)) (\<lambda>db'.
                    bindE (worker_domain row') (\<lambda>w. Inr (w, db')))
               else Inl (domain_error ''worker_capacity_invalid''
                      ''available worker slots are outside the registered capacity'' False
                      (worker_id_details worker_id))
           | _ \<Rightarrow> Inl (domain_error ''worker_capacity_invalid''
                      ''available worker slots are outside the registered capacity'' False
                      (worker_id_details worker_id))))"

definition set_worker_draining :: "string \<Rightarrow> bool \<Rightarrow> datetime \<Rightarrow> WorkerRegistration transaction" where
  "set_worker_draining worker_id draining occurred_at db =
     bindE (operation_time occurred_at ''worker_drain_invalid'') (\<lambda>timestamp.
     case select_one (\<lambda>w. wr_worker_id w = worker_id) (db_workers db) of
       None \<Rightarrow> Inl (worker_not_registered worker_id)
     | Some row \<Rightarrow>
         if timestamp < wr_last_heartbeat_at row
         then Inl (domain_error ''worker_heartbeat_stale''
                ''worker drain state may not move liveness backward'' False (worker_id_details worker_id))
         else
           let row' = row\<lparr>wr_status := (if draining then WORKER_DRAINING else WORKER_ACTIVE),
                          wr_last_heartbeat_at := timestamp\<rparr>
           in bindE (flush (db\<lparr>db_workers := put_row wr_worker_id row' (db_workers db)\<rparr>)) (\<lambda>db'.
              bindE (worker_domain row') (\<lambda>w. Inr (w, db'))))"

subsection \<open>Claiming\<close>

text \<open>
  The scheduling order: class rank plus age boost first, then the explicit priority, then
  age, then the id. \<open>ORDER BY ... DESC\<close> sorts by the negated column.
\<close>

fun class_rank :: "RunPriorityClass \<Rightarrow> int" where
  "class_rank INTERACTIVE = 2"
| "class_rank BACKGROUND = 1"
| "class_rank EVALUATION = 0"

definition age_boost :: "QueueAdmissionPolicy \<Rightarrow> timestamp \<Rightarrow> timestamp \<Rightarrow> int" where
  "age_boost policy timestamp created_at =
     max 0 (min 2 \<lfloor>(of_int (timestamp - created_at) / of_int microseconds_per_second)
                     / qp_priority_aging_seconds policy\<rfloor>)"

definition claim_order :: "QueueAdmissionPolicy \<Rightarrow> timestamp \<Rightarrow> RunRecord \<Rightarrow> int list" where
  "claim_order policy timestamp r =
     [- (class_rank (run_priority_class (rr_run r)) + age_boost policy timestamp (run_created_at (rr_run r))),
      - run_priority (rr_run r),
      run_created_at (rr_run r),
      int (rr_id r)]"

definition run_session :: "database \<Rightarrow> RunRecord \<Rightarrow> SessionRecord option" where
  "run_session db r =
     select_one (\<lambda>s. session_tenant_id s = rr_tenant_id r \<and> session_id s = run_session_id (rr_run r))
       (db_sessions db)"

definition run_workspace_key :: "RunRecord \<Rightarrow> uuid \<times> uuid" where
  "run_workspace_key r = (rr_tenant_id r, run_workspace_id (rr_run r))"

definition claimable :: "database \<Rightarrow> RunRecord \<Rightarrow> bool" where
  "claimable db r \<longleftrightarrow>
     rr_status r = QUEUED \<and> \<not> run_cancellation_requested (rr_run r)
   \<and> \<not> list_ex (\<lambda>w. ws_key w = run_workspace_key r \<and> ws_lease_token w \<noteq> None) (db_workspace_leases db)
   \<and> run_session db r \<noteq> None"

text \<open>
  The row of a workspace: inserted free with generation 0 when it is missing, skipped when
  another transaction holds it.
\<close>

definition claim_workspace ::
    "(uuid \<times> uuid \<Rightarrow> bool) \<Rightarrow> uuid \<times> uuid \<Rightarrow> database \<Rightarrow> WorkspaceLeaseRecord option \<times> database" where
  "claim_workspace locked key db =
     (case select_one (\<lambda>w. ws_key w = key) (db_workspace_leases db) of
        Some w \<Rightarrow> (if locked key then None else Some w, db)
      | None \<Rightarrow>
          let w = \<lparr>ws_tenant_id = fst key, ws_workspace_id = snd key, ws_run_id = None,
                   ws_worker_id = None, ws_run_lease_token = None, ws_lease_token = None,
                   ws_generation = 0, ws_acquired_at = None, ws_expires_at = None\<rparr>
          in (Some w, db\<lparr>db_workspace_leases := db_workspace_leases db @ [w]\<rparr>))"

fun claim_loop ::
    "queue_config \<Rightarrow> row_locks \<Rightarrow> timestamp \<Rightarrow> nat \<Rightarrow> uuid list \<Rightarrow>
     (RunRecord \<times> string \<times> WorkspaceLeaseRecord) option transaction"
where
  "claim_loop cfg locks timestamp 0 skipped_run_ids db = Inr (None, db)"
| "claim_loop cfg locks timestamp (Suc n) skipped_run_ids db =
     (case select_ordered (claim_order (qc_admission_policy cfg) timestamp) 1
             (\<lambda>r. claimable db r \<and> rr_id r \<notin> set skipped_run_ids \<and> \<not> lk_runs locks (rr_id r))
             (db_runs db) of
        [] \<Rightarrow> Inr (None, db)
      | candidate_run # _ \<Rightarrow>
          bindE (ensure_tenant_quota (rr_tenant_id candidate_run) (qc_default_quota cfg) timestamp db)
            (\<lambda>(quota, db1).
               if int (count_where (\<lambda>l. le_tenant_id l = rr_tenant_id candidate_run) (db_run_leases db1))
                    \<ge> tq_max_active_runs (tqr_quota quota)
               then claim_loop cfg locks timestamp n (skipped_run_ids @ [rr_id candidate_run]) db1
               else (case claim_workspace (lk_workspaces locks) (run_workspace_key candidate_run) db1 of
                   (None, db2) \<Rightarrow>
                     claim_loop cfg locks timestamp n (skipped_run_ids @ [rr_id candidate_run]) db2
                 | (Some candidate_workspace, db2) \<Rightarrow>
                     if ws_lease_token candidate_workspace \<noteq> None
                     then claim_loop cfg locks timestamp n (skipped_run_ids @ [rr_id candidate_run]) db2
                     else (case run_session db candidate_run of
                         None \<Rightarrow> Inr (None, db2)
                       | Some s \<Rightarrow>
                           Inr (Some (candidate_run, session_model_route s, candidate_workspace), db2)))))"

text \<open>The rows a successful claim writes.\<close>

definition claim_lease_row ::
    "string \<Rightarrow> timestamp \<Rightarrow> timestamp \<Rightarrow> uuid \<Rightarrow> RunRecord \<Rightarrow> RunLeaseRecord" where
  "claim_lease_row worker_id timestamp expires_at lease_token run_row =
     \<lparr>le_run_id = rr_id run_row, le_tenant_id = rr_tenant_id run_row, le_worker_id = worker_id,
      le_lease_token = lease_token, le_generation = rr_lease_generation run_row + 1,
      le_acquired_at = timestamp, le_last_heartbeat_at = timestamp, le_expires_at = expires_at\<rparr>"

definition claim_workspace_row ::
    "string \<Rightarrow> timestamp \<Rightarrow> timestamp \<Rightarrow> uuid \<Rightarrow> uuid \<Rightarrow> RunRecord \<Rightarrow> WorkspaceLeaseRecord \<Rightarrow>
     WorkspaceLeaseRecord" where
  "claim_workspace_row worker_id timestamp expires_at lease_token workspace_token run_row w =
     w\<lparr>ws_run_id := Some (rr_id run_row), ws_worker_id := Some worker_id,
       ws_run_lease_token := Some lease_token, ws_lease_token := Some workspace_token,
       ws_generation := ws_generation w + 1, ws_acquired_at := Some timestamp,
       ws_expires_at := Some expires_at\<rparr>"

definition claim ::
    "queue_config \<Rightarrow> row_locks \<Rightarrow> uuid option \<Rightarrow> uuid option \<Rightarrow> string \<Rightarrow> datetime \<Rightarrow> timedelta \<Rightarrow>
     RunLease option transaction"
where
  "claim cfg locks token1 token2 worker_id occurred_at lease_duration db =
     bindE (operation_time occurred_at ''run_claim_invalid'') (\<lambda>timestamp.
     bindE (lease_expiry timestamp lease_duration ''run_claim_invalid'') (\<lambda>expires_at.
     case select_one (\<lambda>w. wr_worker_id w = worker_id) (db_workers db) of
       None \<Rightarrow> Inl (worker_not_registered worker_id)
     | Some worker \<Rightarrow>
         if wr_status worker \<noteq> WORKER_ACTIVE \<or> wr_available_slots worker \<le> 0 then Inr (None, db)
         else bindE (claim_loop cfg locks timestamp MAX_CLAIM_CANDIDATES [] db) (\<lambda>(claimed, db1).
           case claimed of
             None \<Rightarrow> bindE (flush db1) (\<lambda>db2. Inr (None, db2))
           | Some (run_row, route_name, workspace_row) \<Rightarrow>
               bindE (new_token token1) (\<lambda>lease_token.
               bindE (new_token token2) (\<lambda>workspace_token.
               bindE (run_domain run_row) (\<lambda>current.
               bindE (transition_run current LEASED (utc timestamp) (Some worker_id) (Some (utc expires_at)))
                 (\<lambda>transitioned.
                  let run_row' = (apply_run run_row transitioned)
                                   \<lparr>rr_lease_generation := rr_lease_generation run_row + 1\<rparr>;
                      lease_row = claim_lease_row worker_id timestamp expires_at lease_token run_row;
                      workspace_row' = claim_workspace_row worker_id timestamp expires_at lease_token
                                         workspace_token run_row workspace_row;
                      worker' = worker\<lparr>wr_available_slots := wr_available_slots worker - 1\<rparr>;
                      db2 = (put_run run_row' db1)
                        \<lparr>db_run_leases := db_run_leases db1 @ [lease_row],
                         db_workspace_leases := put_row ws_key workspace_row' (db_workspace_leases db1),
                         db_workers := put_row wr_worker_id worker' (db_workers db1)\<rparr>
                  in bindE (flush db2) (\<lambda>db3.
                     bindE (run_lease_domain lease_row run_row' route_name) (\<lambda>lease.
                     Inr (Some lease, db3))))))))))"

subsection \<open>Snapshot and sandbox authorization\<close>

record QueueDepth =
  qd_interactive :: int
  qd_background :: int
  qd_evaluation :: int

record QueueSnapshot =
  qs_depth :: QueueDepth
  qs_oldest_age_seconds :: rat
  qs_captured_at :: timestamp

definition queued_statuses :: "RunStatus list" where
  "queued_statuses = [QUEUED, WAITING_APPROVAL, RETRY_PENDING, LOST]"

definition queue_snapshot_validate :: "QueueSnapshot \<Rightarrow> QueueSnapshot result" where
  "queue_snapshot_validate s =
     bindE (check (0 \<le> qd_interactive (qs_depth s)) ''interactive'') (\<lambda>_.
     bindE (check (0 \<le> qd_background (qs_depth s)) ''background'') (\<lambda>_.
     bindE (check (0 \<le> qd_evaluation (qs_depth s)) ''evaluation'') (\<lambda>_.
     bindE (check (0 \<le> qs_oldest_age_seconds s \<and> qs_oldest_age_seconds s \<le> 31536000)
              ''oldest_age_seconds'') (\<lambda>_. Inr s))))"

definition oldest_created_at :: "database \<Rightarrow> timestamp option" where
  "oldest_created_at db =
     (case map (\<lambda>r. run_created_at (rr_run r)) (filter (\<lambda>r. rr_status r \<in> set queued_statuses) (db_runs db)) of
        [] \<Rightarrow> None
      | t # ts \<Rightarrow> Some (fold min ts t))"

definition snapshot :: "datetime \<Rightarrow> database \<Rightarrow> QueueSnapshot result" where
  "snapshot occurred_at db =
     bindE (operation_time occurred_at ''queue_snapshot_invalid'') (\<lambda>timestamp.
     let counts = (\<lambda>c. int (count_where
           (\<lambda>r. rr_status r \<in> set queued_statuses \<and> run_priority_class (rr_run r) = c) (db_runs db)));
         oldest_age = (case oldest_created_at db of
             None \<Rightarrow> 0
           | Some oldest \<Rightarrow> max 0 (of_int (timestamp - oldest) / of_int microseconds_per_second))
     in queue_snapshot_validate
          \<lparr>qs_depth = \<lparr>qd_interactive = counts INTERACTIVE, qd_background = counts BACKGROUND,
                       qd_evaluation = counts EVALUATION\<rparr>,
           qs_oldest_age_seconds = oldest_age, qs_captured_at = timestamp\<rparr>)"

definition authorized_rows ::
    "uuid \<Rightarrow> uuid \<Rightarrow> uuid \<Rightarrow> uuid \<Rightarrow> string \<Rightarrow> uuid \<Rightarrow> int \<Rightarrow> timestamp \<Rightarrow> int \<Rightarrow>
     RunLeaseRecord \<Rightarrow> RunRecord \<Rightarrow> WorkspaceLeaseRecord \<Rightarrow> bool"
where
  "authorized_rows tenant run session workspace worker_id lease_token generation
       timestamp execution_epoch l r w \<longleftrightarrow>
     rr_tenant_id r = le_tenant_id l \<and> rr_id r = le_run_id l
   \<and> ws_tenant_id w = rr_tenant_id r \<and> ws_workspace_id w = run_workspace_id (rr_run r)
   \<and> le_tenant_id l = tenant \<and> le_run_id l = run \<and> le_worker_id l = worker_id
   \<and> le_lease_token l = lease_token \<and> le_generation l = generation \<and> le_expires_at l > timestamp
   \<and> run_session_id (rr_run r) = session \<and> run_workspace_id (rr_run r) = workspace
   \<and> run_execution_epoch (rr_run r) = execution_epoch \<and> rr_status r = RUNNING
   \<and> run_assigned_worker_id (rr_run r) = Some worker_id \<and> \<not> run_cancellation_requested (rr_run r)
   \<and> ws_run_id w = Some run \<and> ws_worker_id w = Some worker_id
   \<and> ws_run_lease_token w = Some lease_token \<and> ws_lease_token w \<noteq> None
   \<and> (case ws_expires_at w of None \<Rightarrow> False | Some x \<Rightarrow> x > timestamp)"

definition authorize_sandbox_lease ::
    "uuid \<Rightarrow> uuid \<Rightarrow> uuid \<Rightarrow> uuid \<Rightarrow> string \<Rightarrow> uuid \<Rightarrow> int \<Rightarrow> datetime \<Rightarrow> int \<Rightarrow> database \<Rightarrow> unit result"
where
  "authorize_sandbox_lease tenant run session workspace worker_id lease_token generation
       occurred_at execution_epoch db =
     bindE (operation_time occurred_at ''sandbox_lease_invalid'') (\<lambda>timestamp.
     if list_ex (\<lambda>l. list_ex (\<lambda>r. list_ex
          (authorized_rows tenant run session workspace worker_id lease_token generation
             timestamp execution_epoch l r)
          (db_workspace_leases db)) (db_runs db)) (db_run_leases db)
     then Inr ()
     else Inl (domain_error ''sandbox_lease_unauthorized''
            ''the sandbox request does not own current run and workspace leases'' True
            (run_id_details run)))"

subsection \<open>Running a leased run\<close>

definition locked_lease_state ::
    "database \<Rightarrow> RunLease \<Rightarrow> (RunLeaseRecord \<times> RunRecord \<times> string) result" where
  "locked_lease_state db lease =
     bindE (assert_matching_run_lease
              (select_one (\<lambda>l. le_lease_token l = rl_lease_token lease) (db_run_leases db)) lease) (\<lambda>lease_row.
     case select_one (\<lambda>r. rr_tenant_id r = rl_tenant_id lease \<and> rr_id r = rl_run_id lease
              \<and> rr_lease_generation r = rl_generation lease
              \<and> run_assigned_worker_id (rr_run r) = Some (rl_worker_id lease)
              \<and> run_execution_epoch (rr_run r) = rl_execution_epoch lease
              \<and> run_session db r \<noteq> None) (db_runs db) of
       None \<Rightarrow> Inl (domain_error ''run_lease_lost'' ''the run ownership fence no longer matches'' True
                      (run_id_details (rl_run_id lease)))
     | Some run_row \<Rightarrow>
         (case run_session db run_row of
            None \<Rightarrow> Inl (domain_error ''run_lease_lost'' ''the run ownership fence no longer matches'' True
                           (run_id_details (rl_run_id lease)))
          | Some s \<Rightarrow> Inr (lease_row, run_row, session_model_route s)))"

definition start :: "RunLease \<Rightarrow> datetime \<Rightarrow> RunLease transaction" where
  "start lease occurred_at db =
     bindE (operation_time occurred_at ''run_start_invalid'') (\<lambda>timestamp.
     bindE (locked_lease_state db lease) (\<lambda>(lease_row, run_row, route_name).
     bindE (require_unexpired lease_row timestamp (rl_run_id lease)) (\<lambda>_.
     if rr_status run_row \<noteq> LEASED
     then Inl (domain_error ''run_state_conflict'' ''only a leased run may start'' False
            (run_id_details (rl_run_id lease)
             @ [(''status'', JStr (run_status_value (rr_status run_row)))]))
     else bindE (run_domain run_row) (\<lambda>current.
          bindE (transition_run current RUNNING (utc timestamp) None None) (\<lambda>transitioned.
          let run_row' = apply_run run_row transitioned
          in bindE (flush (put_run run_row' db)) (\<lambda>db'.
             bindE (run_lease_domain lease_row run_row' route_name) (\<lambda>l. Inr (l, db'))))))))"

definition heartbeat :: "RunLease \<Rightarrow> datetime \<Rightarrow> timedelta \<Rightarrow> RunLeaseHeartbeat transaction" where
  "heartbeat lease occurred_at lease_duration db =
     bindE (operation_time occurred_at ''run_heartbeat_invalid'') (\<lambda>timestamp.
     bindE (lease_expiry timestamp lease_duration ''run_heartbeat_invalid'') (\<lambda>expires_at.
     bindE (locked_lease_state db lease) (\<lambda>(lease_row, run_row, route_name).
     bindE (require_unexpired lease_row timestamp (rl_run_id lease)) (\<lambda>_.
     if rr_status run_row \<notin> {LEASED, RUNNING}
     then Inl (domain_error ''run_lease_lost'' ''the run no longer accepts lease heartbeats'' True
            (run_id_details (rl_run_id lease)))
     else
       let lease_row' = lease_row\<lparr>le_last_heartbeat_at := timestamp, le_expires_at := expires_at\<rparr>;
           run_row' = run_row\<lparr>rr_run := (rr_run run_row)\<lparr>run_lease_expires_at := Some expires_at\<rparr>\<rparr>
       in bindE (flush ((put_run run_row' db)
                   \<lparr>db_run_leases := put_row le_run_id lease_row' (db_run_leases db)\<rparr>)) (\<lambda>db'.
          Inr (\<lparr>hb_lease_token = le_lease_token lease_row, hb_generation = le_generation lease_row,
                hb_expires_at = expires_at,
                hb_cancellation_requested = run_cancellation_requested (rr_run run_row)\<rparr>, db'))))))"

text \<open>
  \<open>timedelta(seconds=x)\<close> keeps whole microseconds and rounds half to even.
\<close>

definition round_half_even :: "rat \<Rightarrow> int" where
  "round_half_even q =
     (let f = \<lfloor>q\<rfloor>; d = q - of_int f
      in if d < 1 / 2 \<or> d = 1 / 2 \<and> even f then f else f + 1)"

definition timedelta_seconds :: "rat \<Rightarrow> timedelta" where
  "timedelta_seconds s = round_half_even (s * of_int microseconds_per_second)"

text \<open>
  The memory extraction job of a completed run: inserted when session and tenant both
  enable memory, unless the run's epoch already has one. The source position is the last
  message of the session that belongs to the current epoch of its run.
\<close>

definition memory_source_sequence :: "RunRecord \<Rightarrow> database \<Rightarrow> int" where
  "memory_source_sequence run db =
     foldl max 0 (map (\<lambda>m. pm_sequence (mr_message m))
       (filter (\<lambda>m. mr_tenant_id m = rr_tenant_id run
             \<and> pm_session_id (mr_message m) = run_session_id (rr_run run)
             \<and> list_ex (\<lambda>r. rr_tenant_id r = mr_tenant_id m \<and> rr_id r = pm_run_id (mr_message m)
                  \<and> pm_execution_epoch (mr_message m) = run_execution_epoch (rr_run r)) (db_runs db))
          (db_messages db)))"

definition memory_job_name :: "RunRecord \<Rightarrow> string" where
  "memory_job_name run =
     ''agent-platform:memory:'' @ uuid_str (rr_tenant_id run) @ '':'' @ uuid_str (rr_id run) @ '':''
       @ int_str (run_execution_epoch (rr_run run))"

definition memory_eligible :: "RunRecord \<Rightarrow> database \<Rightarrow> bool" where
  "memory_eligible run db \<longleftrightarrow>
     list_ex (\<lambda>s. session_tenant_id s = rr_tenant_id run \<and> session_id s = run_session_id (rr_run run)
        \<and> session_memory_enabled s
        \<and> list_ex (\<lambda>q. tqr_tenant_id q = session_tenant_id s \<and> tq_memory_enabled (tqr_quota q)) (db_quotas db))
       (db_sessions db)"

definition enqueue_memory_extraction ::
    "(string \<Rightarrow> uuid) \<Rightarrow> RunRecord \<Rightarrow> timestamp \<Rightarrow> database \<Rightarrow> database" where
  "enqueue_memory_extraction uuid5 run created_at db =
     (let job = \<lparr>mj_id = uuid5 (memory_job_name run), mj_tenant_id = rr_tenant_id run,
                 mj_session_id = run_session_id (rr_run run), mj_run_id = rr_id run,
                 mj_execution_epoch = run_execution_epoch (rr_run run), mj_status = MEM_PENDING,
                 mj_source_message_sequence = memory_source_sequence run db, mj_attempt = 1,
                 mj_worker_id = None, mj_lease_token = None, mj_lease_generation = 0,
                 mj_lease_expires_at = None, mj_error = None, mj_created_at = created_at,
                 mj_started_at = None, mj_completed_at = None\<rparr>
      in if \<not> memory_eligible run db
            \<or> list_ex (\<lambda>j. memory_job_key j = memory_job_key job) (db_memory_jobs db)
         then db else db\<lparr>db_memory_jobs := db_memory_jobs db @ [job]\<rparr>)"

definition finish ::
    "(string \<Rightarrow> uuid) \<Rightarrow> RunLease \<Rightarrow> RunExecutionResult \<Rightarrow> datetime \<Rightarrow> Run transaction" where
  "finish uuid5 lease result occurred_at db =
     bindE (operation_time occurred_at ''run_finish_invalid'') (\<lambda>timestamp.
     bindE (locked_lease_state db lease) (\<lambda>(lease_row, run_row, route_name).
     bindE (require_unexpired lease_row timestamp (rl_run_id lease)) (\<lambda>_.
     let desired_status = (if run_cancellation_requested (rr_run run_row) then CANCELLED
                           else er_status result)
     in bindE (run_domain run_row) (\<lambda>current.
        bindE (transition_run current desired_status (utc timestamp) None None) (\<lambda>transitioned.
        bindE (case er_last_checkpoint_id result of
                 None \<Rightarrow> Inr transitioned
               | Some c \<Rightarrow> run_model_copy transitioned None
                   (\<lambda>r. r\<lparr>run_last_checkpoint_id := Some c\<rparr>)) (\<lambda>transitioned'.
        let run_row' = (apply_run run_row transitioned')
              \<lparr>rr_retry_ready_at :=
                 (case er_retry_delay_seconds result of
                    Some d \<Rightarrow> if desired_status = RETRY_PENDING
                              then Some (timestamp + timedelta_seconds d) else None
                  | None \<Rightarrow> None)\<rparr>;
            db1 = put_run run_row' db;
            db2 = (if desired_status = COMPLETED
                   then enqueue_memory_extraction uuid5 run_row' timestamp db1 else db1);
            db3 = return_worker_slot (rl_worker_id lease)
                    (delete_lease lease_row (release_workspace_for_run lease_row db2))
        in bindE (flush db3) (\<lambda>db4.
           bindE (run_domain run_row') (\<lambda>r. Inr (r, db4)))))))))"

subsection \<open>Recovery of expired leases\<close>

fun recover_retries :: "timestamp \<Rightarrow> RunRecord list \<Rightarrow> Run list transaction" where
  "recover_retries timestamp [] db = Inr ([], db)"
| "recover_retries timestamp (retry_row # rows) db =
     bindE (run_domain retry_row) (\<lambda>current.
     bindE (transition_run current QUEUED (utc timestamp) None None) (\<lambda>queued.
     let row' = (apply_run retry_row queued)\<lparr>rr_retry_ready_at := None\<rparr>
     in bindE (recover_retries timestamp rows (put_run row' db)) (\<lambda>(recovered, db').
        Inr (queued # recovered, db'))))"

definition recovered_run :: "timestamp \<Rightarrow> Run \<Rightarrow> Run result" where
  "recovered_run timestamp current =
     (if run_cancellation_requested current
      then transition_run current CANCELLED (utc timestamp) None None
      else bindE (transition_run current LOST (utc timestamp) None None) (\<lambda>lost.
           transition_run lost QUEUED (utc timestamp) None None))"

fun recover_leases :: "timestamp \<Rightarrow> RunLeaseRecord list \<Rightarrow> Run list transaction" where
  "recover_leases timestamp [] db = Inr ([], db)"
| "recover_leases timestamp (lease_row # rows) db =
     bindE (case select_one (\<lambda>r. rr_tenant_id r = le_tenant_id lease_row \<and> rr_id r = le_run_id lease_row)
                   (db_runs db) of
              None \<Rightarrow> Inr ([], db)
            | Some run_row \<Rightarrow>
                if rr_lease_generation run_row = le_generation lease_row
                   \<and> run_assigned_worker_id (rr_run run_row) = Some (le_worker_id lease_row)
                   \<and> rr_status run_row \<in> {LEASED, RUNNING}
                then bindE (run_domain run_row) (\<lambda>current.
                     bindE (recovered_run timestamp current) (\<lambda>next_run.
                     Inr ([next_run], put_run (apply_run run_row next_run) db)))
                else Inr ([], db)) (\<lambda>(here, db1).
     let db2 = return_worker_slot (le_worker_id lease_row)
                 (delete_lease lease_row (release_workspace_for_run lease_row db1))
     in bindE (recover_leases timestamp rows db2) (\<lambda>(recovered, db3).
        Inr (here @ recovered, db3)))"

definition retry_order :: "RunRecord \<Rightarrow> int list" where
  "retry_order r = [case rr_retry_ready_at r of Some t \<Rightarrow> t | None \<Rightarrow> 0, int (rr_id r)]"

definition retry_due :: "timestamp \<Rightarrow> RunRecord \<Rightarrow> bool" where
  "retry_due timestamp r \<longleftrightarrow> rr_status r = RETRY_PENDING
     \<and> (case rr_retry_ready_at r of None \<Rightarrow> False | Some t \<Rightarrow> t \<le> timestamp)"

definition expiry_order :: "RunLeaseRecord \<Rightarrow> int list" where
  "expiry_order l = [le_expires_at l, int (le_run_id l)]"

definition recover_expired :: "row_locks \<Rightarrow> datetime \<Rightarrow> pyval \<Rightarrow> Run list transaction" where
  "recover_expired locks occurred_at limit db =
     bindE (operation_time occurred_at ''run_recovery_invalid'') (\<lambda>timestamp.
     case limit of
       PyInt n \<Rightarrow>
         if 1 \<le> n \<and> n \<le> MAX_RECOVERY_RUNS then
           bindE (recover_retries timestamp
               (select_ordered retry_order (nat n)
                  (\<lambda>r. retry_due timestamp r \<and> \<not> lk_runs locks (rr_id r)) (db_runs db)) db)
             (\<lambda>(retried, db1).
           bindE (recover_leases timestamp
               (select_ordered expiry_order (nat (max 0 (n - int (length retried))))
                  (\<lambda>l. le_expires_at l \<le> timestamp \<and> \<not> lk_leases locks (le_run_id l))
                  (db_run_leases db1)) db1)
             (\<lambda>(expired, db2).
           bindE (flush db2) (\<lambda>db3. Inr (retried @ expired, db3))))
         else Inl (ValueError ''limit must be in [1, 1000]'')
     | _ \<Rightarrow> Inl (ValueError ''limit must be in [1, 1000]''))"

end
