(* ===== verification/Queue_Invariant.thy ===== *)
theory Queue_Invariant
  imports Run_Queue
begin

section \<open>The invariant of the run queue\<close>

text \<open>
  What the queue keeps of its tables beyond the constraints of the database: every lease is
  mirrored by a leased or running run with the same generation, worker and expiry; every
  leased or running run has a lease; every workspace writer holds a lease; and no worker has
  more leases than slots. \<open>queue_inv\<close> joins this with the constraints.

  First come the constraint lemmas for the elementary writes, then the two composite steps
  the operations share: taking a lease (\<open>claim\<close>) and giving it back (\<open>finish\<close>,
  \<open>recover_expired\<close>).
\<close>

subsection \<open>Definitions\<close>

definition mirrors :: "RunRecord \<Rightarrow> RunLeaseRecord \<Rightarrow> bool" where
  "mirrors r l \<longleftrightarrow>
     rr_id r = le_run_id l \<and> rr_tenant_id r = le_tenant_id l
   \<and> rr_lease_generation r = le_generation l
   \<and> run_assigned_worker_id (rr_run r) = Some (le_worker_id l)
   \<and> run_lease_expires_at (rr_run r) = Some (le_expires_at l)
   \<and> rr_status r \<in> {LEASED, RUNNING}"

definition runs_valid :: "RunRecord list \<Rightarrow> bool" where
  "runs_valid runs \<longleftrightarrow> (\<forall>r \<in> set runs. run_valid (rr_run r))"

definition leases_mirrored :: "RunRecord list \<Rightarrow> RunLeaseRecord list \<Rightarrow> bool" where
  "leases_mirrored runs leases \<longleftrightarrow> (\<forall>l \<in> set leases. \<exists>r \<in> set runs. mirrors r l)"

definition active_runs_leased :: "RunRecord list \<Rightarrow> RunLeaseRecord list \<Rightarrow> bool" where
  "active_runs_leased runs leases \<longleftrightarrow>
     (\<forall>r \<in> set runs. rr_status r \<in> {LEASED, RUNNING} \<longrightarrow> (\<exists>l \<in> set leases. le_run_id l = rr_id r))"

definition holds_writer :: "WorkspaceLeaseRecord \<Rightarrow> RunLeaseRecord \<Rightarrow> bool" where
  "holds_writer w l \<longleftrightarrow>
     ws_run_lease_token w = Some (le_lease_token l) \<and> ws_run_id w = Some (le_run_id l)
   \<and> ws_worker_id w = Some (le_worker_id l) \<and> ws_tenant_id w = le_tenant_id l"

definition writers_leased :: "WorkspaceLeaseRecord list \<Rightarrow> RunLeaseRecord list \<Rightarrow> bool" where
  "writers_leased workspaces leases \<longleftrightarrow>
     (\<forall>w \<in> set workspaces. ws_run_lease_token w \<noteq> None \<longrightarrow> (\<exists>l \<in> set leases. holds_writer w l))"

definition worker_load :: "string \<Rightarrow> RunLeaseRecord list \<Rightarrow> int" where
  "worker_load worker_id leases = int (count_where (\<lambda>l. le_worker_id l = worker_id) leases)"

definition slots_ok :: "WorkerRecord list \<Rightarrow> RunLeaseRecord list \<Rightarrow> bool" where
  "slots_ok workers leases \<longleftrightarrow>
     (\<forall>w \<in> set workers. wr_available_slots w + worker_load (wr_worker_id w) leases \<le> wr_total_slots w)"

text \<open>
  The text columns: a worker id is what \<open>transition_run\<close> leaves unchanged when it strips
  it, and a model route is an identifier.
\<close>

definition worker_named :: "string \<Rightarrow> bool" where
  "worker_named worker_id \<longleftrightarrow> py_strip worker_id = worker_id \<and> worker_id \<noteq> [] \<and> length worker_id \<le> 255"

definition names_ok :: "database \<Rightarrow> bool" where
  "names_ok db \<longleftrightarrow>
     (\<forall>w \<in> set (db_workers db). worker_named (wr_worker_id w))
   \<and> (\<forall>s \<in> set (db_sessions db).
        IdentifierString ''route_name'' (session_model_route s) = Inr (session_model_route s))"

definition lease_inv :: "database \<Rightarrow> bool" where
  "lease_inv db \<longleftrightarrow>
     runs_valid (db_runs db) \<and> leases_mirrored (db_runs db) (db_run_leases db)
   \<and> active_runs_leased (db_runs db) (db_run_leases db)
   \<and> writers_leased (db_workspace_leases db) (db_run_leases db)
   \<and> slots_ok (db_workers db) (db_run_leases db)
   \<and> names_ok db"

definition queue_inv :: "database \<Rightarrow> bool" where
  "queue_inv db \<longleftrightarrow> constraints_ok db \<and> lease_inv db"

subsection \<open>Consequences of the constraints\<close>

lemma queue_invD:
  assumes "queue_inv db"
  shows "constraints_ok db" "lease_inv db" "rows_ok db" "unique_ok db" "foreign_keys_ok db"
    "distinct (map wr_worker_id (db_workers db))" "distinct (map rr_id (db_runs db))"
    "distinct (map le_run_id (db_run_leases db))" "distinct (map le_lease_token (db_run_leases db))"
    "distinct (map ws_key (db_workspace_leases db))"
  using assms by (simp_all add: queue_inv_def constraints_ok_def unique_ok_def)

lemma lease_invD:
  assumes "lease_inv db"
  shows "runs_valid (db_runs db)" "leases_mirrored (db_runs db) (db_run_leases db)"
    "active_runs_leased (db_runs db) (db_run_leases db)"
    "writers_leased (db_workspace_leases db) (db_run_leases db)"
    "slots_ok (db_workers db) (db_run_leases db)" "names_ok db"
  using assms by (simp_all add: lease_inv_def)

lemma distinct_eq: "distinct (map f t) \<Longrightarrow> x \<in> set t \<Longrightarrow> y \<in> set t \<Longrightarrow> f x = f y \<Longrightarrow> x = y"
  by (auto simp: distinct_map inj_on_def)

lemma lease_mirror:
  assumes "queue_inv db" "l \<in> set (db_run_leases db)"
  obtains r where "r \<in> set (db_runs db)" "mirrors r l" "run_valid (rr_run r)"
  using assms by (auto simp: queue_inv_def lease_inv_def leases_mirrored_def runs_valid_def)

lemma mirror_unique:
  assumes "queue_inv db" "r \<in> set (db_runs db)" "rr_id r = le_run_id l" "l \<in> set (db_run_leases db)"
  shows "mirrors r l"
proof -
  obtain r' where r': "r' \<in> set (db_runs db)" "mirrors r' l"
    using lease_mirror [OF assms(1,4)] by blast
  then have "r' = r"
    using distinct_eq [OF queue_invD(7) [OF assms(1)]] assms(2,3) by (auto simp: mirrors_def)
  with r' show ?thesis by simp
qed

lemma ws_token_iff:
  "workspace_row_ok w \<Longrightarrow> ws_run_lease_token w = None \<longleftrightarrow> ws_lease_token w = None"
  by (auto simp: workspace_row_ok_def)

text \<open>A lease holds at most one workspace.\<close>

lemma writer_unique:
  assumes inv: "queue_inv db"
    and w: "w \<in> set (db_workspace_leases db)" "ws_run_lease_token w = Some t"
    and w': "w' \<in> set (db_workspace_leases db)" "ws_run_lease_token w' = Some t"
  shows "w = w'"
proof -
  obtain l where l: "l \<in> set (db_run_leases db)" "holds_writer w l"
    using inv w by (auto simp: queue_inv_def lease_inv_def writers_leased_def)
  obtain l' where l': "l' \<in> set (db_run_leases db)" "holds_writer w' l'"
    using inv w' by (auto simp: queue_inv_def lease_inv_def writers_leased_def)
  have "l = l'"
    using l l' w w' by (intro distinct_eq [OF queue_invD(9) [OF inv]]) (auto simp: holds_writer_def)
  have fk: "\<exists>r \<in> set (db_runs db). rr_tenant_id r = ws_tenant_id x \<and> rr_id r = le_run_id l
      \<and> run_workspace_id (rr_run r) = ws_workspace_id x"
    if "x \<in> set (db_workspace_leases db)" "holds_writer x l" for x
    using queue_invD(5) [OF inv] that
    by (fastforce simp: foreign_keys_ok_def workspace_refers_def list_all_iff holds_writer_def run_key_def)
  from fk [OF w(1) l(2)] fk [OF w'(1)] l'(2) \<open>l = l'\<close> have "ws_key w = ws_key w'"
    using distinct_eq [OF queue_invD(7) [OF inv]] by (auto simp: ws_key_def) metis+
  with w w' show ?thesis using distinct_eq [OF queue_invD(10) [OF inv]] by auto
qed

subsection \<open>Elementary writes keep the constraints\<close>

lemma list_all_put_row:
  "list_all P t \<Longrightarrow> P row \<Longrightarrow> list_all P (put_row key row t)"
  by (auto simp: list_all_iff dest: put_row_mem)

lemma execution_simps [simp]:
  "execution_rows_ok (db\<lparr>db_runs := a\<rparr>) = execution_rows_ok db"
  "execution_rows_ok (db\<lparr>db_workers := b\<rparr>) = execution_rows_ok db"
  "execution_rows_ok (db\<lparr>db_run_leases := c\<rparr>) = execution_rows_ok db"
  "execution_rows_ok (db\<lparr>db_workspace_leases := d\<rparr>) = execution_rows_ok db"
  "execution_rows_ok (db\<lparr>db_quotas := e\<rparr>) = execution_rows_ok db"
  "execution_unique_ok (db\<lparr>db_runs := a\<rparr>) = execution_unique_ok db"
  "execution_unique_ok (db\<lparr>db_workers := b\<rparr>) = execution_unique_ok db"
  "execution_unique_ok (db\<lparr>db_run_leases := c\<rparr>) = execution_unique_ok db"
  "execution_unique_ok (db\<lparr>db_workspace_leases := d\<rparr>) = execution_unique_ok db"
  "execution_unique_ok (db\<lparr>db_quotas := e\<rparr>) = execution_unique_ok db"
  "execution_refers keys (db\<lparr>db_runs := a\<rparr>) = execution_refers keys db"
  "execution_refers keys (db\<lparr>db_workers := b\<rparr>) = execution_refers keys db"
  "execution_refers keys (db\<lparr>db_run_leases := c\<rparr>) = execution_refers keys db"
  "execution_refers keys (db\<lparr>db_workspace_leases := d\<rparr>) = execution_refers keys db"
  "execution_refers keys (db\<lparr>db_quotas := e\<rparr>) = execution_refers keys db"
  by (simp_all add: execution_rows_ok_def execution_unique_ok_def execution_refers_def cong: option.case_cong)

lemmas constraint_defs =
  constraints_ok_def rows_ok_def unique_ok_def foreign_keys_ok_def execution_keys_ok_def

lemma constraints_put_run:
  assumes c: "constraints_ok db" and row: "row \<in> set (db_runs db)"
    and key: "run_key row' = run_key row" and idem: "rr_idempotency_key row' = rr_idempotency_key row"
    and ok: "run_row_ok row'" and cp: "checkpoint_refers (db_checkpoints db) row'"
  shows "constraints_ok (put_run row' db)"
proof -
  have d: "distinct (map rr_id (db_runs db))" using c by (simp add: constraints_ok_def unique_ok_def)
  have id: "rr_id row' = rr_id row" using key by (simp add: run_key_def)
  note m = map_put_row_distinct [OF d row id]
  have "map rr_id (put_row rr_id row' (db_runs db)) = map rr_id (db_runs db)" by (rule map_key_put_row)
  moreover have "map run_key (put_row rr_id row' (db_runs db)) = map run_key (db_runs db)"
    by (rule m) (rule key)
  moreover have "map (\<lambda>r. (rr_tenant_id r, run_session_id (rr_run r), rr_idempotency_key r))
      (put_row rr_id row' (db_runs db)) =
      map (\<lambda>r. (rr_tenant_id r, run_session_id (rr_run r), rr_idempotency_key r)) (db_runs db)"
    by (rule m) (use key idem in \<open>simp add: run_key_def\<close>)
  moreover have "list_all run_row_ok (put_row rr_id row' (db_runs db))"
    using c ok by (intro list_all_put_row) (simp_all add: constraints_ok_def rows_ok_def)
  moreover have "list_all (checkpoint_refers (db_checkpoints db)) (put_row rr_id row' (db_runs db))"
    using c cp by (intro list_all_put_row) (simp_all add: constraints_ok_def execution_keys_ok_def)
  ultimately show ?thesis using c by (simp add: constraint_defs put_run_def)
qed

lemma checkpoint_refers_same:
  assumes "constraints_ok db" "row \<in> set (db_runs db)" "run_key row' = run_key row"
    "run_last_checkpoint_id (rr_run row') = run_last_checkpoint_id (rr_run row)"
  shows "checkpoint_refers (db_checkpoints db) row'"
proof -
  have "checkpoint_refers (db_checkpoints db) row"
    using assms(1,2) by (simp add: constraints_ok_def execution_keys_ok_def list_all_iff)
  with assms(3,4) show ?thesis by (simp add: checkpoint_refers_def run_key_def cong: option.case_cong)
qed

lemma constraints_put_worker:
  assumes "constraints_ok db" "worker_row_ok w"
  shows "constraints_ok (db\<lparr>db_workers := put_row wr_worker_id w (db_workers db)\<rparr>)"
  using assms list_all_put_row [of worker_row_ok "db_workers db" w wr_worker_id]
  by (simp add: constraint_defs map_key_put_row)

lemma constraints_append_lease:
  assumes "constraints_ok db" "lease_row_ok l"
    and "le_run_id l \<notin> le_run_id ` set (db_run_leases db)"
    and "le_lease_token l \<notin> le_lease_token ` set (db_run_leases db)"
    and "lease_refers (map run_key (db_runs db)) (map wr_worker_id (db_workers db)) l"
  shows "constraints_ok (db\<lparr>db_run_leases := db_run_leases db @ [l]\<rparr>)"
  using assms by (simp add: constraint_defs)

lemma constraints_put_lease:
  assumes c: "constraints_ok db" and l: "l \<in> set (db_run_leases db)" and ok: "lease_row_ok l'"
    and k: "le_run_id l' = le_run_id l" "le_lease_token l' = le_lease_token l"
      "le_tenant_id l' = le_tenant_id l" "le_worker_id l' = le_worker_id l"
  shows "constraints_ok (db\<lparr>db_run_leases := put_row le_run_id l' (db_run_leases db)\<rparr>)"
proof -
  have d: "distinct (map le_run_id (db_run_leases db))"
    using c by (simp add: constraints_ok_def unique_ok_def)
  have "lease_refers (map run_key (db_runs db)) (map wr_worker_id (db_workers db)) l"
    using c l by (auto simp: constraints_ok_def foreign_keys_ok_def list_all_iff)
  then have "lease_refers (map run_key (db_runs db)) (map wr_worker_id (db_workers db)) l'"
    by (simp add: lease_refers_def k)
  with c ok show ?thesis
    by (simp add: constraint_defs list_all_put_row map_key_put_row map_put_row_distinct [OF d l k(1) k(2)])
qed

lemma constraints_delete_lease:
  "constraints_ok db \<Longrightarrow> constraints_ok (delete_lease l db)"
  by (simp add: constraint_defs delete_lease_def list_all_iff set_delete_where distinct_map_delete_where)

lemma constraints_put_workspace:
  assumes c: "constraints_ok db" and ok: "workspace_row_ok w"
    and fresh: "ws_lease_token w \<noteq> None \<Longrightarrow>
      \<forall>r \<in> set (db_workspace_leases db). ws_key r \<noteq> ws_key w \<longrightarrow> ws_lease_token r \<noteq> ws_lease_token w"
    and refers: "workspace_refers (map run_key (db_runs db)) (map wr_worker_id (db_workers db)) w"
  shows "constraints_ok (db\<lparr>db_workspace_leases := put_row ws_key w (db_workspace_leases db)\<rparr>)"
proof -
  have "distinct (filter (\<lambda>t. t \<noteq> None) (map ws_lease_token (put_row ws_key w (db_workspace_leases db))))"
    using c fresh by (intro distinct_some_put_row) (simp_all add: constraints_ok_def unique_ok_def)
  with c ok refers show ?thesis
    by (simp add: constraint_defs list_all_put_row map_key_put_row)
qed

lemma constraints_append_workspace:
  assumes "constraints_ok db" "workspace_row_ok w" "ws_lease_token w = None"
    and "ws_key w \<notin> ws_key ` set (db_workspace_leases db)"
  shows "constraints_ok (db\<lparr>db_workspace_leases := db_workspace_leases db @ [w]\<rparr>)"
proof -
  have "workspace_refers (map run_key (db_runs db)) (map wr_worker_id (db_workers db)) w"
    using assms(2,3) by (auto simp: workspace_row_ok_def workspace_refers_def)
  with assms show ?thesis by (simp add: constraint_defs)
qed

lemma constraints_quotas:
  assumes "constraints_ok db" "distinct (map tqr_tenant_id q)" "list_all quota_row_ok q"
  shows "constraints_ok (db\<lparr>db_quotas := q\<rparr>)"
  using assms by (simp add: constraint_defs)

lemma run_row_ok_update:
  assumes "run_row_ok row" "run_valid (rr_run row')"
    and "run_tracestate (rr_run row') = run_tracestate (rr_run row)"
    and "rr_creation_hash row' = rr_creation_hash row"
      "rr_next_event_sequence row' = rr_next_event_sequence row" "0 \<le> rr_lease_generation row'"
    and "rr_status row' = RETRY_PENDING \<longleftrightarrow> rr_retry_ready_at row' \<noteq> None"
  shows "run_row_ok row'"
  using assms by (simp add: run_row_ok_def run_valid_def run_fields_ok_def split: option.splits)

end
