(* ===== verification/Queue_Steps.thy ===== *)
theory Queue_Steps
  imports Queue_Invariant
begin

section \<open>Taking and giving back a lease\<close>

text \<open>
  The two composite writes of the run queue keep \<open>queue_inv\<close>: \<open>release_lease\<close> is what
  \<open>finish\<close> and \<open>recover_expired\<close> do after they have moved the run out of its leased
  status; the claim's writes follow.
\<close>

subsection \<open>Giving back\<close>

abbreviation release_lease :: "RunLeaseRecord \<Rightarrow> database \<Rightarrow> database" where
  "release_lease l db \<equiv>
     return_worker_slot (le_worker_id l) (delete_lease l (release_workspace_for_run l db))"

lemma release_workspace_tables [simp]:
  "db_runs (release_workspace_for_run l db) = db_runs db"
  "db_run_leases (release_workspace_for_run l db) = db_run_leases db"
  "db_workers (release_workspace_for_run l db) = db_workers db"
  "db_sessions (release_workspace_for_run l db) = db_sessions db"
  "db_quotas (release_workspace_for_run l db) = db_quotas db"
  "db_memory_jobs (release_workspace_for_run l db) = db_memory_jobs db"
  by (simp_all add: release_workspace_for_run_def split: option.splits)

lemma delete_lease_tables [simp]:
  "db_runs (delete_lease l db) = db_runs db"
  "db_run_leases (delete_lease l db) = delete_where (\<lambda>k. le_run_id k = le_run_id l) (db_run_leases db)"
  "db_workers (delete_lease l db) = db_workers db"
  "db_workspace_leases (delete_lease l db) = db_workspace_leases db"
  "db_sessions (delete_lease l db) = db_sessions db"
  "db_quotas (delete_lease l db) = db_quotas db"
  "db_memory_jobs (delete_lease l db) = db_memory_jobs db"
  by (simp_all add: delete_lease_def)

lemma return_worker_slot_tables [simp]:
  "db_runs (return_worker_slot i db) = db_runs db"
  "db_run_leases (return_worker_slot i db) = db_run_leases db"
  "db_workspace_leases (return_worker_slot i db) = db_workspace_leases db"
  "db_sessions (return_worker_slot i db) = db_sessions db"
  "db_quotas (return_worker_slot i db) = db_quotas db"
  "db_memory_jobs (return_worker_slot i db) = db_memory_jobs db"
  "map wr_worker_id (db_workers (return_worker_slot i db)) = map wr_worker_id (db_workers db)"
  by (simp_all add: return_worker_slot_def map_key_put_row split: option.splits)

lemma put_run_tables [simp]:
  "db_runs (put_run r db) = put_row rr_id r (db_runs db)"
  "db_run_leases (put_run r db) = db_run_leases db"
  "db_workers (put_run r db) = db_workers db"
  "db_workspace_leases (put_run r db) = db_workspace_leases db"
  "db_sessions (put_run r db) = db_sessions db"
  "db_quotas (put_run r db) = db_quotas db"
  "db_checkpoints (put_run r db) = db_checkpoints db"
  "db_memory_jobs (put_run r db) = db_memory_jobs db"
  by (simp_all add: put_run_def)

lemma constraints_return_worker_slot:
  assumes "constraints_ok db"
  shows "constraints_ok (return_worker_slot i db)"
proof (cases "select_one (\<lambda>w. wr_worker_id w = i) (db_workers db)")
  case (Some w)
  then have "worker_row_ok w"
    using assms select_one_Some [OF Some] by (simp add: constraints_ok_def rows_ok_def list_all_iff)
  then have "worker_row_ok (w\<lparr>wr_available_slots := min (wr_total_slots w) (wr_available_slots w + 1)\<rparr>)"
    by (auto simp: worker_row_ok_def)
  with Some assms show ?thesis by (simp add: return_worker_slot_def constraints_put_worker)
qed (simp add: return_worker_slot_def assms)

lemma constraints_release_workspace:
  assumes "constraints_ok db"
  shows "constraints_ok (release_workspace_for_run l db)"
proof (cases "select_one (\<lambda>w. ws_run_lease_token w = Some (le_lease_token l)) (db_workspace_leases db)")
  case (Some w)
  then have "workspace_row_ok w"
    using assms select_one_Some [OF Some] by (simp add: constraints_ok_def rows_ok_def list_all_iff)
  then have "workspace_row_ok (clear_workspace_owner w)"
    by (auto simp: workspace_row_ok_def clear_workspace_owner_def)
  with Some assms show ?thesis
    unfolding release_workspace_for_run_def
    by (simp, intro constraints_put_workspace)
      (simp_all add: clear_workspace_owner_def workspace_refers_def)
qed (simp add: release_workspace_for_run_def assms)

lemma constraints_release_lease:
  "constraints_ok db \<Longrightarrow> constraints_ok (release_lease l db)"
  by (intro constraints_return_worker_slot constraints_delete_lease constraints_release_workspace)

text \<open>After the release, no workspace row names the lease and the others are untouched.\<close>

lemma release_workspace_rows:
  assumes inv: "queue_inv db" and ws: "db_workspace_leases db1 = db_workspace_leases db"
    and w: "w \<in> set (db_workspace_leases (release_workspace_for_run l db1))"
  shows "ws_run_lease_token w = None
    \<or> w \<in> set (db_workspace_leases db) \<and> ws_run_lease_token w \<noteq> Some (le_lease_token l)"
proof (cases "select_one (\<lambda>w. ws_run_lease_token w = Some (le_lease_token l)) (db_workspace_leases db)")
  case None
  then have "db_workspace_leases (release_workspace_for_run l db1) = db_workspace_leases db"
    using ws by (simp add: release_workspace_for_run_def)
  then show ?thesis using w None by (auto simp: select_one_None)
next
  case (Some w0)
  note w0 = select_one_Some [OF Some]
  have "w \<in> set (put_row ws_key (clear_workspace_owner w0) (db_workspace_leases db))"
    using w Some ws by (simp add: release_workspace_for_run_def)
  then consider "w = clear_workspace_owner w0"
    | "w \<in> set (db_workspace_leases db)" "ws_key w \<noteq> ws_key w0"
    by (auto dest!: put_row_mem simp: clear_workspace_owner_def ws_key_def)
  then show ?thesis
  proof cases
    case 1
    then show ?thesis by (simp add: clear_workspace_owner_def)
  next
    case 2
    then show ?thesis using writer_unique [OF inv 2(1)] w0 by auto
  qed
qed

lemma slots_release:
  assumes slots: "slots_ok (db_workers db) (db_run_leases db)"
    and d: "distinct (map le_run_id (db_run_leases db))" "distinct (map wr_worker_id (db_workers db))"
    and l: "l \<in> set (db_run_leases db)"
    and same: "db_workers db1 = db_workers db" "db_run_leases db1 = db_run_leases db"
  shows "slots_ok (db_workers (release_lease l db1)) (db_run_leases (release_lease l db1))"
  unfolding slots_ok_def
proof
  let ?leases = "delete_where (\<lambda>k. le_run_id k = le_run_id l) (db_run_leases db)"
  have mine: "worker_load (le_worker_id l) ?leases + 1 = worker_load (le_worker_id l) (db_run_leases db)"
    using count_delete_key [OF d(1) l, of "\<lambda>k. le_worker_id k = le_worker_id l"]
    by (simp add: worker_load_def)
  have other: "worker_load i ?leases \<le> worker_load i (db_run_leases db)" for i
    by (simp add: worker_load_def count_delete_le)
  fix w
  assume w: "w \<in> set (db_workers (release_lease l db1))"
  have "w \<in> set (db_workers db) \<or>
      (\<exists>v \<in> set (db_workers db). wr_worker_id v = le_worker_id l
        \<and> w = v\<lparr>wr_available_slots := min (wr_total_slots v) (wr_available_slots v + 1)\<rparr>)"
    using w same
    by (auto simp: return_worker_slot_def split: option.splits dest!: put_row_mem select_one_Some)
  then show "wr_available_slots w + worker_load (wr_worker_id w) (db_run_leases (release_lease l db1))
      \<le> wr_total_slots w"
  proof
    assume "w \<in> set (db_workers db)"
    then have "wr_available_slots w + worker_load (wr_worker_id w) (db_run_leases db) \<le> wr_total_slots w"
      using slots by (simp add: slots_ok_def)
    with other [of "wr_worker_id w"] same show ?thesis by simp
  next
    assume "\<exists>v \<in> set (db_workers db). wr_worker_id v = le_worker_id l
        \<and> w = v\<lparr>wr_available_slots := min (wr_total_slots v) (wr_available_slots v + 1)\<rparr>"
    then obtain v where v: "v \<in> set (db_workers db)" "wr_worker_id v = le_worker_id l"
      "w = v\<lparr>wr_available_slots := min (wr_total_slots v) (wr_available_slots v + 1)\<rparr>" by blast
    then have "wr_available_slots v + worker_load (le_worker_id l) (db_run_leases db) \<le> wr_total_slots v"
      using slots by (auto simp: slots_ok_def)
    with mine v same show ?thesis by simp
  qed
qed

lemma lease_inv_release:
  assumes inv: "queue_inv db" and l: "l \<in> set (db_run_leases db)"
    and row: "row \<in> set (db_runs db)" "rr_id row = le_run_id l"
    and row': "rr_id row' = rr_id row" "run_valid (rr_run row')" "rr_status row' \<notin> {LEASED, RUNNING}"
    and same: "db_runs db1 = put_row rr_id row' (db_runs db)" "db_run_leases db1 = db_run_leases db"
      "db_workers db1 = db_workers db" "db_workspace_leases db1 = db_workspace_leases db"
      "db_sessions db1 = db_sessions db"
  shows "lease_inv (release_lease l db1)"
proof -
  note D = lease_invD [OF queue_invD(2) [OF inv]]
  let ?leases = "delete_where (\<lambda>k. le_run_id k = le_run_id l) (db_run_leases db)"
  have keep: "r \<in> set (put_row rr_id row' (db_runs db))" if "r \<in> set (db_runs db)" "rr_id r \<noteq> le_run_id l" for r
    using that row row' by (auto simp: set_put_row)
  have "runs_valid (put_row rr_id row' (db_runs db))"
    using D(1) row' by (auto simp: runs_valid_def dest!: put_row_mem)
  moreover have "leases_mirrored (put_row rr_id row' (db_runs db)) ?leases"
    unfolding leases_mirrored_def
  proof
    fix k
    assume "k \<in> set ?leases"
    then have k: "k \<in> set (db_run_leases db)" "le_run_id k \<noteq> le_run_id l" by (auto simp: set_delete_where)
    obtain r where r: "r \<in> set (db_runs db)" "mirrors r k" using lease_mirror [OF inv k(1)] by blast
    with k keep show "\<exists>r \<in> set (put_row rr_id row' (db_runs db)). mirrors r k"
      by (intro bexI [of _ r]) (auto simp: mirrors_def)
  qed
  moreover have "active_runs_leased (put_row rr_id row' (db_runs db)) ?leases"
    unfolding active_runs_leased_def
  proof (intro ballI impI)
    fix r
    assume r: "r \<in> set (put_row rr_id row' (db_runs db))" "rr_status r \<in> {LEASED, RUNNING}"
    from put_row_mem [OF r(1)] r(2) row row' have "r \<in> set (db_runs db)" "rr_id r \<noteq> le_run_id l" by auto
    with D(3) r(2) show "\<exists>k \<in> set ?leases. le_run_id k = rr_id r"
      unfolding active_runs_leased_def set_delete_where by fastforce
  qed
  moreover have "writers_leased (db_workspace_leases (release_workspace_for_run l db1)) ?leases"
    unfolding writers_leased_def
  proof (intro ballI impI)
    fix w
    assume w: "w \<in> set (db_workspace_leases (release_workspace_for_run l db1))" "ws_run_lease_token w \<noteq> None"
    from release_workspace_rows [OF inv same(4) w(1)] w(2)
    have w': "w \<in> set (db_workspace_leases db)" "ws_run_lease_token w \<noteq> Some (le_lease_token l)" by auto
    then obtain k where k: "k \<in> set (db_run_leases db)" "holds_writer w k"
      using D(4) w(2) by (auto simp: writers_leased_def)
    with w' have "k \<noteq> l" by (auto simp: holds_writer_def)
    with k l distinct_eq [OF queue_invD(8) [OF inv] k(1) l] show "\<exists>k \<in> set ?leases. holds_writer w k"
      by (auto simp: set_delete_where)
  qed
  moreover have "slots_ok (db_workers (release_lease l db1)) ?leases"
    using slots_release [OF D(5) queue_invD(8) [OF inv] queue_invD(6) [OF inv] l same(3,2)] same(2) by simp
  moreover have "names_ok (release_lease l db1)"
  proof -
    have "wr_worker_id ` set (db_workers (release_lease l db1)) = wr_worker_id ` set (db_workers db)"
      by (metis list.set_map return_worker_slot_tables(7) delete_lease_tables(3) release_workspace_tables(3) same(3))
    then show ?thesis using D(6) same by (auto simp: names_ok_def) (metis imageE imageI)
  qed
  ultimately show ?thesis
    using same by (simp add: lease_inv_def)
qed

subsection \<open>Taking\<close>

text \<open>The database after a claim of \<open>run\<close> by \<open>worker\<close> with the workspace row \<open>w\<close>.\<close>

definition claimed_run :: "string \<Rightarrow> timestamp \<Rightarrow> timestamp \<Rightarrow> RunRecord \<Rightarrow> RunRecord" where
  "claimed_run worker_id t x row =
     row\<lparr>rr_run := transition_spec (rr_run row) LEASED t worker_id x,
         rr_lease_generation := rr_lease_generation row + 1\<rparr>"

definition claimed_db ::
    "WorkerRecord \<Rightarrow> timestamp \<Rightarrow> timestamp \<Rightarrow> uuid \<Rightarrow> uuid \<Rightarrow> RunRecord \<Rightarrow> WorkspaceLeaseRecord \<Rightarrow>
     database \<Rightarrow> database"
where
  "claimed_db worker t x lease_token workspace_token row w db =
     (put_run (claimed_run (wr_worker_id worker) t x row) db)
       \<lparr>db_run_leases := db_run_leases db @ [claim_lease_row (wr_worker_id worker) t x lease_token row],
        db_workspace_leases := put_row ws_key
          (claim_workspace_row (wr_worker_id worker) t x lease_token workspace_token row w)
          (db_workspace_leases db),
        db_workers := put_row wr_worker_id
          (worker\<lparr>wr_available_slots := wr_available_slots worker - 1\<rparr>) (db_workers db)\<rparr>"

lemma claimed_run_simps [simp]:
  "rr_id (claimed_run i t x row) = rr_id row"
  "rr_tenant_id (claimed_run i t x row) = rr_tenant_id row"
  "rr_status (claimed_run i t x row) = LEASED"
  "run_key (claimed_run i t x row) = run_key row"
  "rr_idempotency_key (claimed_run i t x row) = rr_idempotency_key row"
  "rr_lease_generation (claimed_run i t x row) = rr_lease_generation row + 1"
  "run_assigned_worker_id (rr_run (claimed_run i t x row)) = Some i"
  "run_lease_expires_at (rr_run (claimed_run i t x row)) = Some x"
  by (simp_all add: claimed_run_def run_key_def transition_spec_def)

lemma worker_load_append [simp]:
  "worker_load i (ls @ [l]) = worker_load i ls + (if le_worker_id l = i then 1 else 0)"
  by (simp add: worker_load_def count_where_def)

lemma lease_inv_claim:
  assumes inv: "queue_inv db" and row: "row \<in> set (db_runs db)" "rr_status row = QUEUED"
    and worker: "worker \<in> set (db_workers db)" "0 < wr_available_slots worker"
    and w: "w \<in> set (db_workspace_leases db)" "ws_key w = run_workspace_key row"
    and v: "run_valid (rr_run (claimed_run (wr_worker_id worker) t x row))"
  shows "lease_inv (claimed_db worker t x lt wt row w db)"
proof -
  note D = lease_invD [OF queue_invD(2) [OF inv]]
  let ?row = "claimed_run (wr_worker_id worker) t x row"
  let ?lease = "claim_lease_row (wr_worker_id worker) t x lt row"
  let ?w = "claim_workspace_row (wr_worker_id worker) t x lt wt row w"
  let ?worker = "worker\<lparr>wr_available_slots := wr_available_slots worker - 1\<rparr>"
  let ?leases = "db_run_leases db @ [?lease]"
  have runs: "set (put_row rr_id ?row (db_runs db)) = insert ?row (set (db_runs db) - {row})"
    by (rule set_put_row_distinct [OF queue_invD(7) [OF inv] row(1)]) simp
  have wss: "set (put_row ws_key ?w (db_workspace_leases db)) = insert ?w (set (db_workspace_leases db) - {w})"
    by (rule set_put_row_distinct [OF queue_invD(10) [OF inv] w(1)])
      (simp add: claim_workspace_row_def ws_key_def)
  have wks: "set (put_row wr_worker_id ?worker (db_workers db)) = insert ?worker (set (db_workers db) - {worker})"
    by (rule set_put_row_distinct [OF queue_invD(6) [OF inv] worker(1)]) simp
  have "runs_valid (put_row rr_id ?row (db_runs db))"
    using D(1) v by (auto simp: runs_valid_def runs)
  moreover have "leases_mirrored (put_row rr_id ?row (db_runs db)) ?leases"
    unfolding leases_mirrored_def
  proof
    fix l
    assume "l \<in> set ?leases"
    then consider "l \<in> set (db_run_leases db)" | "l = ?lease" by auto
    then show "\<exists>r \<in> set (put_row rr_id ?row (db_runs db)). mirrors r l"
    proof cases
      case 1
      obtain r where r: "r \<in> set (db_runs db)" "mirrors r l" using lease_mirror [OF inv 1] by blast
      with row have "r \<noteq> row" by (auto simp: mirrors_def)
      with r runs show ?thesis by auto
    next
      case 2
      then have "mirrors ?row l" by (simp add: mirrors_def claim_lease_row_def)
      with runs show ?thesis by auto
    qed
  qed
  moreover have "active_runs_leased (put_row rr_id ?row (db_runs db)) ?leases"
    using D(3) unfolding active_runs_leased_def runs by (auto simp: claim_lease_row_def)
  moreover have "writers_leased (put_row ws_key ?w (db_workspace_leases db)) ?leases"
  proof -
    have "holds_writer ?w ?lease"
      using w(2) by (simp add: holds_writer_def claim_workspace_row_def claim_lease_row_def ws_key_def
          run_workspace_key_def)
    then show ?thesis using D(4) unfolding writers_leased_def wss by auto
  qed
  moreover have "slots_ok (put_row wr_worker_id ?worker (db_workers db)) ?leases"
    unfolding slots_ok_def wks
  proof
    fix k
    assume k: "k \<in> insert ?worker (set (db_workers db) - {worker})"
    show "wr_available_slots k + worker_load (wr_worker_id k) ?leases \<le> wr_total_slots k"
    proof (cases "k = ?worker")
      case True
      have "wr_available_slots worker + worker_load (wr_worker_id worker) (db_run_leases db)
          \<le> wr_total_slots worker"
        using D(5) worker(1) by (simp add: slots_ok_def)
      with True show ?thesis by (simp add: claim_lease_row_def)
    next
      case False
      with k have kw: "k \<in> set (db_workers db)" "k \<noteq> worker" by auto
      then have "wr_worker_id k \<noteq> wr_worker_id worker"
        using distinct_eq [OF queue_invD(6) [OF inv] _ worker(1)] by blast
      with D(5) kw show ?thesis by (auto simp: slots_ok_def claim_lease_row_def)
    qed
  qed
  moreover have "names_ok (claimed_db worker t x lt wt row w db)"
    using D(6) worker(1) by (auto simp: names_ok_def claimed_db_def wks)
  ultimately show ?thesis by (simp add: lease_inv_def claimed_db_def)
qed

lemma constraints_claim:
  assumes inv: "queue_inv db" and row: "row \<in> set (db_runs db)" "rr_status row = QUEUED"
    and worker: "worker \<in> set (db_workers db)" "0 < wr_available_slots worker"
    and w: "w \<in> set (db_workspace_leases db)" "ws_key w = run_workspace_key row"
    and v: "run_valid (rr_run (claimed_run (wr_worker_id worker) t x row))" and tx: "t < x"
    and lt: "lt \<notin> le_lease_token ` set (db_run_leases db)"
    and wt: "Some wt \<notin> ws_lease_token ` set (db_workspace_leases db)"
  shows "constraints_ok (claimed_db worker t x lt wt row w db)"
proof -
  let ?row = "claimed_run (wr_worker_id worker) t x row"
  let ?lease = "claim_lease_row (wr_worker_id worker) t x lt row"
  let ?w = "claim_workspace_row (wr_worker_id worker) t x lt wt row w"
  let ?worker = "worker\<lparr>wr_available_slots := wr_available_slots worker - 1\<rparr>"
  note R = queue_invD(3) [OF inv, unfolded rows_ok_def list_all_iff]
  have rowok: "run_row_ok row" using R row(1) by blast
  have r1: "run_row_ok ?row"
    by (rule run_row_ok_update [OF rowok v])
      (use rowok row(2) in \<open>simp_all add: claimed_run_def run_row_ok_def\<close>)
  have cp: "checkpoint_refers (db_checkpoints db) ?row"
    by (rule checkpoint_refers_same [OF queue_invD(1) [OF inv] row(1)]) (simp_all add: claimed_run_def run_key_def)
  have c1: "constraints_ok (put_run ?row db)"
    by (rule constraints_put_run [OF queue_invD(1) [OF inv] row(1)]) (simp_all add: r1 cp)
  let ?db1 = "put_run ?row db"
  have keys: "map run_key (db_runs ?db1) = map run_key (db_runs db)"
    using map_put_row_distinct [OF queue_invD(7) [OF inv] row(1), of ?row run_key] by simp
  have mem: "run_key row \<in> set (map run_key (db_runs db))" using row(1) by simp
  have no_lease: "le_run_id ?lease \<notin> le_run_id ` set (db_run_leases db)"
  proof
    assume "le_run_id ?lease \<in> le_run_id ` set (db_run_leases db)"
    then obtain l where "l \<in> set (db_run_leases db)" "le_run_id l = rr_id row"
      by (auto simp: claim_lease_row_def)
    then have "mirrors row l" by (intro mirror_unique [OF inv row(1)]) simp_all
    with row(2) show False by (simp add: mirrors_def)
  qed
  have ref: "lease_refers (map run_key (db_runs ?db1)) (map wr_worker_id (db_workers ?db1)) ?lease"
    unfolding keys using mem worker(1)
    by (auto simp: lease_refers_def claim_lease_row_def run_key_def intro!: bexI [of _ "run_key row"])
  have lok: "lease_row_ok ?lease"
    using rowok tx by (simp add: lease_row_ok_def claim_lease_row_def run_row_ok_def)
  let ?db2 = "?db1\<lparr>db_run_leases := db_run_leases ?db1 @ [?lease]\<rparr>"
  have c2: "constraints_ok ?db2"
    using no_lease lt by (intro constraints_append_lease [OF c1 lok _ _ ref]) (simp_all add: claim_lease_row_def)
  have wok: "workspace_row_ok ?w"
    using R w(1) tx by (auto simp: workspace_row_ok_def claim_workspace_row_def)
  have wref: "workspace_refers (map run_key (db_runs ?db2)) (map wr_worker_id (db_workers ?db2)) ?w"
    using keys mem worker(1) w(2)
    by (auto simp: workspace_refers_def claim_workspace_row_def run_key_def ws_key_def
        run_workspace_key_def intro!: bexI [of _ "run_key row"])
  let ?db3 = "?db2\<lparr>db_workspace_leases := put_row ws_key ?w (db_workspace_leases ?db2)\<rparr>"
  have "ws_lease_token ?w = Some wt" by (simp add: claim_workspace_row_def)
  then have c3: "constraints_ok ?db3"
    using wt by (intro constraints_put_workspace [OF c2 wok _ wref]) (auto simp: image_iff)
  have kok: "worker_row_ok ?worker" using R worker by (auto simp: worker_row_ok_def)
  have "constraints_ok (?db3\<lparr>db_workers := put_row wr_worker_id ?worker (db_workers ?db3)\<rparr>)"
    by (rule constraints_put_worker [OF c3 kok])
  then show ?thesis by (simp add: claimed_db_def)
qed

end
