(* ===== verification/Queue_Claim.thy ===== *)
theory Queue_Claim
  imports Queue_Steps
begin

section \<open>The claim transaction\<close>

text \<open>
  What \<open>claim\<close> does: the candidate loop returns the first run of the scheduling order that
  is eligible (claimable, its tenant below its quota, its workspace row not held by another
  transaction), the writes that follow succeed on every database that satisfies the queue
  invariant when the tokens are fresh, and the invariant holds afterwards.
\<close>

subsection \<open>Eligible runs\<close>

definition tenant_limit :: "queue_config \<Rightarrow> database \<Rightarrow> uuid \<Rightarrow> int" where
  "tenant_limit cfg db tenant =
     tq_max_active_runs
       (case select_one (\<lambda>q. tqr_tenant_id q = tenant) (db_quotas db) of
          None \<Rightarrow> qc_default_quota cfg
        | Some q \<Rightarrow> tqr_quota q)"

definition tenant_active :: "database \<Rightarrow> uuid \<Rightarrow> int" where
  "tenant_active db tenant = int (count_where (\<lambda>l. le_tenant_id l = tenant) (db_run_leases db))"

definition workspace_held :: "row_locks \<Rightarrow> database \<Rightarrow> uuid \<times> uuid \<Rightarrow> bool" where
  "workspace_held locks db key \<longleftrightarrow>
     lk_workspaces locks key \<and> list_ex (\<lambda>w. ws_key w = key) (db_workspace_leases db)"

definition eligible :: "queue_config \<Rightarrow> row_locks \<Rightarrow> database \<Rightarrow> RunRecord \<Rightarrow> bool" where
  "eligible cfg locks db r \<longleftrightarrow>
     claimable db r \<and> \<not> lk_runs locks (rr_id r)
   \<and> tenant_active db (rr_tenant_id r) < tenant_limit cfg db (rr_tenant_id r)
   \<and> \<not> workspace_held locks db (run_workspace_key r)"

subsection \<open>The loop\<close>

lemma quotas_simps [simp]:
  "claimable (db\<lparr>db_quotas := q\<rparr>) r = claimable db r"
  "run_session (db\<lparr>db_quotas := q\<rparr>) r = run_session db r"
  "tenant_active (db\<lparr>db_quotas := q\<rparr>) = tenant_active db"
  "workspace_held locks (db\<lparr>db_quotas := q\<rparr>) = workspace_held locks db"
  by (simp_all add: claimable_def run_session_def tenant_active_def workspace_held_def fun_eq_iff)

lemma select_one_append:
  "select_one p (xs @ ys) = (case select_one p xs of None \<Rightarrow> select_one p ys | Some x \<Rightarrow> Some x)"
  by (induction xs) simp_all

lemma ensure_tenant_quota_limit:
  assumes "ensure_tenant_quota tenant (qc_default_quota cfg) t db = Inr (q, db1)"
  shows "tq_max_active_runs (tqr_quota q) = tenant_limit cfg db tenant"
    and "tenant_limit cfg db1 = tenant_limit cfg db"
proof -
  let ?p = "\<lambda>u q. tqr_tenant_id q = (u :: uuid)"
  have ex: "list_ex (?p tenant) (db_quotas db) \<longleftrightarrow> select_one (?p tenant) (db_quotas db) \<noteq> None"
    by (simp add: select_one_None list_ex_iff)
  show "tq_max_active_runs (tqr_quota q) = tenant_limit cfg db tenant"
  proof (cases "select_one (?p tenant) (db_quotas db)")
    case None
    with assms ex show ?thesis
      by (simp add: ensure_tenant_quota_def Let_def tenant_limit_def select_one_append)
        (metis TenantQuotaRecord.select_convs(2))
  next
    case (Some a)
    with assms ex show ?thesis by (simp add: ensure_tenant_quota_def Let_def tenant_limit_def)
  qed
  show "tenant_limit cfg db1 = tenant_limit cfg db"
  proof
    fix u
    show "tenant_limit cfg db1 u = tenant_limit cfg db u"
    proof (cases "select_one (?p tenant) (db_quotas db)")
      case None
      with assms ex show ?thesis
        by (auto simp: ensure_tenant_quota_def Let_def tenant_limit_def select_one_append
            split: option.splits if_splits)
    next
      case (Some a)
      with assms ex show ?thesis
        by (auto simp: ensure_tenant_quota_def Let_def tenant_limit_def)
    qed
  qed
qed

lemma queue_inv_quotas:
  assumes "queue_inv db" "constraints_ok (db\<lparr>db_quotas := q\<rparr>)"
  shows "queue_inv (db\<lparr>db_quotas := q\<rparr>)"
  using assms by (simp add: queue_inv_def lease_inv_def names_ok_def)

lemma queue_inv_ensure_quota:
  assumes inv: "queue_inv db" and d: "quota_ok d"
    and e: "ensure_tenant_quota tenant d t db = Inr (q, db1)"
  shows "queue_inv db1"
proof -
  obtain quotas where db1: "db1 = db\<lparr>db_quotas := quotas\<rparr>"
    and qs: "distinct (map tqr_tenant_id quotas)" "list_all quota_row_ok quotas"
    using ensure_tenant_quota_ok [of tenant d t db] e d queue_invD(1) [OF inv]
    by (auto simp: constraints_ok_def unique_ok_def rows_ok_def)
  show ?thesis
    unfolding db1 by (rule queue_inv_quotas [OF inv constraints_quotas [OF queue_invD(1) [OF inv] qs]])
qed

definition free_workspace :: "uuid \<times> uuid \<Rightarrow> WorkspaceLeaseRecord" where
  "free_workspace key =
     \<lparr>ws_tenant_id = fst key, ws_workspace_id = snd key, ws_run_id = None, ws_worker_id = None,
      ws_run_lease_token = None, ws_lease_token = None, ws_generation = 0, ws_acquired_at = None,
      ws_expires_at = None\<rparr>"

lemma free_workspace_simps [simp]:
  "ws_key (free_workspace key) = key" "ws_lease_token (free_workspace key) = None"
  "ws_run_lease_token (free_workspace key) = None" "workspace_row_ok (free_workspace key)"
  by (simp_all add: free_workspace_def ws_key_def workspace_row_ok_def)

lemma queue_inv_free_workspace:
  assumes inv: "queue_inv db" and new: "key \<notin> ws_key ` set (db_workspace_leases db)"
  shows "queue_inv (db\<lparr>db_workspace_leases := db_workspace_leases db @ [free_workspace key]\<rparr>)"
proof -
  have "constraints_ok (db\<lparr>db_workspace_leases := db_workspace_leases db @ [free_workspace key]\<rparr>)"
    by (rule constraints_append_workspace [OF queue_invD(1) [OF inv]]) (simp_all add: new)
  with inv show ?thesis
    by (simp add: queue_inv_def lease_inv_def names_ok_def writers_leased_def)
qed

text \<open>The workspace row of a claimable run is free, whether it exists or is inserted.\<close>

lemma claim_workspace_cases [consumes 2, case_names held existing inserted]:
  assumes "claimable db r" "key = run_workspace_key r"
  obtains (held) "workspace_held locks db key" "claim_workspace (lk_workspaces locks) key db = (None, db)"
    | (existing) w where "\<not> workspace_held locks db key" "w \<in> set (db_workspace_leases db)" "ws_key w = key"
        "ws_lease_token w = None" "claim_workspace (lk_workspaces locks) key db = (Some w, db)"
    | (inserted) "\<not> workspace_held locks db key" "key \<notin> ws_key ` set (db_workspace_leases db)"
        "claim_workspace (lk_workspaces locks) key db =
          (Some (free_workspace key),
           db\<lparr>db_workspace_leases := db_workspace_leases db @ [free_workspace key]\<rparr>)"
proof (cases "select_one (\<lambda>w. ws_key w = key) (db_workspace_leases db)")
  case None
  then have "claim_workspace (lk_workspaces locks) key db =
      (Some (free_workspace key), db\<lparr>db_workspace_leases := db_workspace_leases db @ [free_workspace key]\<rparr>)"
    by (simp add: claim_workspace_def Let_def free_workspace_def)
  moreover have "key \<notin> ws_key ` set (db_workspace_leases db)" using None by (auto simp: select_one_None)
  ultimately show ?thesis by (intro inserted) (auto simp: workspace_held_def list_ex_iff)
next
  case (Some w)
  note w = select_one_Some [OF Some]
  then have "list_ex (\<lambda>w. ws_key w = key) (db_workspace_leases db)" by (auto simp: list_ex_iff)
  moreover have "ws_lease_token w = None" using w assms by (auto simp: claimable_def list_ex_iff)
  ultimately show ?thesis
    using Some w held existing by (cases "lk_workspaces locks key") (auto simp: claim_workspace_def workspace_held_def)
qed

text \<open>What the loop returns.\<close>

definition claim_selects ::
    "queue_config \<Rightarrow> row_locks \<Rightarrow> timestamp \<Rightarrow> database \<Rightarrow> RunRecord \<Rightarrow> string \<Rightarrow> WorkspaceLeaseRecord \<Rightarrow> bool"
where
  "claim_selects cfg locks t db run route w \<longleftrightarrow>
     run \<in> set (db_runs db) \<and> eligible cfg locks db run
   \<and> (\<forall>r \<in> set (db_runs db). eligible cfg locks db r \<longrightarrow>
        claim_order (qc_admission_policy cfg) t run \<le> claim_order (qc_admission_policy cfg) t r)
   \<and> (\<exists>s. run_session db run = Some s \<and> route = session_model_route s)
   \<and> ws_key w = run_workspace_key run \<and> ws_lease_token w = None"

text \<open>The loop writes quota rows and one free workspace row only.\<close>

definition claim_touches :: "database \<Rightarrow> database \<Rightarrow> bool" where
  "claim_touches db db1 \<longleftrightarrow>
     (\<exists>q ws. db1 = db\<lparr>db_quotas := q, db_workspace_leases := ws\<rparr>
        \<and> (ws = db_workspace_leases db \<or> (\<exists>key. ws = db_workspace_leases db @ [free_workspace key])))"

lemma claim_touches_refl: "claim_touches db db"
  unfolding claim_touches_def by (intro exI [of _ "db_quotas db"] exI [of _ "db_workspace_leases db"]) simp

lemma claim_touches_quotas: "claim_touches (db\<lparr>db_quotas := q\<rparr>) db1 \<Longrightarrow> claim_touches db db1"
  by (fastforce simp: claim_touches_def)

lemma count_where_less:
  "c \<in> set t \<Longrightarrow> p c \<Longrightarrow> \<not> p' c \<Longrightarrow> (\<And>r. p' r \<Longrightarrow> p r) \<Longrightarrow> count_where p' t < count_where p t"
proof (induction t)
  case (Cons a t)
  have "count_where p' t \<le> count_where p t" using Cons.prems(4) by (induction t) auto
  with Cons show ?case by auto
qed simp

lemma claim_loop_spec:
  assumes "distinct (map rr_id (db_runs db))"
    and "\<forall>r \<in> set (db_runs db). rr_id r \<in> set skipped \<longrightarrow> \<not> eligible cfg locks db r"
  shows "\<exists>res db1. claim_loop cfg locks t n skipped db = Inr (res, db1) \<and> claim_touches db db1
    \<and> (queue_inv db \<longrightarrow> quota_ok (qc_default_quota cfg) \<longrightarrow> queue_inv db1)
    \<and> (case res of
         None \<Rightarrow> count_where (\<lambda>r. claimable db r \<and> rr_id r \<notin> set skipped \<and> \<not> lk_runs locks (rr_id r))
                   (db_runs db) \<le> n \<longrightarrow> (\<forall>r \<in> set (db_runs db). \<not> eligible cfg locks db r)
       | Some (run, route, w) \<Rightarrow>
           claim_selects cfg locks t db run route w \<and> w \<in> set (db_workspace_leases db1))"
  using assms
proof (induction n arbitrary: skipped db)
  case 0
  have "\<not> eligible cfg locks db r"
    if "count_where (\<lambda>r. claimable db r \<and> rr_id r \<notin> set skipped \<and> \<not> lk_runs locks (rr_id r)) (db_runs db) = 0"
      "r \<in> set (db_runs db)" for r
    using that 0 by (auto simp: count_where_def eligible_def filter_empty_conv)
  then show ?case by (auto simp: claim_touches_refl)
next
  case (Suc n)
  let ?p = "\<lambda>db sk r. claimable db r \<and> rr_id r \<notin> set sk \<and> \<not> lk_runs locks (rr_id r)"
  let ?order = "claim_order (qc_admission_policy cfg) t"
  show ?case
  proof (cases "select_ordered ?order 1 (?p db skipped) (db_runs db)")
    case Nil
    then have "\<forall>r \<in> set (db_runs db). \<not> ?p db skipped r" by (simp only: select_ordered_empty)
    then have "\<forall>r \<in> set (db_runs db). \<not> eligible cfg locks db r"
      using Suc.prems by (auto simp: eligible_def)
    with Nil show ?thesis by (simp add: claim_touches_refl)
  next
    case (Cons c cs)
    note sel = select_ordered_first [OF Cons]
    then have c: "c \<in> set (db_runs db)" "claimable db c" "rr_id c \<notin> set skipped" "\<not> lk_runs locks (rr_id c)"
      by auto
    obtain q quotas where
      e: "ensure_tenant_quota (rr_tenant_id c) (qc_default_quota cfg) t db = Inr (q, db\<lparr>db_quotas := quotas\<rparr>)"
      using ensure_tenant_quota_ok [of "rr_tenant_id c" "qc_default_quota cfg" t db] by blast
    let ?db1 = "db\<lparr>db_quotas := quotas\<rparr>"
    note lim = ensure_tenant_quota_limit [OF e]
    have elig: "eligible cfg locks ?db1 r = eligible cfg locks db r" for r
      using lim(2) by (simp add: eligible_def)
    have inv1: "queue_inv db \<longrightarrow> quota_ok (qc_default_quota cfg) \<longrightarrow> queue_inv ?db1"
      using queue_inv_ensure_quota [OF _ _ e] by blast
    have skip: ?thesis
      if no: "\<not> eligible cfg locks db c"
        and step: "claim_loop cfg locks t (Suc n) skipped db = claim_loop cfg locks t n (skipped @ [rr_id c]) ?db1"
    proof -
      have "\<forall>r \<in> set (db_runs ?db1). rr_id r \<in> set (skipped @ [rr_id c]) \<longrightarrow> \<not> eligible cfg locks ?db1 r"
        using Suc.prems no c(1) distinct_eq [OF Suc.prems(1)] unfolding elig by fastforce
      with Suc.prems(1) have IH: "\<exists>res db2. claim_loop cfg locks t n (skipped @ [rr_id c]) ?db1 = Inr (res, db2)
          \<and> claim_touches ?db1 db2 \<and> (queue_inv ?db1 \<longrightarrow> quota_ok (qc_default_quota cfg) \<longrightarrow> queue_inv db2)
          \<and> (case res of
               None \<Rightarrow> count_where (?p ?db1 (skipped @ [rr_id c])) (db_runs ?db1) \<le> n \<longrightarrow>
                 (\<forall>r \<in> set (db_runs ?db1). \<not> eligible cfg locks ?db1 r)
             | Some (run, route, w) \<Rightarrow>
                 claim_selects cfg locks t ?db1 run route w \<and> w \<in> set (db_workspace_leases db2))"
        by (intro Suc.IH) simp_all
      then obtain res db2 where IH: "claim_loop cfg locks t n (skipped @ [rr_id c]) ?db1 = Inr (res, db2)"
        "claim_touches ?db1 db2" "queue_inv ?db1 \<longrightarrow> quota_ok (qc_default_quota cfg) \<longrightarrow> queue_inv db2"
        "case res of
               None \<Rightarrow> count_where (?p ?db1 (skipped @ [rr_id c])) (db_runs ?db1) \<le> n \<longrightarrow>
                 (\<forall>r \<in> set (db_runs ?db1). \<not> eligible cfg locks ?db1 r)
             | Some (run, route, w) \<Rightarrow>
                 claim_selects cfg locks t ?db1 run route w \<and> w \<in> set (db_workspace_leases db2)"
        by blast
      have "count_where (?p ?db1 (skipped @ [rr_id c])) (db_runs ?db1) < count_where (?p db skipped) (db_runs db)"
        using c by (simp, intro count_where_less [OF c(1)]) auto
      then have "case res of
          None \<Rightarrow> count_where (?p db skipped) (db_runs db) \<le> Suc n \<longrightarrow>
            (\<forall>r \<in> set (db_runs db). \<not> eligible cfg locks db r)
        | Some (run, route, w) \<Rightarrow>
            claim_selects cfg locks t db run route w \<and> w \<in> set (db_workspace_leases db2)"
        using IH(4) by (cases res) (auto simp: elig claim_selects_def)
      with IH(1-3) inv1 claim_touches_quotas [OF IH(2)] show ?thesis unfolding step by blast
    qed
    have at_quota: "int (count_where (\<lambda>l. le_tenant_id l = rr_tenant_id c) (db_run_leases ?db1))
        \<ge> tq_max_active_runs (tqr_quota q) \<longleftrightarrow>
        \<not> tenant_active db (rr_tenant_id c) < tenant_limit cfg db (rr_tenant_id c)"
      using lim(1) by (auto simp: tenant_active_def)
    show ?thesis
    proof (cases "tenant_active db (rr_tenant_id c) < tenant_limit cfg db (rr_tenant_id c)")
      case False
      show ?thesis
        by (rule skip) (use False Cons e at_quota in \<open>auto simp: eligible_def\<close>)
    next
      case under: True
      obtain s where s: "run_session db c = Some s" using c(2) by (auto simp: claimable_def)
      have touch: "claim_touches db ?db1" by (rule claim_touches_quotas [OF claim_touches_refl])
      have selects: "claim_selects cfg locks t db c (session_model_route s) w"
        if "\<not> workspace_held locks ?db1 (run_workspace_key c)" "ws_key w = run_workspace_key c"
          "ws_lease_token w = None" for w
      proof -
        have "eligible cfg locks db c" using that(1) under c by (simp add: eligible_def)
        moreover have "?order c \<le> ?order r" if r: "r \<in> set (db_runs db)" "eligible cfg locks db r" for r
          using sel(3) [OF r(1)] r Suc.prems(2) by (auto simp: eligible_def)
        ultimately show ?thesis using that c(1) s by (auto simp: claim_selects_def)
      qed
      have "claimable ?db1 c" using c(2) by simp
      then show ?thesis using refl [of "run_workspace_key c"]
      proof (cases rule: claim_workspace_cases [where locks = locks])
        case held
        show ?thesis
          by (rule skip) (use held under Cons e at_quota in \<open>auto simp: eligible_def\<close>)
      next
        case (existing w)
        have "claim_loop cfg locks t (Suc n) skipped db = Inr (Some (c, session_model_route s, w), ?db1)"
          using existing under Cons e at_quota s by simp
        moreover have "claim_selects cfg locks t db c (session_model_route s) w"
          using existing by (intro selects) simp_all
        ultimately show ?thesis using existing inv1 touch by simp
      next
        case inserted
        let ?w = "free_workspace (run_workspace_key c)"
        let ?db2 = "?db1\<lparr>db_workspace_leases := db_workspace_leases ?db1 @ [?w]\<rparr>"
        have "claim_loop cfg locks t (Suc n) skipped db = Inr (Some (c, session_model_route s, ?w), ?db2)"
          using inserted under Cons e at_quota s by simp
        moreover have "claim_selects cfg locks t db c (session_model_route s) ?w"
          using inserted by (intro selects) simp_all
        moreover have "claim_touches db ?db2"
          unfolding claim_touches_def
          by (intro exI [of _ quotas] exI [of _ "db_workspace_leases db @ [?w]"] conjI disjI2
              exI [of _ "run_workspace_key c"]) simp_all
        moreover have "queue_inv db \<longrightarrow> quota_ok (qc_default_quota cfg) \<longrightarrow> queue_inv ?db2"
          using queue_inv_free_workspace [OF _ inserted(2)] inv1 by blast
        ultimately show ?thesis by simp
      qed
    qed
  qed
qed

subsection \<open>The transaction\<close>

lemma operation_time_ok [simp]:
  "operation_time d code = Inr t \<longleftrightarrow> normalize_timestamp d = Inr t"
  by (simp add: operation_time_def split: sum.splits)

lemma lease_expiry_ok [simp]:
  "lease_expiry t dur code = Inr x \<longleftrightarrow> 0 < dur \<and> dur \<le> 3600 * 1000000 \<and> x = t + dur"
  by (auto simp: lease_expiry_def MAX_LEASE_SECONDS_def)

lemma new_token_ok [simp]: "new_token tok = Inr u \<longleftrightarrow> tok = Some u"
  by (simp add: new_token_def split: option.splits)

text \<open>
  A claim that selected \<open>row\<close>: the row, the worker and the workspace row before it, and
  the database after it.
\<close>

definition claims ::
    "queue_config \<Rightarrow> row_locks \<Rightarrow> timestamp \<Rightarrow> timestamp \<Rightarrow> uuid \<Rightarrow> uuid \<Rightarrow> WorkerRecord \<Rightarrow> RunRecord \<Rightarrow>
     string \<Rightarrow> WorkspaceLeaseRecord \<Rightarrow> database \<Rightarrow> database \<Rightarrow> database \<Rightarrow> bool"
where
  "claims cfg locks t x lt wt worker row route w db db1 db' \<longleftrightarrow>
     worker \<in> set (db_workers db) \<and> wr_status worker = WORKER_ACTIVE \<and> 0 < wr_available_slots worker
   \<and> claim_selects cfg locks t db row route w \<and> w \<in> set (db_workspace_leases db1)
   \<and> claim_touches db db1 \<and> comparison_start (rr_run row) \<le> t \<and> t < x
   \<and> db' = claimed_db worker t x lt wt row w db1"

lemma claim_touches_tables:
  assumes "claim_touches db db1"
  shows "db_runs db1 = db_runs db" "db_workers db1 = db_workers db" "db_sessions db1 = db_sessions db"
    "db_run_leases db1 = db_run_leases db" "db_memory_jobs db1 = db_memory_jobs db"
    "set (db_workspace_leases db) \<subseteq> set (db_workspace_leases db1)"
  using assms by (auto simp: claim_touches_def)

lemma claim_ok_cases:
  assumes inv: "queue_inv db" and quota: "quota_ok (qc_default_quota cfg)"
    and ok: "claim cfg locks tok1 tok2 worker_id d dur db = Inr (res, db')"
  shows "(res = None \<and> queue_inv db' \<and> claim_touches db db')
    \<or> (\<exists>t x lt wt worker row route w db1 lease.
         normalize_timestamp d = Inr t \<and> x = t + dur \<and> tok1 = Some lt \<and> tok2 = Some wt
       \<and> wr_worker_id worker = worker_id
       \<and> claims cfg locks t x lt wt worker row route w db db1 db' \<and> queue_inv db1 \<and> constraints_ok db'
       \<and> res = Some lease
       \<and> run_lease_domain (claim_lease_row worker_id t x lt row) (claimed_run worker_id t x row) route = Inr lease)"
proof -
  from ok obtain t where t: "normalize_timestamp d = Inr t" and dur: "0 < dur" "dur \<le> 3600 * 1000000"
    by (auto simp: claim_def bindE_eq_Inr)
  let ?x = "t + dur"
  from ok t dur obtain worker where
    sel: "select_one (\<lambda>w. wr_worker_id w = worker_id) (db_workers db) = Some worker"
    by (cases "select_one (\<lambda>w. wr_worker_id w = worker_id) (db_workers db)")
      (auto simp: claim_def bindE_eq_Inr)
  note worker = select_one_Some [OF sel]
  show ?thesis
  proof (cases "wr_status worker \<noteq> WORKER_ACTIVE \<or> wr_available_slots worker \<le> 0")
    case True
    with ok t dur sel have "res = None" "db' = db" by (auto simp: claim_def bindE_eq_Inr)
    with inv show ?thesis by (simp add: claim_touches_refl)
  next
    case False
    obtain sel_res db1 where
      loop: "claim_loop cfg locks t MAX_CLAIM_CANDIDATES [] db = Inr (sel_res, db1)"
      and touch: "claim_touches db db1" and inv1: "queue_inv db1"
      and spec: "\<And>row route w. sel_res = Some (row, route, w) \<Longrightarrow>
        claim_selects cfg locks t db row route w \<and> w \<in> set (db_workspace_leases db1)"
      using claim_loop_spec [OF queue_invD(7) [OF inv], of "[]" cfg locks t MAX_CLAIM_CANDIDATES] inv quota
      by fastforce
    show ?thesis
    proof (cases sel_res)
      case None
      with ok t dur sel False loop have "res = None" "db' = db1"
        by (auto simp: claim_def bindE_eq_Inr split: if_splits)
      with touch inv1 show ?thesis by simp
    next
      case (Some sr)
      obtain row route w where sr: "sr = (row, route, w)" by (cases sr) auto
      note S = spec [OF Some [unfolded sr]]
      have row: "row \<in> set (db_runs db)" "rr_status row = QUEUED"
        using S by (auto simp: claim_selects_def eligible_def claimable_def)
      have v: "run_valid (rr_run row)"
        using lease_invD(1) [OF queue_invD(2) [OF inv]] row(1) by (simp add: runs_valid_def)
      have named: "py_strip worker_id = worker_id" "worker_id \<noteq> []" "length worker_id \<le> 255"
        using lease_invD(6) [OF queue_invD(2) [OF inv]] worker by (auto simp: names_ok_def worker_named_def)
      have tx: "t < ?x" using dur by simp
      from ok t dur sel False loop Some sr run_domain_ok [OF v]
      obtain lt wt lease where lw: "tok1 = Some lt" "tok2 = Some wt"
        and tr: "comparison_start (rr_run row) \<le> t"
        and db': "db' = claimed_db worker t ?x lt wt row w db1" "constraints_ok db'"
        and lease: "res = Some lease"
          "run_lease_domain (claim_lease_row worker_id t ?x lt row) (claimed_run worker_id t ?x row) route = Inr lease"
        using worker
        by (auto simp: claim_def bindE_eq_Inr Let_def transition_leased_iff [OF v named tx]
            claimed_run_def claimed_db_def split: if_splits)
      have "claims cfg locks t ?x lt wt worker row route w db db1 db'"
        using worker False S touch tr tx db' by (auto simp: claims_def)
      with t lw worker inv1 db'(2) lease show ?thesis by blast
    qed
  qed
qed

lemma claims_valid:
  assumes inv: "queue_inv db" and c: "claims cfg locks t x lt wt worker row route w db db1 db'"
  shows "row \<in> set (db_runs db1)" "rr_status row = QUEUED" "run_valid (rr_run row)"
    "worker \<in> set (db_workers db1)" "0 < wr_available_slots worker" "t < x"
    "w \<in> set (db_workspace_leases db1)" "ws_key w = run_workspace_key row"
    "run_valid (rr_run (claimed_run (wr_worker_id worker) t x row))"
proof -
  have touch: "claim_touches db db1" using c by (simp add: claims_def)
  note T = claim_touches_tables [OF touch]
  show row: "row \<in> set (db_runs db1)" "rr_status row = QUEUED"
    using c T(1) by (auto simp: claims_def claim_selects_def eligible_def claimable_def)
  show v: "run_valid (rr_run row)"
    using lease_invD(1) [OF queue_invD(2) [OF inv]] row(1) T(1) by (simp add: runs_valid_def)
  show "worker \<in> set (db_workers db1)" "0 < wr_available_slots worker" "t < x"
    "w \<in> set (db_workspace_leases db1)" "ws_key w = run_workspace_key row"
    using c T(2) by (auto simp: claims_def claim_selects_def)
  have "worker_named (wr_worker_id worker)"
    using lease_invD(6) [OF queue_invD(2) [OF inv]] c by (auto simp: names_ok_def claims_def)
  then have "IdentifierString ''assigned_worker_id'' (wr_worker_id worker) = Inr (wr_worker_id worker)"
    using IdentifierString_py_strip [of "wr_worker_id worker"] by (simp add: worker_named_def)
  then show "run_valid (rr_run (claimed_run (wr_worker_id worker) t x row))"
    unfolding claimed_run_def RunRecord.simps
    using transition_spec_valid [OF v, of LEASED] row(2) c by (simp add: claims_def)
qed

lemma claim_queue_inv:
  assumes inv: "queue_inv db" and quota: "quota_ok (qc_default_quota cfg)"
    and ok: "claim cfg locks tok1 tok2 worker_id d dur db = Inr (res, db')"
  shows "queue_inv db'"
  using claim_ok_cases [OF assms]
proof (elim disjE exE conjE)
  fix t x lt wt worker row route w db1 lease
  assume c: "claims cfg locks t x lt wt worker row route w db db1 db'" and "queue_inv db1" "constraints_ok db'"
  note V = claims_valid [OF inv c]
  have "lease_inv (claimed_db worker t x lt wt row w db1)"
    by (rule lease_inv_claim [OF \<open>queue_inv db1\<close> V(1,2,4,5,7,8,9)])
  with c \<open>constraints_ok db'\<close> show "queue_inv db'" by (simp add: queue_inv_def claims_def)
qed

subsection \<open>The lease a worker receives\<close>

lemma run_lease_domain_fields:
  assumes "run_lease_domain l r route = Inr lease"
  shows "rl_tenant_id lease = le_tenant_id l" "rl_run_id lease = le_run_id l"
    "rl_lease_token lease = le_lease_token l" "rl_generation lease = le_generation l"
    "rl_acquired_at lease = le_acquired_at l" "rl_expires_at lease = le_expires_at l"
    "rl_session_id lease = run_session_id (rr_run r)" "rl_workspace_id lease = run_workspace_id (rr_run r)"
    "rl_attempt lease = run_attempt (rr_run r)" "rl_execution_epoch lease = run_execution_epoch (rr_run r)"
    "IdentifierString ''worker_id'' (le_worker_id l) = Inr (rl_worker_id lease)"
  using assms
  by (auto simp: run_lease_domain_def run_lease_model_validate_def bindE_eq_Inr Let_def)

lemma run_lease_domain_ok:
  assumes v: "run_valid (rr_run r)" and w: "worker_named (le_worker_id l)"
    and n: "IdentifierString ''route_name'' route = Inr route"
    and g: "1 \<le> le_generation l" and a: "le_acquired_at l < le_expires_at l"
      "run_created_at (rr_run r) \<le> le_acquired_at l"
  shows "\<exists>lease. run_lease_domain l r route = Inr lease"
proof -
  have f: "run_fields_ok (rr_run r)" and lc: "run_lifecycle_ok (rr_run r)" using v by (simp_all add: run_valid_def)
  have "IdentifierString ''worker_id'' (le_worker_id l) = Inr (le_worker_id l)"
    using w IdentifierString_py_strip [of "le_worker_id l"] by (simp add: worker_named_def)
  moreover have "optional (TraceParent ''traceparent'') (run_traceparent (rr_run r)) = Inr (run_traceparent (rr_run r))"
    using f by (cases "run_traceparent (rr_run r)") (simp_all add: run_fields_ok_def TraceParent_def)
  moreover have "optional (TraceState ''tracestate'') (run_tracestate (rr_run r)) = Inr (run_tracestate (rr_run r))"
    using f by (cases "run_tracestate (rr_run r)") (simp_all add: run_fields_ok_def TraceState_def)
  moreover have "\<not> (run_tracestate (rr_run r) \<noteq> None \<and> run_traceparent (rr_run r) = None)"
    using lc by (simp add: run_lifecycle_ok_def)
  moreover have "1 \<le> run_attempt (rr_run r)" "1 \<le> run_execution_epoch (rr_run r)"
    "-100 \<le> run_priority (rr_run r)" "run_priority (rr_run r) \<le> 100"
    using f by (simp_all add: run_fields_ok_def)
  ultimately show ?thesis
    using n g a by (auto simp: run_lease_domain_def run_lease_model_validate_def run_lease_validate_window_def)
qed

lemma comparison_start_created:
  "run_valid r \<Longrightarrow> run_created_at r \<le> comparison_start r"
  by (auto simp: run_valid_def run_lifecycle_ok_def comparison_start_def split: option.splits)

lemma session_route_ok:
  assumes "queue_inv db" "run_session db r = Some s"
  shows "IdentifierString ''route_name'' (session_model_route s) = Inr (session_model_route s)"
  using lease_invD(6) [OF queue_invD(2) [OF assms(1)]] select_one_Some [OF assms(2) [unfolded run_session_def]]
  by (simp add: names_ok_def)

text \<open>With an eligible run, a free slot and fresh tokens, the claim goes through.\<close>

lemma claim_goes_through:
  assumes inv: "queue_inv db" and quota: "quota_ok (qc_default_quota cfg)"
    and t: "normalize_timestamp d = Inr t" and dur: "0 < dur" "dur \<le> 3600 * 1000000"
    and worker: "worker \<in> set (db_workers db)" "wr_status worker = WORKER_ACTIVE" "0 < wr_available_slots worker"
    and few: "count_where (\<lambda>r. claimable db r \<and> \<not> lk_runs locks (rr_id r)) (db_runs db) \<le> MAX_CLAIM_CANDIDATES"
    and r: "r \<in> set (db_runs db)" "eligible cfg locks db r"
    and times: "\<And>r. r \<in> set (db_runs db) \<Longrightarrow> eligible cfg locks db r \<Longrightarrow> comparison_start (rr_run r) \<le> t"
    and fresh: "lt \<notin> le_lease_token ` set (db_run_leases db)"
      "Some wt \<notin> ws_lease_token ` set (db_workspace_leases db)"
  shows "\<exists>lease db'. claim cfg locks (Some lt) (Some wt) (wr_worker_id worker) d dur db = Inr (Some lease, db')"
proof -
  let ?i = "wr_worker_id worker" and ?x = "t + dur"
  have sel: "select_one (\<lambda>w. wr_worker_id w = ?i) (db_workers db) = Some worker"
    by (rule select_one_key [OF queue_invD(6) [OF inv] worker(1)])
  obtain sel_res db1 where
    loop: "claim_loop cfg locks t MAX_CLAIM_CANDIDATES [] db = Inr (sel_res, db1)"
    and touch: "claim_touches db db1" and inv1: "queue_inv db1"
    and none: "sel_res = None \<Longrightarrow> (\<forall>r \<in> set (db_runs db). \<not> eligible cfg locks db r)"
    and spec: "\<And>row route w. sel_res = Some (row, route, w) \<Longrightarrow>
        claim_selects cfg locks t db row route w \<and> w \<in> set (db_workspace_leases db1)"
    using claim_loop_spec [OF queue_invD(7) [OF inv], of "[]" cfg locks t MAX_CLAIM_CANDIDATES] inv quota few
    by fastforce
  from none r obtain row route w where sr: "sel_res = Some (row, route, w)" by (cases sel_res) auto
  note S = spec [OF sr]
  have start: "comparison_start (rr_run row) \<le> t" using S times by (auto simp: claim_selects_def)
  have tx: "t < ?x" using dur by simp
  have c: "claims cfg locks t ?x lt wt worker row route w db db1 (claimed_db worker t ?x lt wt row w db1)"
    using S worker touch start tx by (simp add: claims_def)
  note V = claims_valid [OF inv c]
  have named: "worker_named ?i" using lease_invD(6) [OF queue_invD(2) [OF inv]] worker by (simp add: names_ok_def)
  have ws: "Some wt \<notin> ws_lease_token ` set (db_workspace_leases db1)"
    using touch fresh(2) by (auto simp: claim_touches_def)
  have "lt \<notin> le_lease_token ` set (db_run_leases db1)" using fresh claim_touches_tables(4) [OF touch] by simp
  then have con: "constraints_ok (claimed_db worker t ?x lt wt row w db1)"
    using constraints_claim [OF inv1 V(1,2,4,5,7,8,9,6)] ws by blast
  have "0 \<le> rr_lease_generation row"
    using queue_invD(3) [OF inv1] V(1) by (auto simp: rows_ok_def list_all_iff run_row_ok_def)
  moreover obtain s where "run_session db row = Some s" "route = session_model_route s"
    using S by (auto simp: claim_selects_def)
  ultimately obtain lease where
    lease: "run_lease_domain (claim_lease_row ?i t ?x lt row) (claimed_run ?i t ?x row) route = Inr lease"
    using run_lease_domain_ok [OF V(9), of "claim_lease_row ?i t ?x lt row" route] named tx
      session_route_ok [OF inv] comparison_start_created [OF V(3)] start
    by (auto simp: claim_lease_row_def claimed_run_def)
  have "claim cfg locks (Some lt) (Some wt) ?i d dur db =
      Inr (Some lease, claimed_db worker t ?x lt wt row w db1)"
    using t dur sel worker loop sr run_domain_ok [OF V(3)] con lease V(2) start
      transition_leased_iff [OF V(3) _ _ _ tx, of ?i "transition_spec (rr_run row) LEASED t ?i ?x"] named
    by (simp add: claim_def worker_named_def lease_expiry_def MAX_LEASE_SECONDS_def operation_time_def
        new_token_def Let_def claimed_run_def claimed_db_def flush_def)
  then show ?thesis by blast
qed

end
