(* ===== verification/Queue_Operations.thy ===== *)
theory Queue_Operations
  imports Queue_Claim
begin

section \<open>The other operations of the queue\<close>

text \<open>
  Worker bookkeeping, start, heartbeat, finish and recovery keep the queue invariant;
  \<open>finish\<close> and \<open>recover_expired\<close> go through under the conditions the code documents and
  leave the tables as described by \<open>finished_row\<close> and \<open>recovered_row\<close>.
\<close>

subsection \<open>Workers\<close>

lemma lease_inv_workers:
  assumes inv: "lease_inv db"
    and w: "worker_named (wr_worker_id w)"
      "wr_available_slots w + worker_load (wr_worker_id w) (db_run_leases db) \<le> wr_total_slots w"
    and sub: "set ws \<subseteq> insert w (set (db_workers db))"
  shows "lease_inv (db\<lparr>db_workers := ws\<rparr>)"
proof -
  have "worker_named (wr_worker_id k)
      \<and> wr_available_slots k + worker_load (wr_worker_id k) (db_run_leases db) \<le> wr_total_slots k"
    if "k \<in> set ws" for k
    using subsetD [OF sub that] w lease_invD(5,6) [OF inv] by (auto simp: slots_ok_def names_ok_def)
  then show ?thesis using lease_invD [OF inv] by (simp add: lease_inv_def slots_ok_def names_ok_def)
qed

lemma put_worker_subset: "set (put_row wr_worker_id w ws) \<subseteq> insert w (set ws)"
  by (auto dest: put_row_mem)

lemma worker_load_active: "worker_load i (db_run_leases db) = int (active_worker_leases db i)"
  by (simp add: worker_load_def active_worker_leases_def)

lemma register_worker_inv:
  assumes inv: "queue_inv db" and named: "worker_named (wr_worker_id reg)"
    and ok: "register_worker reg db = Inr (w, db')"
  shows "queue_inv db'"
proof (cases "select_one (\<lambda>w. wr_worker_id w = wr_worker_id reg) (db_workers db)")
  case None
  with ok have db': "db' = db\<lparr>db_workers := db_workers db @ [reg]\<rparr>" "constraints_ok db'"
    by (auto simp: register_worker_def bindE_eq_Inr)
  have "le_worker_id l \<noteq> wr_worker_id reg" if "l \<in> set (db_run_leases db)" for l
  proof -
    have "le_worker_id l \<in> set (map wr_worker_id (db_workers db))"
      using queue_invD(5) [OF inv] that by (auto simp: foreign_keys_ok_def list_all_iff lease_refers_def)
    with None show ?thesis by (auto simp: select_one_None)
  qed
  then have "worker_load (wr_worker_id reg) (db_run_leases db) = 0"
    by (auto simp: worker_load_def count_where_def filter_empty_conv)
  moreover have "wr_available_slots reg \<le> wr_total_slots reg"
    using db' by (simp add: constraints_ok_def rows_ok_def worker_row_ok_def)
  ultimately have "lease_inv db'"
    unfolding db'(1) by (intro lease_inv_workers [OF queue_invD(2) [OF inv] named]) auto
  with db'(2) show ?thesis by (simp add: queue_inv_def)
next
  case (Some row)
  note row = select_one_Some [OF Some]
  from ok Some obtain row' where
    db': "db' = db\<lparr>db_workers := put_row wr_worker_id row' (db_workers db)\<rparr>" "constraints_ok db'"
    and row': "wr_worker_id row' = wr_worker_id row"
      "wr_available_slots row' \<le> wr_total_slots row' - int (active_worker_leases db (wr_worker_id row))"
    by (auto simp: register_worker_def bindE_eq_Inr Let_def split: if_splits)
  have "lease_inv db'"
    unfolding db'(1)
    by (rule lease_inv_workers [OF queue_invD(2) [OF inv] _ _ put_worker_subset])
      (use row row' named in \<open>auto simp: worker_load_active\<close>)
  with db'(2) show ?thesis by (simp add: queue_inv_def)
qed

lemma worker_row_named:
  "queue_inv db \<Longrightarrow> w \<in> set (db_workers db) \<Longrightarrow> worker_named (wr_worker_id w)"
  using lease_invD(6) [OF queue_invD(2)] by (simp add: names_ok_def)

lemma heartbeat_worker_inv:
  assumes inv: "queue_inv db" and ok: "heartbeat_worker i d slots db = Inr (w, db')"
  shows "queue_inv db'"
proof -
  from ok obtain row where sel: "select_one (\<lambda>w. wr_worker_id w = i) (db_workers db) = Some row"
    by (cases "select_one (\<lambda>w. wr_worker_id w = i) (db_workers db)")
      (auto simp: heartbeat_worker_def bindE_eq_Inr)
  note row = select_one_Some [OF sel]
  from ok sel obtain row' where
    db': "db' = db\<lparr>db_workers := put_row wr_worker_id row' (db_workers db)\<rparr>" "constraints_ok db'"
    and row': "wr_worker_id row' = wr_worker_id row"
      "wr_available_slots row' \<le> wr_total_slots row' - int (active_worker_leases db i)"
    by (cases slots) (auto simp: heartbeat_worker_def bindE_eq_Inr Let_def split: if_splits)
  have "lease_inv db'"
    unfolding db'(1)
    by (rule lease_inv_workers [OF queue_invD(2) [OF inv] _ _ put_worker_subset])
      (use row row' worker_row_named [OF inv conjunct1 [OF row]] in \<open>auto simp: worker_load_active\<close>)
  with db'(2) show ?thesis by (simp add: queue_inv_def)
qed

lemma set_worker_draining_inv:
  assumes inv: "queue_inv db" and ok: "set_worker_draining i b d db = Inr (w, db')"
  shows "queue_inv db'"
proof -
  from ok obtain row where sel: "select_one (\<lambda>w. wr_worker_id w = i) (db_workers db) = Some row"
    by (cases "select_one (\<lambda>w. wr_worker_id w = i) (db_workers db)")
      (auto simp: set_worker_draining_def bindE_eq_Inr)
  note row = select_one_Some [OF sel]
  from ok sel obtain row' where
    db': "db' = db\<lparr>db_workers := put_row wr_worker_id row' (db_workers db)\<rparr>" "constraints_ok db'"
    and row': "wr_worker_id row' = wr_worker_id row" "wr_available_slots row' = wr_available_slots row"
      "wr_total_slots row' = wr_total_slots row"
    by (auto simp: set_worker_draining_def bindE_eq_Inr Let_def split: if_splits)
  have "lease_inv db'"
    unfolding db'(1)
    by (rule lease_inv_workers [OF queue_invD(2) [OF inv] _ _ put_worker_subset])
      (use row row' worker_row_named [OF inv conjunct1 [OF row]] lease_invD(5) [OF queue_invD(2) [OF inv]]
        in \<open>auto simp: slots_ok_def\<close>)
  with db'(2) show ?thesis by (simp add: queue_inv_def)
qed

subsection \<open>The leased state\<close>

lemma locked_lease_stateD:
  assumes "locked_lease_state db lease = Inr (l, r, route)"
  shows "l \<in> set (db_run_leases db)" "lease_matches l lease" "r \<in> set (db_runs db)"
    "rr_tenant_id r = rl_tenant_id lease" "rr_id r = rl_run_id lease"
    "rr_lease_generation r = rl_generation lease" "rr_id r = le_run_id l"
    "run_execution_epoch (rr_run r) = rl_execution_epoch lease"
    "\<exists>s. run_session db r = Some s \<and> route = session_model_route s"
  using assms
  by (auto simp: locked_lease_state_def assert_matching_run_lease_def bindE_eq_Inr lease_matches_def
      split: option.splits if_splits dest!: select_one_Some)

lemma require_unexpired_ok [simp]: "require_unexpired l t i = Inr u \<longleftrightarrow> t < le_expires_at l"
  by (simp add: require_unexpired_def)

text \<open>Replacing a leased run by one that still mirrors its lease.\<close>

lemma lease_inv_move:
  assumes inv: "queue_inv db" and l: "l \<in> set (db_run_leases db)"
    and row: "row \<in> set (db_runs db)" "rr_id row = le_run_id l"
    and row': "rr_id row' = rr_id row" "run_valid (rr_run row')" "mirrors row' l'"
    and l': "le_run_id l' = le_run_id l" "le_lease_token l' = le_lease_token l"
      "le_worker_id l' = le_worker_id l" "le_tenant_id l' = le_tenant_id l"
  shows "lease_inv ((put_run row' db)\<lparr>db_run_leases := put_row le_run_id l' (db_run_leases db)\<rparr>)"
proof -
  note D = lease_invD [OF queue_invD(2) [OF inv]]
  have runs: "set (put_row rr_id row' (db_runs db)) = insert row' (set (db_runs db) - {row})"
    by (rule set_put_row_distinct [OF queue_invD(7) [OF inv] row(1) row'(1)])
  have leases: "set (put_row le_run_id l' (db_run_leases db)) = insert l' (set (db_run_leases db) - {l})"
    by (rule set_put_row_distinct [OF queue_invD(8) [OF inv] l l'(1)])
  have "runs_valid (put_row rr_id row' (db_runs db))"
    using D(1) row'(2) by (auto simp: runs_valid_def runs)
  moreover have "leases_mirrored (put_row rr_id row' (db_runs db)) (put_row le_run_id l' (db_run_leases db))"
    unfolding leases_mirrored_def runs leases
  proof
    fix k
    assume k: "k \<in> insert l' (set (db_run_leases db) - {l})"
    show "\<exists>r \<in> insert row' (set (db_runs db) - {row}). mirrors r k"
    proof (cases "k = l'")
      case True
      with row'(3) show ?thesis by blast
    next
      case False
      with k have k': "k \<in> set (db_run_leases db)" "k \<noteq> l" by auto
      obtain r where r: "r \<in> set (db_runs db)" "mirrors r k" using lease_mirror [OF inv k'(1)] by blast
      have "le_run_id k \<noteq> le_run_id l" using distinct_eq [OF queue_invD(8) [OF inv] k'(1) l] k'(2) by blast
      with r row(2) have "r \<noteq> row" by (auto simp: mirrors_def)
      with r show ?thesis by blast
    qed
  qed
  moreover have "active_runs_leased (put_row rr_id row' (db_runs db)) (put_row le_run_id l' (db_run_leases db))"
    unfolding active_runs_leased_def runs leases
  proof (intro ballI impI)
    fix r
    assume r: "r \<in> insert row' (set (db_runs db) - {row})" "rr_status r \<in> {LEASED, RUNNING}"
    show "\<exists>k \<in> insert l' (set (db_run_leases db) - {l}). le_run_id k = rr_id r"
    proof (cases "r = row'")
      case True
      with row row'(1) l'(1) show ?thesis by auto
    next
      case False
      with r D(3) obtain k where "k \<in> set (db_run_leases db)" "le_run_id k = rr_id r"
        unfolding active_runs_leased_def by auto
      moreover have "rr_id r \<noteq> rr_id row"
        using distinct_eq [OF queue_invD(7) [OF inv] _ row(1)] r False by blast
      ultimately show ?thesis using row(2) by auto
    qed
  qed
  moreover have "writers_leased (db_workspace_leases db) (put_row le_run_id l' (db_run_leases db))"
    unfolding writers_leased_def leases
  proof (intro ballI impI)
    fix w
    assume "w \<in> set (db_workspace_leases db)" "ws_run_lease_token w \<noteq> None"
    then obtain k where k: "k \<in> set (db_run_leases db)" "holds_writer w k"
      using D(4) by (auto simp: writers_leased_def)
    then show "\<exists>k \<in> insert l' (set (db_run_leases db) - {l}). holds_writer w k"
      by (cases "k = l") (auto simp: holds_writer_def l')
  qed
  moreover have "slots_ok (db_workers db) (put_row le_run_id l' (db_run_leases db))"
  proof -
    have "worker_load i (put_row le_run_id l' (db_run_leases db)) = worker_load i (db_run_leases db)" for i
      unfolding worker_load_def
      using count_put_row_same [of "db_run_leases db" le_run_id l' "\<lambda>k. le_worker_id k = i"] l'
        distinct_eq [OF queue_invD(8) [OF inv] _ l] by fastforce
    with D(5) show ?thesis by (simp add: slots_ok_def)
  qed
  moreover have "names_ok ((put_run row' db)\<lparr>db_run_leases := put_row le_run_id l' (db_run_leases db)\<rparr>)"
    using D(6) by (simp add: names_ok_def)
  ultimately show ?thesis by (simp add: lease_inv_def)
qed

lemma put_row_same: "distinct (map key t) \<Longrightarrow> r \<in> set t \<Longrightarrow> put_row key r t = t"
  unfolding put_row_def update_where_def by (rule map_idI) (auto dest: distinct_eq)

subsection \<open>Start and heartbeat\<close>

lemma lease_inv_put_run:
  assumes inv: "queue_inv db" and l: "l \<in> set (db_run_leases db)"
    and row: "row \<in> set (db_runs db)" "rr_id row = le_run_id l"
    and row': "rr_id row' = rr_id row" "run_valid (rr_run row')" "mirrors row' l"
  shows "lease_inv (put_run row' db)"
proof -
  have "(put_run row' db)\<lparr>db_run_leases := put_row le_run_id l (db_run_leases db)\<rparr> = put_run row' db"
    using put_row_same [OF queue_invD(8) [OF inv] l] by (simp add: put_run_def)
  with lease_inv_move [OF inv l row row'] show ?thesis by simp
qed

lemma locked_lease_mirrors:
  assumes "queue_inv db" "locked_lease_state db lease = Inr (l, r, route)"
  shows "mirrors r l" "run_valid (rr_run r)"
proof -
  note L = locked_lease_stateD [OF assms(2)]
  show "mirrors r l" by (rule mirror_unique [OF assms(1) L(3,7,1)])
  show "run_valid (rr_run r)"
    using lease_invD(1) [OF queue_invD(2) [OF assms(1)]] L(3) by (simp add: runs_valid_def)
qed

lemma start_ok_cases:
  assumes inv: "queue_inv db" and ok: "start lease d db = Inr (lease', db')"
  shows "\<exists>t l r route. normalize_timestamp d = Inr t \<and> locked_lease_state db lease = Inr (l, r, route)
    \<and> t < le_expires_at l \<and> rr_status r = LEASED \<and> comparison_start (rr_run r) \<le> t
    \<and> db' = put_run (r\<lparr>rr_run := transition_spec (rr_run r) RUNNING t [] 0\<rparr>) db \<and> constraints_ok db'
    \<and> run_lease_domain l (r\<lparr>rr_run := transition_spec (rr_run r) RUNNING t [] 0\<rparr>) route = Inr lease'"
proof -
  from ok obtain t l r route where t: "normalize_timestamp d = Inr t"
    and L: "locked_lease_state db lease = Inr (l, r, route)"
    by (auto simp: start_def bindE_eq_Inr)
  note v = locked_lease_mirrors(2) [OF inv L]
  show ?thesis
    using ok t L v
    by (auto simp: start_def bindE_eq_Inr run_domain_ok transition_utc_iff Let_def split: if_splits)
qed

lemma start_inv:
  assumes inv: "queue_inv db" and ok: "start lease d db = Inr (lease', db')"
  shows "queue_inv db'"
proof -
  from start_ok_cases [OF assms] obtain t l r route where
    L: "locked_lease_state db lease = Inr (l, r, route)" and t: "comparison_start (rr_run r) \<le> t"
    and r: "rr_status r = LEASED"
    and db': "db' = put_run (r\<lparr>rr_run := transition_spec (rr_run r) RUNNING t [] 0\<rparr>) db" "constraints_ok db'"
    by blast
  note S = locked_lease_stateD [OF L] and M = locked_lease_mirrors [OF inv L]
  have "run_valid (transition_spec (rr_run r) RUNNING t [] 0)"
    by (rule transition_spec_valid [OF M(2) _ t]) (simp_all add: r)
  moreover have "mirrors (r\<lparr>rr_run := transition_spec (rr_run r) RUNNING t [] 0\<rparr>) l"
    using M(1) by (simp add: mirrors_def transition_spec_def)
  ultimately have "lease_inv db'"
    unfolding db'(1) by (intro lease_inv_put_run [OF inv S(1,3,7)]) simp_all
  with db'(2) show ?thesis by (simp add: queue_inv_def)
qed

lemma heartbeat_ok_cases:
  assumes ok: "heartbeat lease d dur db = Inr (hb, db')"
  shows "\<exists>t l r route. normalize_timestamp d = Inr t \<and> locked_lease_state db lease = Inr (l, r, route)
    \<and> t < le_expires_at l \<and> 0 < dur \<and> rr_status r \<in> {LEASED, RUNNING}
    \<and> db' = (put_run (r\<lparr>rr_run := (rr_run r)\<lparr>run_lease_expires_at := Some (t + dur)\<rparr>\<rparr>) db)
         \<lparr>db_run_leases := put_row le_run_id
            (l\<lparr>le_last_heartbeat_at := t, le_expires_at := t + dur\<rparr>) (db_run_leases db)\<rparr>
    \<and> constraints_ok db'
    \<and> hb = \<lparr>hb_lease_token = le_lease_token l, hb_generation = le_generation l, hb_expires_at = t + dur,
            hb_cancellation_requested = run_cancellation_requested (rr_run r)\<rparr>"
  using ok by (auto simp: heartbeat_def bindE_eq_Inr Let_def split: if_splits)

lemma heartbeat_inv:
  assumes inv: "queue_inv db" and ok: "heartbeat lease d dur db = Inr (hb, db')"
  shows "queue_inv db'"
proof -
  from heartbeat_ok_cases [OF ok] obtain t l r route where
    L: "locked_lease_state db lease = Inr (l, r, route)" and r: "rr_status r \<in> {LEASED, RUNNING}"
    and db': "db' = (put_run (r\<lparr>rr_run := (rr_run r)\<lparr>run_lease_expires_at := Some (t + dur)\<rparr>\<rparr>) db)
         \<lparr>db_run_leases := put_row le_run_id
            (l\<lparr>le_last_heartbeat_at := t, le_expires_at := t + dur\<rparr>) (db_run_leases db)\<rparr>" "constraints_ok db'"
    by blast
  note S = locked_lease_stateD [OF L] and M = locked_lease_mirrors [OF inv L]
  have "run_valid ((rr_run r)\<lparr>run_lease_expires_at := Some (t + dur)\<rparr>)"
    using M(2) r by (auto simp: run_valid_def run_fields_ok_def run_lifecycle_ok_def run_status_sets comparison_start_def
        cong: option.case_cong)
  moreover have "mirrors (r\<lparr>rr_run := (rr_run r)\<lparr>run_lease_expires_at := Some (t + dur)\<rparr>\<rparr>)
      (l\<lparr>le_last_heartbeat_at := t, le_expires_at := t + dur\<rparr>)"
    using M(1) by (simp add: mirrors_def)
  ultimately have "lease_inv db'"
    unfolding db'(1) by (intro lease_inv_move [OF inv S(1,3,7)]) simp_all
  with db'(2) show ?thesis by (simp add: queue_inv_def)
qed

subsection \<open>Finish\<close>

lemma enqueue_memory_tables [simp]:
  "db_runs (enqueue_memory_extraction u r t db) = db_runs db"
  "db_run_leases (enqueue_memory_extraction u r t db) = db_run_leases db"
  "db_workers (enqueue_memory_extraction u r t db) = db_workers db"
  "db_workspace_leases (enqueue_memory_extraction u r t db) = db_workspace_leases db"
  "db_sessions (enqueue_memory_extraction u r t db) = db_sessions db"
  "db_quotas (enqueue_memory_extraction u r t db) = db_quotas db"
  by (simp_all add: enqueue_memory_extraction_def Let_def)

definition finish_status :: "Run \<Rightarrow> RunExecutionResult \<Rightarrow> RunStatus" where
  "finish_status run result = (if run_cancellation_requested run then CANCELLED else er_status result)"

definition finished_run :: "RunExecutionResult \<Rightarrow> timestamp \<Rightarrow> Run \<Rightarrow> Run" where
  "finished_run result t run =
     (let r = transition_spec run (finish_status run result) t [] 0
      in case er_last_checkpoint_id result of None \<Rightarrow> r | Some c \<Rightarrow> r\<lparr>run_last_checkpoint_id := Some c\<rparr>)"

definition finished_row :: "RunExecutionResult \<Rightarrow> timestamp \<Rightarrow> RunRecord \<Rightarrow> RunRecord" where
  "finished_row result t row =
     row\<lparr>rr_run := finished_run result t (rr_run row),
         rr_retry_ready_at :=
           (case er_retry_delay_seconds result of
              Some d \<Rightarrow> if finish_status (rr_run row) result = RETRY_PENDING
                        then Some (t + timedelta_seconds d) else None
            | None \<Rightarrow> None)\<rparr>"

definition finished_db :: "(string \<Rightarrow> uuid) \<Rightarrow> RunExecutionResult \<Rightarrow> timestamp \<Rightarrow> RunLeaseRecord \<Rightarrow> RunRecord \<Rightarrow>
    database \<Rightarrow> database" where
  "finished_db uuid5 result t l row db =
     release_lease l
       (if finish_status (rr_run row) result = COMPLETED
        then enqueue_memory_extraction uuid5 (finished_row result t row) t (put_run (finished_row result t row) db)
        else put_run (finished_row result t row) db)"

lemma finished_run_simps [simp]:
  "run_status (finished_run result t run) = finish_status run result"
  "run_id (finished_run result t run) = run_id run"
  "run_session_id (finished_run result t run) = run_session_id run"
  "run_workspace_id (finished_run result t run) = run_workspace_id run"
  "run_priority (finished_run result t run) = run_priority run"
  "run_priority_class (finished_run result t run) = run_priority_class run"
  "run_created_at (finished_run result t run) = run_created_at run"
  "run_tracestate (finished_run result t run) = run_tracestate run"
  by (simp_all add: finished_run_def Let_def split: option.splits)

lemma run_valid_last_checkpoint [simp]:
  "run_valid (r\<lparr>run_last_checkpoint_id := c\<rparr>) = run_valid r"
  by (simp add: run_valid_def run_fields_ok_def run_lifecycle_ok_def comparison_start_def cong: option.case_cong)

lemma finished_row_simps [simp]:
  "rr_id (finished_row result t row) = rr_id row"
  "rr_tenant_id (finished_row result t row) = rr_tenant_id row"
  "run_key (finished_row result t row) = run_key row"
  "rr_idempotency_key (finished_row result t row) = rr_idempotency_key row"
  "rr_lease_generation (finished_row result t row) = rr_lease_generation row"
  by (simp_all add: finished_row_def run_key_def)

lemma transition_spec_last_checkpoint [simp]:
  "run_last_checkpoint_id (finished_run result t run) =
     (case er_last_checkpoint_id result of None \<Rightarrow> run_last_checkpoint_id run | Some c \<Rightarrow> Some c)"
  by (simp add: finished_run_def Let_def split: option.splits)

lemma apply_run_finished [simp]:
  "apply_run row (finished_run result t (rr_run row)) = row\<lparr>rr_run := finished_run result t (rr_run row)\<rparr>"
  by (rule apply_run_same) simp_all

lemma run_model_copy_checkpoint:
  "run_valid r \<Longrightarrow>
     run_model_copy r None (\<lambda>r. r\<lparr>run_last_checkpoint_id := Some c\<rparr>) = Inr (r\<lparr>run_last_checkpoint_id := Some c\<rparr>)"
  by (simp add: run_model_copy_def run_model_validate_complete)

text \<open>
  The part of \<open>finish\<close> after the transition, and the conditions under which the transition
  is accepted.
\<close>

lemma finish_eq:
  assumes t: "normalize_timestamp d = Inr t" and L: "locked_lease_state db lease = Inr (l, r, route)"
    and x: "t < le_expires_at l" and v: "run_valid (rr_run r)"
    and s: "finish_status (rr_run r) result \<in> RUN_STATUS_TRANSITIONS (rr_status r)"
      "finish_status (rr_run r) result \<noteq> LEASED" "comparison_start (rr_run r) \<le> t"
  shows "finish uuid5 lease result d db =
      bindE (flush (finished_db uuid5 result t l r db)) (\<lambda>db'.
      Inr (finished_run result t (rr_run r), db'))"
    and "run_valid (finished_run result t (rr_run r))"
proof -
  let ?s = "finish_status (rr_run r) result"
  let ?tr = "transition_spec (rr_run r) ?s t [] 0"
  have tr: "transition_run (rr_run r) ?s (utc t) None None = Inr ?tr"
    using transition_utc_iff [OF v s(2)] s by simp
  have vt: "run_valid ?tr" by (rule transition_spec_valid [OF v s(1,3)]) (use s(2) in simp)
  then show vf: "run_valid (finished_run result t (rr_run r))"
    by (simp add: finished_run_def Let_def split: option.splits)
  have copy: "(case er_last_checkpoint_id result of None \<Rightarrow> Inr ?tr
      | Some c \<Rightarrow> run_model_copy ?tr None (\<lambda>r. r\<lparr>run_last_checkpoint_id := Some c\<rparr>))
      = Inr (finished_run result t (rr_run r))"
    using run_model_copy_checkpoint [OF vt] by (simp add: finished_run_def Let_def split: option.splits)
  have worker: "rl_worker_id lease = le_worker_id l"
    using locked_lease_stateD(2) [OF L] by (simp add: lease_matches_def)
  have row: "row\<lparr>rr_run := finished_run result t (rr_run row), rr_retry_ready_at :=
      (case er_retry_delay_seconds result of
         None \<Rightarrow> None
       | Some d \<Rightarrow> if finish_status (rr_run row) result = RETRY_PENDING
                   then Some (t + timedelta_seconds d) else None)\<rparr> = finished_row result t row" for row
    by (simp add: finished_row_def)
  have dom: "run_domain (finished_row result t r) = Inr (finished_run result t (rr_run r))"
    using run_domain_ok [of "finished_row result t r"] vf by (simp add: finished_row_def)
  have "finish uuid5 lease result d db =
      bindE (run_domain r) (\<lambda>current.
      bindE (transition_run current ?s (utc t) None None) (\<lambda>transitioned.
      bindE (case er_last_checkpoint_id result of None \<Rightarrow> Inr transitioned
             | Some c \<Rightarrow> run_model_copy transitioned None (\<lambda>r. r\<lparr>run_last_checkpoint_id := Some c\<rparr>)) (\<lambda>tr'.
      let row' = (apply_run r tr')\<lparr>rr_retry_ready_at :=
              (case er_retry_delay_seconds result of
                 Some d \<Rightarrow> if ?s = RETRY_PENDING then Some (t + timedelta_seconds d) else None
               | None \<Rightarrow> None)\<rparr>
      in bindE (flush (release_lease l
           (if ?s = COMPLETED then enqueue_memory_extraction uuid5 row' t (put_run row' db)
            else put_run row' db))) (\<lambda>db4.
         bindE (run_domain row') (\<lambda>r. Inr (r, db4))))))"
    using t L x unfolding finish_def finish_status_def worker [symmetric] by (simp add: Let_def operation_time_def require_unexpired_def)
  also have "\<dots> = bindE (flush (finished_db uuid5 result t l r db)) (\<lambda>db'.
      Inr (finished_run result t (rr_run r), db'))"
    by (simp only: run_domain_ok [OF v] bindE_simps tr copy Let_def apply_run_finished row dom finished_db_def)
  finally show "finish uuid5 lease result d db =
      bindE (flush (finished_db uuid5 result t l r db)) (\<lambda>db'.
      Inr (finished_run result t (rr_run r), db'))" .
qed

lemma finish_status_valid:
  assumes "execution_result_valid result"
  shows "finish_status run result \<in> {COMPLETED, FAILED, CANCELLED, WAITING_APPROVAL, RETRY_PENDING}"
    and "finish_status run result \<notin> {LEASED, RUNNING}" "finish_status run result \<noteq> LEASED"
  using execution_result_status [OF assms] by (auto simp: finish_status_def)

lemma finish_ok_cases:
  assumes inv: "queue_inv db" and res: "execution_result_valid result"
    and ok: "finish uuid5 lease result d db = Inr (run, db')"
  shows "\<exists>t l r route. normalize_timestamp d = Inr t \<and> locked_lease_state db lease = Inr (l, r, route)
    \<and> t < le_expires_at l
    \<and> finish_status (rr_run r) result \<in> RUN_STATUS_TRANSITIONS (rr_status r)
    \<and> comparison_start (rr_run r) \<le> t
    \<and> run = finished_run result t (rr_run r) \<and> run_valid run
    \<and> db' = finished_db uuid5 result t l r db \<and> constraints_ok db'"
proof -
  from ok obtain t l r route where t: "normalize_timestamp d = Inr t"
    and L: "locked_lease_state db lease = Inr (l, r, route)" and x: "t < le_expires_at l"
    by (auto simp: finish_def bindE_eq_Inr)
  note v = locked_lease_mirrors(2) [OF inv L]
  note ns = finish_status_valid(3) [OF res, of "rr_run r"]
  from ok t L x obtain tr where
    "transition_run (rr_run r) (finish_status (rr_run r) result) (utc t) None None = Inr tr"
    by (auto simp: finish_def bindE_eq_Inr run_domain_ok [OF v] finish_status_def Let_def)
  with transition_utc_iff [OF v ns]
  have s: "finish_status (rr_run r) result \<in> RUN_STATUS_TRANSITIONS (rr_status r)"
    "comparison_start (rr_run r) \<le> t"
    by auto
  note E = finish_eq [OF t L x v s(1) ns s(2)]
  from ok E(1) have "run = finished_run result t (rr_run r)" "db' = finished_db uuid5 result t l r db"
    "constraints_ok db'"
    by (auto simp: bindE_eq_Inr)
  with t L x s E(2) show ?thesis by blast
qed

lemma lease_inv_finished:
  assumes inv: "queue_inv db" and L: "locked_lease_state db lease = Inr (l, r, route)"
    and res: "execution_result_valid result" and v: "run_valid (finished_run result t (rr_run r))"
  shows "lease_inv (finished_db uuid5 result t l r db)"
proof -
  note S = locked_lease_stateD [OF L]
  show ?thesis
    unfolding finished_db_def
    by (rule lease_inv_release [OF inv S(1,3,7), of "finished_row result t r"])
      (use v finish_status_valid(2) [OF res, of "rr_run r"] in \<open>simp_all add: finished_row_def\<close>)
qed

lemma finish_inv:
  assumes inv: "queue_inv db" and res: "execution_result_valid result"
    and ok: "finish uuid5 lease result d db = Inr (run, db')"
  shows "queue_inv db'"
proof -
  from finish_ok_cases [OF assms] obtain t l r route where
    "locked_lease_state db lease = Inr (l, r, route)" "run_valid (finished_run result t (rr_run r))"
    "db' = finished_db uuid5 result t l r db" "constraints_ok db'"
    by blast
  with lease_inv_finished [OF inv _ res] show ?thesis by (simp add: queue_inv_def)
qed

text \<open>
  What can still make the flush of \<open>finish\<close> fail: a checkpoint that does not exist, and a
  memory job id that another job already has.
\<close>

definition memory_job_fresh :: "(string \<Rightarrow> uuid) \<Rightarrow> RunRecord \<Rightarrow> database \<Rightarrow> bool" where
  "memory_job_fresh uuid5 row db \<longleftrightarrow>
     (\<forall>j \<in> set (db_memory_jobs db).
        memory_job_key j \<noteq> (rr_tenant_id row, rr_id row, run_execution_epoch (rr_run row)) \<longrightarrow>
        mj_id j \<noteq> uuid5 (memory_job_name row))"

lemma foldl_max_ge: "(a :: int) \<le> foldl max a xs"
proof (induction xs arbitrary: a)
  case (Cons x xs)
  have "a \<le> max a x" by simp
  also have "\<dots> \<le> foldl max (max a x) xs" by (rule Cons.IH)
  finally show ?case by simp
qed simp

lemma memory_source_sequence_nonneg: "0 \<le> memory_source_sequence r db"
  unfolding memory_source_sequence_def by (rule foldl_max_ge)

lemma constraints_enqueue_memory:
  assumes c: "constraints_ok db" and row: "row \<in> set (db_runs db)"
    and fresh: "memory_job_fresh uuid5 row db"
  shows "constraints_ok (enqueue_memory_extraction uuid5 row t db)"
proof -
  let ?job = "\<lparr>mj_id = uuid5 (memory_job_name row), mj_tenant_id = rr_tenant_id row,
      mj_session_id = run_session_id (rr_run row), mj_run_id = rr_id row,
      mj_execution_epoch = run_execution_epoch (rr_run row), mj_status = MEM_PENDING,
      mj_source_message_sequence = memory_source_sequence row db, mj_attempt = 1,
      mj_worker_id = None, mj_lease_token = None, mj_lease_generation = 0,
      mj_lease_expires_at = None, mj_error = None, mj_created_at = t,
      mj_started_at = None, mj_completed_at = None\<rparr>"
  have key: "memory_job_key ?job = (rr_tenant_id row, rr_id row, run_execution_epoch (rr_run row))"
    by (simp add: memory_job_key_def)
  show ?thesis
  proof (cases "\<not> memory_eligible row db
      \<or> list_ex (\<lambda>j. memory_job_key j = memory_job_key ?job) (db_memory_jobs db)")
    case True
    with c show ?thesis by (simp only: enqueue_memory_extraction_def Let_def if_True)
  next
    case False
    then have new: "memory_job_key ?job \<notin> memory_job_key ` set (db_memory_jobs db)"
      by (auto simp: list_ex_iff)
    then have id: "mj_id ?job \<notin> mj_id ` set (db_memory_jobs db)"
      using fresh unfolding memory_job_fresh_def key by (auto simp: image_iff) metis
    have "run_row_ok row" using c row by (auto simp: constraints_ok_def rows_ok_def list_all_iff)
    then have ok: "memory_job_row_ok ?job"
      using memory_source_sequence_nonneg [of row db]
      by (simp add: memory_job_row_ok_def memory_job_validate_lifecycle_def memory_job_status_check_def run_row_ok_def)
    have ref: "run_of_session (map run_key (db_runs db)) (mj_tenant_id ?job) (mj_run_id ?job) (mj_session_id ?job)"
      using row by (auto simp: run_of_session_def run_key_def intro!: bexI [of _ "run_key row"])
    have "constraints_ok (db\<lparr>db_memory_jobs := db_memory_jobs db @ [?job]\<rparr>)"
      using c new id ok ref
      by (simp add: constraint_defs execution_rows_ok_def execution_unique_ok_def execution_refers_def
          cong: option.case_cong)
    with False show ?thesis by (simp only: enqueue_memory_extraction_def Let_def if_False)
  qed
qed

lemma constraints_finished:
  assumes inv: "queue_inv db" and r: "r \<in> set (db_runs db)" and res: "execution_result_valid result"
    and v: "run_valid (finished_run result t (rr_run r))"
    and cp: "case er_last_checkpoint_id result of None \<Rightarrow> True
      | Some c \<Rightarrow> (rr_tenant_id r, rr_id r, c)
          \<in> (\<lambda>k. (cr_tenant_id k, cp_run_id (cr_checkpoint k), cp_id (cr_checkpoint k))) ` set (db_checkpoints db)"
    and fresh: "memory_job_fresh uuid5 r db"
  shows "constraints_ok (finished_db uuid5 result t l r db)"
proof -
  let ?row = "finished_row result t r"
  note c = queue_invD(1) [OF inv]
  have rok: "run_row_ok r" using c r by (auto simp: constraints_ok_def rows_ok_def list_all_iff)
  have "run_row_ok ?row"
    by (rule run_row_ok_update [OF rok])
      (use v rok execution_result_status [OF res] in
        \<open>auto simp: finished_row_def run_row_ok_def finish_status_def split: option.splits\<close>)
  moreover have "checkpoint_refers (db_checkpoints db) r"
    using c r by (auto simp: constraints_ok_def execution_keys_ok_def list_all_iff)
  then have "checkpoint_refers (db_checkpoints db) ?row"
    using cp by (auto simp: checkpoint_refers_def finished_row_def split: option.splits)
  ultimately have c1: "constraints_ok (put_run ?row db)"
    by (intro constraints_put_run [OF c r]) simp_all
  have mem: "?row \<in> set (db_runs (put_run ?row db))" using r by (auto simp: set_put_row)
  have "run_execution_epoch (finished_run result t (rr_run r)) = run_execution_epoch (rr_run r)"
    by (simp add: finished_run_def Let_def split: option.splits)
  then have "memory_job_fresh uuid5 ?row (put_run ?row db)"
    using fresh by (simp add: memory_job_fresh_def memory_job_name_def finished_row_def)
  with c1 mem show ?thesis
    unfolding finished_db_def by (intro constraints_release_lease) (simp add: constraints_enqueue_memory)
qed

end
