(* ===== verification/Queue_Recovery.thy ===== *)
theory Queue_Recovery
  imports Queue_Operations
begin

section \<open>Recovery of expired leases\<close>

text \<open>
  \<open>recover_expired\<close> requeues the due retries and then gives back every expired lease it
  selected: the run is requeued with the next attempt, or cancelled when a cancellation was
  requested. Both loops are described by a map over the run table.
\<close>

subsection \<open>Retries\<close>

definition requeued_row :: "timestamp \<Rightarrow> RunRecord \<Rightarrow> RunRecord" where
  "requeued_row t row =
     row\<lparr>rr_run := transition_spec (rr_run row) QUEUED t [] 0, rr_retry_ready_at := None\<rparr>"

lemma requeued_row_simps [simp]:
  "rr_id (requeued_row t row) = rr_id row" "rr_tenant_id (requeued_row t row) = rr_tenant_id row"
  "run_key (requeued_row t row) = run_key row" "rr_status (requeued_row t row) = QUEUED"
  "rr_lease_generation (requeued_row t row) = rr_lease_generation row"
  "rr_idempotency_key (requeued_row t row) = rr_idempotency_key row"
  by (simp_all add: requeued_row_def run_key_def)

lemma put_row_map:
  assumes "distinct (map key t)" "row \<in> set t" and k: "key row' = key row"
  shows "put_row key row' t = map (\<lambda>r. if r = row then row' else r) t"
  unfolding put_row_def update_where_def k
  using assms by (intro map_cong refl) (auto dest: distinct_eq)

lemma lease_inv_put_inactive:
  assumes inv: "queue_inv db" and row: "row \<in> set (db_runs db)" "rr_status row \<notin> {LEASED, RUNNING}"
    and row': "rr_id row' = rr_id row" "run_valid (rr_run row')" "rr_status row' \<notin> {LEASED, RUNNING}"
  shows "lease_inv (put_run row' db)"
proof -
  note D = lease_invD [OF queue_invD(2) [OF inv]]
  have runs: "set (put_row rr_id row' (db_runs db)) = insert row' (set (db_runs db) - {row})"
    by (rule set_put_row_distinct [OF queue_invD(7) [OF inv] row(1) row'(1)])
  have "runs_valid (put_row rr_id row' (db_runs db))" using D(1) row'(2) by (auto simp: runs_valid_def runs)
  moreover have "leases_mirrored (put_row rr_id row' (db_runs db)) (db_run_leases db)"
    using D(2) row(2) unfolding leases_mirrored_def runs by (fastforce simp: mirrors_def)
  moreover have "active_runs_leased (put_row rr_id row' (db_runs db)) (db_run_leases db)"
    using D(3) row'(3) unfolding active_runs_leased_def runs by auto
  ultimately show ?thesis using D by (simp add: lease_inv_def names_ok_def)
qed

lemma queue_inv_requeue:
  assumes inv: "queue_inv db" and row: "row \<in> set (db_runs db)" "rr_status row = RETRY_PENDING"
    and t: "comparison_start (rr_run row) \<le> t"
  shows "queue_inv (put_run (requeued_row t row) db)" "run_valid (rr_run (requeued_row t row))"
proof -
  have v: "run_valid (rr_run row)"
    using lease_invD(1) [OF queue_invD(2) [OF inv]] row(1) by (simp add: runs_valid_def)
  show v': "run_valid (rr_run (requeued_row t row))"
    using transition_spec_valid [OF v _ t, of QUEUED] row(2) by (simp add: requeued_row_def)
  have rok: "run_row_ok row" using queue_invD(3) [OF inv] row(1) by (auto simp: rows_ok_def list_all_iff)
  have "run_row_ok (requeued_row t row)"
    by (rule run_row_ok_update [OF rok v']) (use rok in \<open>simp_all add: requeued_row_def run_row_ok_def\<close>)
  moreover have "checkpoint_refers (db_checkpoints db) (requeued_row t row)"
    by (rule checkpoint_refers_same [OF queue_invD(1) [OF inv] row(1)]) (simp_all add: requeued_row_def run_key_def)
  ultimately have "constraints_ok (put_run (requeued_row t row) db)"
    by (intro constraints_put_run [OF queue_invD(1) [OF inv] row(1)]) simp_all
  moreover have "lease_inv (put_run (requeued_row t row) db)"
    by (rule lease_inv_put_inactive [OF inv row(1)]) (use row(2) v' in simp_all)
  ultimately show "queue_inv (put_run (requeued_row t row) db)" by (simp add: queue_inv_def)
qed

lemma recover_retries_spec:
  assumes "queue_inv db" "distinct rows" "set rows \<subseteq> set (db_runs db)"
    and "\<And>r. r \<in> set rows \<Longrightarrow> rr_status r = RETRY_PENDING \<and> comparison_start (rr_run r) \<le> t"
  shows "\<exists>db'. recover_retries t rows db = Inr (map (\<lambda>r. rr_run (requeued_row t r)) rows, db')
    \<and> queue_inv db'
    \<and> db_runs db' = map (\<lambda>r. if r \<in> set rows then requeued_row t r else r) (db_runs db)
    \<and> db_run_leases db' = db_run_leases db \<and> db_workers db' = db_workers db
    \<and> db_workspace_leases db' = db_workspace_leases db \<and> db_sessions db' = db_sessions db"
  using assms
proof (induction rows arbitrary: db)
  case Nil
  then show ?case by simp
next
  case (Cons row rows)
  have row: "row \<in> set (db_runs db)" "rr_status row = RETRY_PENDING" "comparison_start (rr_run row) \<le> t"
    using Cons.prems(3,4) by auto
  let ?db = "put_run (requeued_row t row) db"
  have v: "run_valid (rr_run row)"
    using lease_invD(1) [OF queue_invD(2) [OF Cons.prems(1)]] row(1) by (simp add: runs_valid_def)
  have inv: "queue_inv ?db" by (rule queue_inv_requeue(1) [OF Cons.prems(1) row])
  have runs: "db_runs ?db = map (\<lambda>r. if r = row then requeued_row t row else r) (db_runs db)"
    using put_row_map [OF queue_invD(7) [OF Cons.prems(1)] row(1), of "requeued_row t row"] by simp
  have "set rows \<subseteq> set (db_runs ?db)" using Cons.prems(2,3) unfolding runs by auto
  from Cons.IH [OF inv _ this] Cons.prems(2,4) obtain db' where
    db': "recover_retries t rows ?db = Inr (map (\<lambda>r. rr_run (requeued_row t r)) rows, db')" "queue_inv db'"
      "db_runs db' = map (\<lambda>r. if r \<in> set rows then requeued_row t r else r) (db_runs ?db)"
      "db_run_leases db' = db_run_leases db" "db_workers db' = db_workers db"
      "db_workspace_leases db' = db_workspace_leases db" "db_sessions db' = db_sessions db"
    by fastforce
  have tr: "transition_run (rr_run row) QUEUED (utc t) None None = Inr (transition_spec (rr_run row) QUEUED t [] 0)"
    using transition_utc_iff [OF v, of QUEUED t] row by simp
  have "recover_retries t (row # rows) db = Inr (map (\<lambda>r. rr_run (requeued_row t r)) (row # rows), db')"
    using db'(1) tr run_domain_ok [OF v] by (simp add: Let_def requeued_row_def)
  moreover have "requeued_row t row \<notin> set rows"
    using Cons.prems(4) by fastforce
  then have "db_runs db' = map (\<lambda>r. if r \<in> set (row # rows) then requeued_row t r else r) (db_runs db)"
    unfolding db'(3) runs using Cons.prems(2) by auto
  ultimately show ?case using db' by blast
qed

subsection \<open>Expired leases\<close>

definition recovered_spec :: "timestamp \<Rightarrow> Run \<Rightarrow> Run" where
  "recovered_spec t run =
     (if run_cancellation_requested run then transition_spec run CANCELLED t [] 0
      else transition_spec (transition_spec run LOST t [] 0) QUEUED t [] 0)"

definition recovered_row :: "timestamp \<Rightarrow> RunRecord \<Rightarrow> RunRecord" where
  "recovered_row t row = row\<lparr>rr_run := recovered_spec t (rr_run row)\<rparr>"

lemma recovered_spec_simps [simp]:
  "run_id (recovered_spec t run) = run_id run"
  "run_session_id (recovered_spec t run) = run_session_id run"
  "run_workspace_id (recovered_spec t run) = run_workspace_id run"
  "run_priority (recovered_spec t run) = run_priority run"
  "run_priority_class (recovered_spec t run) = run_priority_class run"
  "run_created_at (recovered_spec t run) = run_created_at run"
  "run_tracestate (recovered_spec t run) = run_tracestate run"
  "run_last_checkpoint_id (recovered_spec t run) = run_last_checkpoint_id run"
  "run_execution_epoch (recovered_spec t run) = run_execution_epoch run"
  "run_status (recovered_spec t run) = (if run_cancellation_requested run then CANCELLED else QUEUED)"
  "run_attempt (recovered_spec t run) =
     (if run_cancellation_requested run then run_attempt run else run_attempt run + 1)"
  by (simp_all add: recovered_spec_def)

lemma recovered_row_simps [simp]:
  "rr_id (recovered_row t row) = rr_id row" "rr_tenant_id (recovered_row t row) = rr_tenant_id row"
  "run_key (recovered_row t row) = run_key row"
  "rr_run (recovered_row t row) = recovered_spec t (rr_run row)"
  "rr_lease_generation (recovered_row t row) = rr_lease_generation row"
  "rr_idempotency_key (recovered_row t row) = rr_idempotency_key row"
  by (simp_all add: recovered_row_def run_key_def)

lemma recovered_run_ok:
  assumes v: "run_valid run" and s: "run_status run \<in> {LEASED, RUNNING}" and t: "comparison_start run \<le> t"
  shows "recovered_run t run = Inr (recovered_spec t run)" "run_valid (recovered_spec t run)"
proof -
  have lost: "transition_run run LOST (utc t) None None = Inr (transition_spec run LOST t [] 0)"
    using transition_utc_iff [OF v, of LOST t] s t by auto
  have vl: "run_valid (transition_spec run LOST t [] 0)"
    by (rule transition_spec_valid [OF v _ t]) (use s in auto)
  have cs: "comparison_start (transition_spec run LOST t [] 0) \<le> t"
    using t by (simp add: comparison_start_def transition_spec_def cong: option.case_cong)
  have queued: "transition_run (transition_spec run LOST t [] 0) QUEUED (utc t) None None =
      Inr (transition_spec (transition_spec run LOST t [] 0) QUEUED t [] 0)"
    using transition_utc_iff [OF vl, of QUEUED t] cs by simp
  have cancelled: "transition_run run CANCELLED (utc t) None None = Inr (transition_spec run CANCELLED t [] 0)"
    using transition_utc_iff [OF v, of CANCELLED t] s t by auto
  show "recovered_run t run = Inr (recovered_spec t run)"
    using lost queued cancelled by (simp add: recovered_run_def recovered_spec_def)
  have "run_valid (transition_spec run CANCELLED t [] 0)"
    by (rule transition_spec_valid [OF v _ t]) (use s in auto)
  moreover have "run_valid (transition_spec (transition_spec run LOST t [] 0) QUEUED t [] 0)"
    by (rule transition_spec_valid [OF vl _ cs]) simp_all
  ultimately show "run_valid (recovered_spec t run)" by (simp add: recovered_spec_def)
qed

lemma queue_inv_recover_lease:
  assumes inv: "queue_inv db" and l: "l \<in> set (db_run_leases db)"
    and row: "row \<in> set (db_runs db)" "rr_id row = le_run_id l" and t: "comparison_start (rr_run row) \<le> t"
  shows "queue_inv (release_lease l (put_run (recovered_row t row) db))"
proof -
  have m: "mirrors row l" by (rule mirror_unique [OF inv row l])
  have v: "run_valid (rr_run row)"
    using lease_invD(1) [OF queue_invD(2) [OF inv]] row(1) by (simp add: runs_valid_def)
  have s: "rr_status row \<in> {LEASED, RUNNING}" using m by (simp add: mirrors_def)
  note v' = recovered_run_ok(2) [OF v s t]
  have rok: "run_row_ok row" using queue_invD(3) [OF inv] row(1) by (auto simp: rows_ok_def list_all_iff)
  have "run_row_ok (recovered_row t row)"
    by (rule run_row_ok_update [OF rok]) (use rok v' s in \<open>auto simp: recovered_row_def run_row_ok_def\<close>)
  moreover have "checkpoint_refers (db_checkpoints db) (recovered_row t row)"
    by (rule checkpoint_refers_same [OF queue_invD(1) [OF inv] row(1)]) simp_all
  ultimately have "constraints_ok (put_run (recovered_row t row) db)"
    by (intro constraints_put_run [OF queue_invD(1) [OF inv] row(1)]) simp_all
  then have "constraints_ok (release_lease l (put_run (recovered_row t row) db))"
    by (rule constraints_release_lease)
  moreover have "lease_inv (release_lease l (put_run (recovered_row t row) db))"
    by (rule lease_inv_release [OF inv l row]) (use v' in auto)
  ultimately show ?thesis by (simp add: queue_inv_def)
qed

lemma select_mirror:
  assumes inv: "queue_inv db" and l: "l \<in> set (db_run_leases db)"
  obtains row where
    "select_one (\<lambda>r. rr_tenant_id r = le_tenant_id l \<and> rr_id r = le_run_id l) (db_runs db) = Some row"
    "row \<in> set (db_runs db)" "mirrors row l" "run_valid (rr_run row)"
proof -
  obtain r where r: "r \<in> set (db_runs db)" "mirrors r l" using lease_mirror [OF inv l] by blast
  then obtain row where
    sel: "select_one (\<lambda>r. rr_tenant_id r = le_tenant_id l \<and> rr_id r = le_run_id l) (db_runs db) = Some row"
    by (cases "select_one (\<lambda>r. rr_tenant_id r = le_tenant_id l \<and> rr_id r = le_run_id l) (db_runs db)")
      (auto simp: select_one_None mirrors_def)
  note row = select_one_Some [OF sel]
  have "mirrors row l" by (rule mirror_unique [OF inv _ _ l]) (use row in auto)
  moreover have "run_valid (rr_run row)"
    using lease_invD(1) [OF queue_invD(2) [OF inv]] row by (simp add: runs_valid_def)
  ultimately show ?thesis using that sel row by blast
qed

lemma replace_row_outside:
  "f row \<notin> I \<Longrightarrow> f row' = f row \<Longrightarrow>
     {r \<in> set (map (\<lambda>r. if r = row then row' else r) xs). f r \<in> I} = {r \<in> set xs. f r \<in> I}"
  by auto

lemma recover_leases_spec:
  assumes "queue_inv db" "distinct ls" "set ls \<subseteq> set (db_run_leases db)"
    and "\<And>r. r \<in> set (db_runs db) \<Longrightarrow> rr_id r \<in> le_run_id ` set ls \<Longrightarrow> comparison_start (rr_run r) \<le> t"
  shows "\<exists>rs db'. recover_leases t ls db = Inr (rs, db') \<and> queue_inv db'
    \<and> length rs = length ls
    \<and> set rs = (\<lambda>r. recovered_spec t (rr_run r)) ` {r \<in> set (db_runs db). rr_id r \<in> le_run_id ` set ls}
    \<and> db_runs db' = map (\<lambda>r. if rr_id r \<in> le_run_id ` set ls then recovered_row t r else r) (db_runs db)
    \<and> db_run_leases db' = delete_where (\<lambda>k. le_run_id k \<in> le_run_id ` set ls) (db_run_leases db)
    \<and> db_sessions db' = db_sessions db"
  using assms
proof (induction ls arbitrary: db)
  case Nil
  then show ?case by (simp add: delete_where_def)
next
  case (Cons l ls)
  note inv = Cons.prems(1)
  have l: "l \<in> set (db_run_leases db)" using Cons.prems(3) by simp
  obtain row where
    sel: "select_one (\<lambda>r. rr_tenant_id r = le_tenant_id l \<and> rr_id r = le_run_id l) (db_runs db) = Some row"
    and row: "row \<in> set (db_runs db)" "mirrors row l" "run_valid (rr_run row)"
    by (rule select_mirror [OF inv l])
  have id: "rr_id row = le_run_id l" and st: "rr_status row \<in> {LEASED, RUNNING}"
    using row(2) by (auto simp: mirrors_def)
  have t: "comparison_start (rr_run row) \<le> t" using Cons.prems(4) [OF row(1)] id by simp
  let ?db = "release_lease l (put_run (recovered_row t row) db)"
  have inv': "queue_inv ?db" by (rule queue_inv_recover_lease [OF inv l row(1) id t])
  have runs: "db_runs ?db = map (\<lambda>r. if r = row then recovered_row t row else r) (db_runs db)"
    using put_row_map [OF queue_invD(7) [OF inv] row(1), of "recovered_row t row"] by simp
  have leases: "db_run_leases ?db = delete_where (\<lambda>k. le_run_id k = le_run_id l) (db_run_leases db)" by simp
  have other: "le_run_id k \<noteq> le_run_id l" if "k \<in> set ls" for k
    using that Cons.prems(2,3) distinct_eq [OF queue_invD(8) [OF inv] _ l] by auto
  have sub: "set ls \<subseteq> set (db_run_leases ?db)"
    using Cons.prems(3) other by (auto simp: set_delete_where)
  have row_other: "rr_id r \<notin> le_run_id ` set ls" if "rr_id r = le_run_id l" for r :: RunRecord
    using other that by (metis image_iff)
  have same: "r = row" if "r \<in> set (db_runs db)" "rr_id r = le_run_id l" for r
    using distinct_eq [OF queue_invD(7) [OF inv] that(1) row(1)] that(2) id by simp
  have times: "comparison_start (rr_run r) \<le> t"
    if r: "r \<in> set (db_runs ?db)" "rr_id r \<in> le_run_id ` set ls" for r
  proof -
    have "r \<noteq> recovered_row t row" using r(2) row_other [of r] id by auto
    then have "r \<in> set (db_runs db)" using r(1) unfolding runs by auto
    with r(2) show ?thesis using Cons.prems(4) by auto
  qed
  obtain rs db' where IH: "recover_leases t ls ?db = Inr (rs, db')" "queue_inv db'" "length rs = length ls"
      "set rs = (\<lambda>r. recovered_spec t (rr_run r)) ` {r \<in> set (db_runs ?db). rr_id r \<in> le_run_id ` set ls}"
      "db_runs db' = map (\<lambda>r. if rr_id r \<in> le_run_id ` set ls then recovered_row t r else r) (db_runs ?db)"
      "db_run_leases db' = delete_where (\<lambda>k. le_run_id k \<in> le_run_id ` set ls) (db_run_leases ?db)"
      "db_sessions db' = db_sessions ?db"
    using Cons.IH [OF inv' _ sub times] Cons.prems(2) by auto
  have ap: "apply_run row (recovered_spec t (rr_run row)) = recovered_row t row"
    unfolding recovered_row_def by (rule apply_run_same) simp_all
  have step: "recover_leases t (l # ls) db = Inr (recovered_spec t (rr_run row) # rs, db')"
    using sel row st IH(1) ap recovered_run_ok(1) [OF row(3) st t] run_domain_ok [OF row(3)]
    by (simp add: mirrors_def Let_def)
  have old: "{r \<in> set (db_runs ?db). rr_id r \<in> le_run_id ` set ls} = {r \<in> set (db_runs db). rr_id r \<in> le_run_id ` set ls}"
    unfolding runs by (rule replace_row_outside [where f = rr_id], rule row_other [OF id], simp)
  have "set (recovered_spec t (rr_run row) # rs) =
      (\<lambda>r. recovered_spec t (rr_run r)) ` {r \<in> set (db_runs db). rr_id r \<in> le_run_id ` set (l # ls)}"
  proof -
    have "{r \<in> set (db_runs db). rr_id r \<in> le_run_id ` set (l # ls)} =
        insert row {r \<in> set (db_runs db). rr_id r \<in> le_run_id ` set ls}"
    proof (rule set_eqI)
      fix r
      show "r \<in> {r \<in> set (db_runs db). rr_id r \<in> le_run_id ` set (l # ls)} \<longleftrightarrow>
          r \<in> insert row {r \<in> set (db_runs db). rr_id r \<in> le_run_id ` set ls}"
        using row(1) id same [of r] by (cases "rr_id r = le_run_id l") auto
    qed
    then show ?thesis by (simp only: IH(4) old list.set image_insert)
  qed
  moreover have "db_runs db' =
      map (\<lambda>r. if rr_id r \<in> le_run_id ` set (l # ls) then recovered_row t r else r) (db_runs db)"
  proof -
    have "(if rr_id r' \<in> le_run_id ` set ls then recovered_row t r' else r') =
        (if rr_id r \<in> le_run_id ` set (l # ls) then recovered_row t r else r)"
      if r: "r \<in> set (db_runs db)" and r': "r' = (if r = row then recovered_row t row else r)" for r r'
    proof (cases "r = row")
      case True
      then have "rr_id r' \<notin> le_run_id ` set ls" using r' id by (intro row_other) simp
      with True r' id show ?thesis by simp
    next
      case False
      then have "rr_id r \<noteq> le_run_id l" using same [OF r] by blast
      with False r' show ?thesis by simp
    qed
    then show ?thesis unfolding IH(5) runs map_map by (intro map_cong refl) (simp only: comp_def)
  qed
  moreover have "db_run_leases db' = delete_where (\<lambda>k. le_run_id k \<in> le_run_id ` set (l # ls)) (db_run_leases db)"
    unfolding IH(6) leases by (simp add: delete_where_def)
  ultimately show ?case using step IH(2,3,7) by auto
qed

text \<open>A recovery that returns was not ahead of any run it touched.\<close>

lemma recover_retries_times:
  "recover_retries t rows db = Inr x \<Longrightarrow> (\<And>r. r \<in> set rows \<Longrightarrow> run_valid (rr_run r)) \<Longrightarrow>
     \<forall>r \<in> set rows. comparison_start (rr_run r) \<le> t"
proof (induction rows arbitrary: db x)
  case (Cons row rows)
  have v: "run_valid (rr_run row)" using Cons.prems(2) by simp
  from Cons.prems(1) have "comparison_start (rr_run row) \<le> t"
    by (auto simp: bindE_eq_Inr run_domain_ok [OF v] transition_utc_iff [OF v] Let_def)
  moreover from Cons.prems(1) obtain db1 x1 where "recover_retries t rows db1 = Inr x1"
    by (auto simp: bindE_eq_Inr Let_def)
  ultimately show ?case using Cons.IH Cons.prems(2) by auto
qed simp

lemma recovered_run_times:
  assumes "run_valid run" "recovered_run t run = Inr r"
  shows "comparison_start run \<le> t"
  using assms
  by (auto simp: recovered_run_def bindE_eq_Inr transition_utc_iff split: if_splits)

lemma recover_leases_times:
  assumes "queue_inv db" "distinct ls" "set ls \<subseteq> set (db_run_leases db)"
    and "recover_leases t ls db = Inr x"
  shows "\<forall>r \<in> set (db_runs db). rr_id r \<in> le_run_id ` set ls \<longrightarrow> comparison_start (rr_run r) \<le> t"
  using assms
proof (induction ls arbitrary: db x)
  case (Cons l ls)
  note inv = Cons.prems(1)
  have l: "l \<in> set (db_run_leases db)" using Cons.prems(3) by simp
  obtain row where
    sel: "select_one (\<lambda>r. rr_tenant_id r = le_tenant_id l \<and> rr_id r = le_run_id l) (db_runs db) = Some row"
    and row: "row \<in> set (db_runs db)" "mirrors row l" "run_valid (rr_run row)"
    by (rule select_mirror [OF inv l])
  have id: "rr_id row = le_run_id l" and st: "rr_status row \<in> {LEASED, RUNNING}"
    using row(2) by (auto simp: mirrors_def)
  let ?db = "release_lease l (put_run (recovered_row t row) db)"
  have rec: "\<exists>next. recovered_run t (rr_run row) = Inr next"
    using Cons.prems(4) sel row st run_domain_ok [OF row(3)] by (auto simp: mirrors_def bindE_eq_Inr)
  then have t: "comparison_start (rr_run row) \<le> t" using recovered_run_times [OF row(3)] by blast
  have ap: "apply_run row (recovered_spec t (rr_run row)) = recovered_row t row"
    unfolding recovered_row_def by (rule apply_run_same) simp_all
  obtain x1 where step: "recover_leases t ls ?db = Inr x1"
    using Cons.prems(4) sel row st ap recovered_run_ok(1) [OF row(3) st t] run_domain_ok [OF row(3)]
    by (auto simp: mirrors_def Let_def bindE_eq_Inr)
  have inv': "queue_inv ?db" by (rule queue_inv_recover_lease [OF inv l row(1) id t])
  have other: "le_run_id k \<noteq> le_run_id l" if "k \<in> set ls" for k
    using that Cons.prems(2,3) distinct_eq [OF queue_invD(8) [OF inv] _ l] by auto
  have sub: "set ls \<subseteq> set (db_run_leases ?db)"
    using Cons.prems(3) other by (auto simp: set_delete_where)
  have IH: "\<forall>r \<in> set (db_runs ?db). rr_id r \<in> le_run_id ` set ls \<longrightarrow> comparison_start (rr_run r) \<le> t"
    using Cons.IH [OF inv' _ sub step] Cons.prems(2) by auto
  show ?case
  proof (intro ballI impI)
    fix r
    assume r: "r \<in> set (db_runs db)" "rr_id r \<in> le_run_id ` set (l # ls)"
    show "comparison_start (rr_run r) \<le> t"
    proof (cases "rr_id r = le_run_id l")
      case True
      then have "r = row" using distinct_eq [OF queue_invD(7) [OF inv] r(1) row(1)] id by simp
      with t show ?thesis by simp
    next
      case False
      then have "r \<in> set (db_runs ?db)" using r(1) id by (auto simp: set_put_row)
      with IH r(2) False show ?thesis by auto
    qed
  qed
qed simp

subsection \<open>The transaction\<close>

lemma distinct_select_ordered:
  "distinct t \<Longrightarrow> distinct (select_ordered key n p t)"
  by (simp add: select_ordered_def)

lemma distinct_rows: "distinct (map key t) \<Longrightarrow> distinct t"
  by (simp add: distinct_map)

text \<open>
  The runs and leases one call of \<open>recover_expired\<close> handles: due retries first, then expired
  leases up to the limit. The leases are chosen after the retries, which do not touch them.
\<close>

definition due_retries :: "row_locks \<Rightarrow> timestamp \<Rightarrow> int \<Rightarrow> database \<Rightarrow> RunRecord list" where
  "due_retries locks t n db =
     select_ordered retry_order (nat n) (\<lambda>r. retry_due t r \<and> \<not> lk_runs locks (rr_id r)) (db_runs db)"

definition due_leases :: "row_locks \<Rightarrow> timestamp \<Rightarrow> int \<Rightarrow> database \<Rightarrow> RunLeaseRecord list" where
  "due_leases locks t n db =
     select_ordered expiry_order (nat (max 0 (n - int (length (due_retries locks t n db)))))
       (\<lambda>l. le_expires_at l \<le> t \<and> \<not> lk_leases locks (le_run_id l)) (db_run_leases db)"

definition recovery_row :: "row_locks \<Rightarrow> timestamp \<Rightarrow> int \<Rightarrow> database \<Rightarrow> RunRecord \<Rightarrow> RunRecord" where
  "recovery_row locks t n db r =
     (if r \<in> set (due_retries locks t n db) then requeued_row t r
      else if rr_id r \<in> le_run_id ` set (due_leases locks t n db) then recovered_row t r else r)"

lemma due_retriesD:
  "r \<in> set (due_retries locks t n db) \<Longrightarrow> r \<in> set (db_runs db) \<and> rr_status r = RETRY_PENDING"
  unfolding due_retries_def by (drule select_ordered_mem) (simp add: retry_due_def)

lemma due_leasesD:
  "l \<in> set (due_leases locks t n db) \<Longrightarrow> l \<in> set (db_run_leases db) \<and> le_expires_at l \<le> t"
  unfolding due_leases_def by (drule select_ordered_mem) simp

lemma due_disjoint:
  assumes inv: "queue_inv db" and r: "r \<in> set (due_retries locks t n db)"
  shows "rr_id r \<notin> le_run_id ` set (due_leases locks t n db)"
proof
  assume "rr_id r \<in> le_run_id ` set (due_leases locks t n db)"
  then obtain l where "l \<in> set (db_run_leases db)" "rr_id r = le_run_id l" using due_leasesD by blast
  then have "mirrors r l" using mirror_unique [OF inv] due_retriesD [OF r] by blast
  then show False using due_retriesD [OF r] by (simp add: mirrors_def)
qed

lemma recover_expired_core:
  assumes inv: "queue_inv db" and t: "normalize_timestamp d = Inr t" and n: "1 \<le> n" "n \<le> MAX_RECOVERY_RUNS"
    and times: "\<And>r. r \<in> set (db_runs db) \<Longrightarrow>
      r \<in> set (due_retries locks t n db) \<or> rr_id r \<in> le_run_id ` set (due_leases locks t n db) \<Longrightarrow>
      comparison_start (rr_run r) \<le> t"
  shows "\<exists>rs db'. recover_expired locks d (PyInt n) db = Inr (rs, db') \<and> queue_inv db'
    \<and> length rs = length (due_retries locks t n db) + length (due_leases locks t n db)
    \<and> db_runs db' = map (recovery_row locks t n db) (db_runs db)
    \<and> db_run_leases db' =
        delete_where (\<lambda>k. le_run_id k \<in> le_run_id ` set (due_leases locks t n db)) (db_run_leases db)
    \<and> db_sessions db' = db_sessions db"
proof -
  let ?rows = "due_retries locks t n db" and ?ls = "due_leases locks t n db"
  have "distinct ?rows"
    unfolding due_retries_def by (intro distinct_select_ordered distinct_rows [OF queue_invD(7) [OF inv]])
  then obtain db1 where r1: "recover_retries t ?rows db = Inr (map (\<lambda>r. rr_run (requeued_row t r)) ?rows, db1)"
    and inv1: "queue_inv db1"
    and runs1: "db_runs db1 = map (\<lambda>r. if r \<in> set ?rows then requeued_row t r else r) (db_runs db)"
    and leases1: "db_run_leases db1 = db_run_leases db" and sessions1: "db_sessions db1 = db_sessions db"
    using recover_retries_spec [OF inv, of ?rows t] due_retriesD times by blast
  have "distinct ?ls"
    unfolding due_leases_def by (intro distinct_select_ordered distinct_rows [OF queue_invD(8) [OF inv]])
  moreover have "set ?ls \<subseteq> set (db_run_leases db1)" unfolding leases1 using due_leasesD by blast
  moreover have "comparison_start (rr_run r) \<le> t" if "r \<in> set (db_runs db1)" "rr_id r \<in> le_run_id ` set ?ls" for r
  proof -
    from that(1) runs1 obtain r0 where r0: "r0 \<in> set (db_runs db)"
      "r = (if r0 \<in> set ?rows then requeued_row t r0 else r0)" by auto
    with that(2) have "r0 \<notin> set ?rows" using due_disjoint [OF inv] by (cases "r0 \<in> set ?rows") auto
    then show ?thesis using r0 times that(2) by simp
  qed
  ultimately obtain rs2 db2 where r2: "recover_leases t ?ls db1 = Inr (rs2, db2)" and inv2: "queue_inv db2"
    and len: "length rs2 = length ?ls"
    and runs2: "db_runs db2 = map (\<lambda>r. if rr_id r \<in> le_run_id ` set ?ls then recovered_row t r else r) (db_runs db1)"
    and leases2: "db_run_leases db2 = delete_where (\<lambda>k. le_run_id k \<in> le_run_id ` set ?ls) (db_run_leases db1)"
    and sessions2: "db_sessions db2 = db_sessions db1"
    using recover_leases_spec [OF inv1, of ?ls t] by blast
  have "db_runs db2 = map (recovery_row locks t n db) (db_runs db)"
    unfolding runs2 runs1 map_map
    by (rule map_cong [OF refl]) (simp add: recovery_row_def due_disjoint [OF inv])
  moreover have "recover_expired locks d (PyInt n) db = Inr (map (\<lambda>r. rr_run (requeued_row t r)) ?rows @ rs2, db2)"
    using r1 r2 n t queue_invD(1) [OF inv2] leases1
    by (simp add: recover_expired_def bindE_eq_Inr due_retries_def due_leases_def)
  ultimately show ?thesis using inv2 len leases1 leases2 sessions1 sessions2 by auto
qed

lemma recover_expired_ok_cases:
  assumes inv: "queue_inv db" and ok: "recover_expired locks d limit db = Inr (rs, db')"
  shows "\<exists>t n. normalize_timestamp d = Inr t \<and> limit = PyInt n \<and> 1 \<le> n \<and> n \<le> MAX_RECOVERY_RUNS
    \<and> (\<forall>r \<in> set (db_runs db).
         r \<in> set (due_retries locks t n db) \<or> rr_id r \<in> le_run_id ` set (due_leases locks t n db) \<longrightarrow>
         comparison_start (rr_run r) \<le> t)"
proof -
  from ok obtain t n where t: "normalize_timestamp d = Inr t" and n: "limit = PyInt n" "1 \<le> n" "n \<le> MAX_RECOVERY_RUNS"
    by (cases limit) (auto simp: recover_expired_def bindE_eq_Inr split: if_splits)
  let ?rows = "due_retries locks t n db" and ?ls = "due_leases locks t n db"
  have rows: "r \<in> set (db_runs db) \<and> rr_status r = RETRY_PENDING \<and> run_valid (rr_run r)" if "r \<in> set ?rows" for r
    using due_retriesD [OF that] lease_invD(1) [OF queue_invD(2) [OF inv]] by (auto simp: runs_valid_def)
  from ok t n obtain rs1 db1 where r1: "recover_retries t ?rows db = Inr (rs1, db1)"
    by (auto simp: recover_expired_def bindE_eq_Inr due_retries_def)
  have times: "\<forall>r \<in> set ?rows. comparison_start (rr_run r) \<le> t"
    using recover_retries_times [OF r1] rows by blast
  have "distinct ?rows"
    unfolding due_retries_def by (intro distinct_select_ordered distinct_rows [OF queue_invD(7) [OF inv]])
  then have spec: "rs1 = map (\<lambda>r. rr_run (requeued_row t r)) ?rows" "queue_inv db1"
    "db_runs db1 = map (\<lambda>r. if r \<in> set ?rows then requeued_row t r else r) (db_runs db)"
    "db_run_leases db1 = db_run_leases db"
    using recover_retries_spec [OF inv, of ?rows t] rows times r1 by auto
  have "length rs1 = length ?rows" using spec(1) by simp
  then obtain rs2 db2 where r2: "recover_leases t ?ls db1 = Inr (rs2, db2)"
    using ok t n r1 spec(4) by (auto simp: recover_expired_def bindE_eq_Inr due_retries_def due_leases_def)
  have "distinct ?ls"
    unfolding due_leases_def by (intro distinct_select_ordered distinct_rows [OF queue_invD(8) [OF inv]])
  moreover have "set ?ls \<subseteq> set (db_run_leases db1)" unfolding spec(4) using due_leasesD by blast
  ultimately have "\<forall>r \<in> set (db_runs db1). rr_id r \<in> le_run_id ` set ?ls \<longrightarrow> comparison_start (rr_run r) \<le> t"
    using recover_leases_times [OF spec(2) _ _ r2] by blast
  moreover have "r \<in> set (db_runs db1)" if "r \<in> set (db_runs db)" "rr_id r \<in> le_run_id ` set ?ls" for r
  proof -
    have "r \<notin> set ?rows" using due_disjoint [OF inv] that(2) by blast
    with that(1) show ?thesis unfolding spec(3) by force
  qed
  ultimately show ?thesis using t n times by blast
qed

lemma recover_expired_inv:
  assumes inv: "queue_inv db" and ok: "recover_expired locks d limit db = Inr (rs, db')"
  shows "queue_inv db'"
  using recover_expired_ok_cases [OF inv ok] recover_expired_core [OF inv] ok by fastforce

end
