(* ===== verification/Workspace_Leases.thy ===== *)
theory Workspace_Leases
  imports Queue_Recovery
begin

section \<open>Workspace writer leases\<close>

text \<open>
  \<open>PostgresWorkspaceLeaseStore\<close> of \<open>platform_persistence/distributed.py\<close>: exclusive
  ownership of a workspace, fenced by the run lease of its owner and by a generation that
  only grows. The three operations keep the queue invariant; a writer lease that has been
  superseded is refused by every one of them.
\<close>

subsection \<open>Operations\<close>

definition workspace_lease_domain :: "WorkspaceLeaseRecord \<Rightarrow> WorkspaceWriterLease result" where
  "workspace_lease_domain record =
     (case (ws_run_id record, ws_worker_id record, ws_run_lease_token record, ws_lease_token record,
            ws_acquired_at record, ws_expires_at record) of
        (Some r, Some w, Some rt, Some tok, Some a, Some x) \<Rightarrow>
          writer_lease_model_validate
            \<lparr>ww_tenant_id = ws_tenant_id record, ww_workspace_id = ws_workspace_id record,
             ww_run_id = r, ww_worker_id = w, ww_run_lease_token = rt, ww_lease_token = tok,
             ww_generation = ws_generation record, ww_acquired_at = a, ww_expires_at = x\<rparr>
      | _ \<Rightarrow> Inl (domain_error ''workspace_lease_corrupt''
               ''the durable workspace writer lease is incomplete'' False []))"

definition workspace_lease_lost :: "WorkspaceWriterLease \<Rightarrow> py_error" where
  "workspace_lease_lost lease =
     domain_error ''workspace_lease_lost'' ''the workspace writer lease is no longer owned'' True
       [(''workspace_id'', JStr (uuid_str (ww_workspace_id lease)))]"

definition put_workspace :: "WorkspaceLeaseRecord \<Rightarrow> database \<Rightarrow> database" where
  "put_workspace w db = db\<lparr>db_workspace_leases := put_row ws_key w (db_workspace_leases db)\<rparr>"

definition acquire :: "uuid option \<Rightarrow> RunLease \<Rightarrow> datetime \<Rightarrow> timedelta \<Rightarrow> WorkspaceWriterLease option transaction" where
  "acquire token run_lease occurred_at lease_duration db =
     bindE (operation_time occurred_at ''workspace_lease_invalid'') (\<lambda>timestamp.
     bindE (lease_expiry timestamp lease_duration ''workspace_lease_invalid'') (\<lambda>requested_expiry.
     bindE (assert_matching_run_lease
              (select_one (\<lambda>l. le_lease_token l = rl_lease_token run_lease) (db_run_leases db)) run_lease)
       (\<lambda>active_run_lease.
     bindE (require_unexpired active_run_lease timestamp (rl_run_id run_lease)) (\<lambda>_.
     let expires_at = min requested_expiry (le_expires_at active_run_lease)
     in if expires_at \<le> timestamp
        then Inl (domain_error ''workspace_lease_invalid''
               ''workspace lease cannot outlive an expired run lease'' False [])
        else
          (case claim_workspace (\<lambda>_. False) (rl_tenant_id run_lease, rl_workspace_id run_lease) db of
             (None, _) \<Rightarrow> Inl (domain_error ''workspace_lease_conflict''
                              ''workspace lease allocation lost its durable row'' True [])
           | (Some row, db1) \<Rightarrow>
               if ws_lease_token row \<noteq> None then
                 if ws_run_lease_token row = Some (rl_lease_token run_lease)
                    \<and> ws_run_id row = Some (rl_run_id run_lease)
                    \<and> ws_worker_id row = Some (rl_worker_id run_lease)
                    \<and> ws_tenant_id row = rl_tenant_id run_lease
                    \<and> ws_workspace_id row = rl_workspace_id run_lease
                 then
                   let row' = row\<lparr>ws_expires_at := Some expires_at\<rparr>
                   in bindE (flush (put_workspace row' db1)) (\<lambda>db2.
                      bindE (workspace_lease_domain row') (\<lambda>l. Inr (Some l, db2)))
                 else bindE (flush db1) (\<lambda>db2. Inr (None, db2))
               else
                 bindE (new_token token) (\<lambda>tok.
                 let row' = row\<lparr>ws_run_id := Some (rl_run_id run_lease),
                                ws_worker_id := Some (rl_worker_id run_lease),
                                ws_run_lease_token := Some (rl_lease_token run_lease),
                                ws_lease_token := Some tok, ws_generation := ws_generation row + 1,
                                ws_acquired_at := Some timestamp, ws_expires_at := Some expires_at\<rparr>
                 in bindE (flush (put_workspace row' db1)) (\<lambda>db2.
                    bindE (workspace_lease_domain row') (\<lambda>l. Inr (Some l, db2)))))))))"

definition writer_run_lease_ok :: "RunLeaseRecord \<Rightarrow> WorkspaceWriterLease \<Rightarrow> timestamp \<Rightarrow> bool" where
  "writer_run_lease_ok l lease timestamp \<longleftrightarrow>
     le_tenant_id l = ww_tenant_id lease \<and> le_worker_id l = ww_worker_id lease
   \<and> le_run_id l = ww_run_id lease \<and> timestamp < le_expires_at l"

definition writer_row_matches :: "WorkspaceLeaseRecord \<Rightarrow> WorkspaceWriterLease \<Rightarrow> bool" where
  "writer_row_matches row lease \<longleftrightarrow>
     ws_tenant_id row = ww_tenant_id lease \<and> ws_workspace_id row = ww_workspace_id lease
   \<and> ws_run_id row = Some (ww_run_id lease) \<and> ws_worker_id row = Some (ww_worker_id lease)
   \<and> ws_lease_token row = Some (ww_lease_token lease) \<and> ws_generation row = ww_generation lease
   \<and> ws_run_lease_token row = Some (ww_run_lease_token lease)"

definition workspace_row :: "WorkspaceWriterLease \<Rightarrow> database \<Rightarrow> WorkspaceLeaseRecord option" where
  "workspace_row lease db =
     select_one (\<lambda>w. ws_key w = (ww_tenant_id lease, ww_workspace_id lease)) (db_workspace_leases db)"

definition workspace_heartbeat ::
    "WorkspaceWriterLease \<Rightarrow> datetime \<Rightarrow> timedelta \<Rightarrow> WorkspaceWriterLease transaction" where
  "workspace_heartbeat lease occurred_at lease_duration db =
     bindE (operation_time occurred_at ''workspace_heartbeat_invalid'') (\<lambda>timestamp.
     bindE (lease_expiry timestamp lease_duration ''workspace_heartbeat_invalid'') (\<lambda>requested_expiry.
     case (select_one (\<lambda>l. le_lease_token l = ww_run_lease_token lease) (db_run_leases db),
           workspace_row lease db) of
       (Some run_lease, Some row) \<Rightarrow>
         if \<not> (writer_run_lease_ok run_lease lease timestamp \<and> writer_row_matches row lease)
         then Inl (workspace_lease_lost lease)
         else
           let expires_at = min requested_expiry (le_expires_at run_lease)
           in if expires_at \<le> timestamp
              then Inl (domain_error ''workspace_lease_lost'' ''the owning run lease has expired'' True [])
              else
                let row' = row\<lparr>ws_expires_at := Some expires_at\<rparr>
                in bindE (flush (put_workspace row' db)) (\<lambda>db'.
                   bindE (workspace_lease_domain row') (\<lambda>l. Inr (l, db')))
     | _ \<Rightarrow> Inl (workspace_lease_lost lease)))"

definition workspace_release :: "WorkspaceWriterLease \<Rightarrow> unit transaction" where
  "workspace_release lease db =
     (case workspace_row lease db of
        None \<Rightarrow> Inl (workspace_lease_lost lease)
      | Some row \<Rightarrow>
          if ws_lease_token row = None then
            if ws_generation row = ww_generation lease \<and> ws_run_id row = None \<and> ws_worker_id row = None
               \<and> ws_run_lease_token row = None \<and> ws_acquired_at row = None \<and> ws_expires_at row = None
            then Inr ((), db)
            else Inl (workspace_lease_lost lease)
          else if \<not> writer_row_matches row lease
          then Inl (domain_error ''workspace_lease_lost''
                 ''a stale worker may not release a successor workspace lease'' True
                 [(''workspace_id'', JStr (uuid_str (ww_workspace_id lease)))])
          else bindE (flush (put_workspace (clear_workspace_owner row) db)) (\<lambda>db'. Inr ((), db')))"

subsection \<open>They keep the invariant\<close>

lemma lease_inv_put_workspace:
  assumes inv: "lease_inv db" and w: "\<And>t. ws_run_lease_token w = Some t \<Longrightarrow> \<exists>l \<in> set (db_run_leases db). holds_writer w l"
  shows "lease_inv (put_workspace w db)"
proof -
  have "writers_leased (put_row ws_key w (db_workspace_leases db)) (db_run_leases db)"
    unfolding writers_leased_def
  proof (intro ballI impI)
    fix k
    assume k: "k \<in> set (put_row ws_key w (db_workspace_leases db))" "ws_run_lease_token k \<noteq> None"
    from put_row_mem [OF k(1)] show "\<exists>l \<in> set (db_run_leases db). holds_writer k l"
      using k(2) w lease_invD(4) [OF inv] by (auto simp: writers_leased_def)
  qed
  with lease_invD [OF inv] show ?thesis by (simp add: lease_inv_def put_workspace_def names_ok_def)
qed

lemma claim_workspace_inv:
  assumes inv: "queue_inv db" and c: "claim_workspace locked key db = (res, db1)"
  shows "queue_inv db1" "db_run_leases db1 = db_run_leases db" "db_runs db1 = db_runs db"
    "\<And>w. res = Some w \<Longrightarrow> w \<in> set (db_workspace_leases db1) \<and> ws_key w = key"
proof -
  have "queue_inv db1 \<and> db_run_leases db1 = db_run_leases db \<and> db_runs db1 = db_runs db
      \<and> (\<forall>w. res = Some w \<longrightarrow> w \<in> set (db_workspace_leases db1) \<and> ws_key w = key)"
  proof (cases "select_one (\<lambda>w. ws_key w = key) (db_workspace_leases db)")
    case None
    then have "key \<notin> ws_key ` set (db_workspace_leases db)" by (auto simp: select_one_None)
    note q = queue_inv_free_workspace [OF inv this]
    from None c have "res = Some (free_workspace key)"
      "db1 = db\<lparr>db_workspace_leases := db_workspace_leases db @ [free_workspace key]\<rparr>"
      by (simp_all add: claim_workspace_def Let_def free_workspace_def)
    with q show ?thesis by simp
  next
    case (Some w)
    with select_one_Some [OF Some] inv c show ?thesis by (auto simp: claim_workspace_def split: if_splits)
  qed
  then show "queue_inv db1" "db_run_leases db1 = db_run_leases db" "db_runs db1 = db_runs db"
    "\<And>w. res = Some w \<Longrightarrow> w \<in> set (db_workspace_leases db1) \<and> ws_key w = key"
    by auto
qed

lemma claim_workspace_unlocked: "fst (claim_workspace (\<lambda>_. False) key db) \<noteq> None"
  by (simp add: claim_workspace_def Let_def split: option.split)

lemma assert_matching_ok:
  assumes "assert_matching_run_lease (select_one (\<lambda>l. le_lease_token l = rl_lease_token lease) leases) lease = Inr l"
  shows "l \<in> set leases" "lease_matches l lease"
  using assms
  by (auto simp: assert_matching_run_lease_def split: option.splits if_splits dest!: select_one_Some)

lemma acquire_ok_cases:
  assumes inv: "queue_inv db" and ok: "acquire token lease d dur db = Inr (res, db')"
  shows "\<exists>t l w db1. normalize_timestamp d = Inr t \<and> l \<in> set (db_run_leases db) \<and> lease_matches l lease
    \<and> t < le_expires_at l
    \<and> queue_inv db1 \<and> db_run_leases db1 = db_run_leases db \<and> db_runs db1 = db_runs db
    \<and> w \<in> set (db_workspace_leases db1) \<and> ws_key w = (rl_tenant_id lease, rl_workspace_id lease)
    \<and> constraints_ok db'
    \<and> (res = None \<and> db' = db1 \<and> ws_lease_token w \<noteq> None
       \<or> (\<exists>w' x wl. res = Some wl \<and> workspace_lease_domain w' = Inr wl \<and> db' = put_workspace w' db1
           \<and> t < x \<and> x \<le> le_expires_at l \<and> ws_expires_at w' = Some x
           \<and> ws_key w' = ws_key w \<and> holds_writer w' l
           \<and> (ws_lease_token w \<noteq> None \<and> holds_writer w l \<and> ws_lease_token w' = ws_lease_token w
                \<and> ws_generation w' = ws_generation w
              \<or> ws_lease_token w = None \<and> ws_lease_token w' \<noteq> None \<and> ws_generation w' = ws_generation w + 1)))"
proof -
  from ok obtain t l where t: "normalize_timestamp d = Inr t"
    and l: "assert_matching_run_lease (select_one (\<lambda>l. le_lease_token l = rl_lease_token lease) (db_run_leases db)) lease = Inr l"
    and x: "t < le_expires_at l" and dur: "0 < dur" "dur \<le> 3600 * 1000000"
    by (auto simp: acquire_def bindE_eq_Inr)
  note L = assert_matching_ok [OF l]
  let ?x = "min (t + dur) (le_expires_at l)"
  have tx: "t < ?x" "?x \<le> le_expires_at l" using x dur by auto
  obtain r db1 where c: "claim_workspace (\<lambda>_. False) (rl_tenant_id lease, rl_workspace_id lease) db = (r, db1)"
    by (cases "claim_workspace (\<lambda>_. False) (rl_tenant_id lease, rl_workspace_id lease) db") auto
  note C = claim_workspace_inv [OF inv c]
  have "r \<noteq> None" using claim_workspace_unlocked [of "(rl_tenant_id lease, rl_workspace_id lease)" db] c by simp
  then obtain w where r: "r = Some w" by blast
  note W = C(4) [OF r]
  have eq: "lease_expiry t dur ''workspace_lease_invalid'' = Inr (t + dur)"
    "operation_time d ''workspace_lease_invalid'' = Inr t"
    using dur t by simp_all
  show ?thesis
  proof (cases "ws_lease_token w")
    case None
    with ok eq l x tx c r obtain tok where tok: "token = Some tok"
      by (auto simp: acquire_def bindE_eq_Inr Let_def)
    let ?w = "w\<lparr>ws_run_id := Some (rl_run_id lease), ws_worker_id := Some (rl_worker_id lease),
          ws_run_lease_token := Some (rl_lease_token lease), ws_lease_token := Some tok,
          ws_generation := ws_generation w + 1, ws_acquired_at := Some t, ws_expires_at := Some ?x\<rparr>"
    from None ok eq l x tx c r tok obtain wl where
      db': "db' = put_workspace ?w db1" "constraints_ok db'"
      and wl: "res = Some wl" "workspace_lease_domain ?w = Inr wl"
      by (auto simp: acquire_def bindE_eq_Inr Let_def)
    have "holds_writer ?w l" using L(2) W by (simp add: holds_writer_def lease_matches_def ws_key_def)
    moreover have "ws_key ?w = ws_key w" by (simp add: ws_key_def)
    ultimately have "\<exists>w' x wl. res = Some wl \<and> workspace_lease_domain w' = Inr wl \<and> db' = put_workspace w' db1
           \<and> t < x \<and> x \<le> le_expires_at l \<and> ws_expires_at w' = Some x
           \<and> ws_key w' = ws_key w \<and> holds_writer w' l
           \<and> (ws_lease_token w \<noteq> None \<and> holds_writer w l \<and> ws_lease_token w' = ws_lease_token w
                \<and> ws_generation w' = ws_generation w
              \<or> ws_lease_token w = None \<and> ws_lease_token w' \<noteq> None \<and> ws_generation w' = ws_generation w + 1)"
      using wl db' tx None by (intro exI [of _ ?w] exI [of _ ?x] exI [of _ wl]) simp
    with t L x C W db'(2) show ?thesis by blast
  next
    case (Some tok)
    show ?thesis
    proof (cases "ws_run_lease_token w = Some (rl_lease_token lease) \<and> ws_run_id w = Some (rl_run_id lease)
        \<and> ws_worker_id w = Some (rl_worker_id lease) \<and> ws_tenant_id w = rl_tenant_id lease
        \<and> ws_workspace_id w = rl_workspace_id lease")
      case True
      let ?w = "w\<lparr>ws_expires_at := Some ?x\<rparr>"
      from True ok eq l x tx c r Some obtain wl where
        db': "db' = put_workspace ?w db1" "constraints_ok db'"
        and wl: "res = Some wl" "workspace_lease_domain ?w = Inr wl"
        by (auto simp: acquire_def bindE_eq_Inr Let_def)
      have "holds_writer w l" "holds_writer ?w l" using L(2) True by (simp_all add: holds_writer_def lease_matches_def)
      moreover have "ws_key ?w = ws_key w" by (simp add: ws_key_def)
      ultimately have "\<exists>w' x wl. res = Some wl \<and> workspace_lease_domain w' = Inr wl \<and> db' = put_workspace w' db1
           \<and> t < x \<and> x \<le> le_expires_at l \<and> ws_expires_at w' = Some x
           \<and> ws_key w' = ws_key w \<and> holds_writer w' l
           \<and> (ws_lease_token w \<noteq> None \<and> holds_writer w l \<and> ws_lease_token w' = ws_lease_token w
                \<and> ws_generation w' = ws_generation w
              \<or> ws_lease_token w = None \<and> ws_lease_token w' \<noteq> None \<and> ws_generation w' = ws_generation w + 1)"
        using wl db' tx Some by (intro exI [of _ ?w] exI [of _ ?x] exI [of _ wl]) simp
      with t L x C W db'(2) show ?thesis by blast
    next
      case False
      with ok eq l x tx c r Some have "res = None" "db' = db1" "constraints_ok db'"
        by (auto simp: acquire_def bindE_eq_Inr Let_def)
      with t L x C W Some show ?thesis by blast
    qed
  qed
qed

lemma acquire_inv:
  assumes inv: "queue_inv db" and ok: "acquire token lease d dur db = Inr (res, db')"
  shows "queue_inv db'"
proof -
  from acquire_ok_cases [OF assms] obtain l w' db1 where
    l: "l \<in> set (db_run_leases db)" and inv1: "queue_inv db1" and same: "db_run_leases db1 = db_run_leases db"
    and c: "constraints_ok db'" and db': "db' = db1 \<or> db' = put_workspace w' db1 \<and> holds_writer w' l"
    by blast
  from db' show ?thesis
  proof
    assume "db' = db1"
    with inv1 show ?thesis by simp
  next
    assume "db' = put_workspace w' db1 \<and> holds_writer w' l"
    with l same lease_inv_put_workspace [OF queue_invD(2) [OF inv1], of w'] c show ?thesis
      by (auto simp: queue_inv_def)
  qed
qed

lemma workspace_heartbeat_ok_cases:
  assumes ok: "workspace_heartbeat lease d dur db = Inr (wl, db')"
  shows "\<exists>t l row x. normalize_timestamp d = Inr t \<and> l \<in> set (db_run_leases db)
    \<and> le_lease_token l = ww_run_lease_token lease \<and> writer_run_lease_ok l lease t
    \<and> row \<in> set (db_workspace_leases db) \<and> writer_row_matches row lease \<and> t < x \<and> x \<le> le_expires_at l
    \<and> db' = put_workspace (row\<lparr>ws_expires_at := Some x\<rparr>) db \<and> constraints_ok db'
    \<and> workspace_lease_domain (row\<lparr>ws_expires_at := Some x\<rparr>) = Inr wl"
proof -
  from ok obtain t l row where t: "normalize_timestamp d = Inr t" and dur: "0 < dur" "dur \<le> 3600 * 1000000"
    and l: "select_one (\<lambda>l. le_lease_token l = ww_run_lease_token lease) (db_run_leases db) = Some l"
    and row: "workspace_row lease db = Some row"
    by (auto simp: workspace_heartbeat_def bindE_eq_Inr split: option.splits)
  have m: "writer_run_lease_ok l lease t" "writer_row_matches row lease"
    using ok t dur l row by (auto simp: workspace_heartbeat_def bindE_eq_Inr split: if_splits)
  let ?x = "min (t + dur) (le_expires_at l)"
  have "t < ?x" using m(1) dur by (simp add: writer_run_lease_ok_def)
  moreover have "db' = put_workspace (row\<lparr>ws_expires_at := Some ?x\<rparr>) db" "constraints_ok db'"
    "workspace_lease_domain (row\<lparr>ws_expires_at := Some ?x\<rparr>) = Inr wl"
    using ok t dur l row m calculation by (auto simp: workspace_heartbeat_def bindE_eq_Inr Let_def split: if_splits)
  ultimately show ?thesis
    using t m select_one_Some [OF l] select_one_Some [OF row [unfolded workspace_row_def]]
    by (intro exI [of _ t] exI [of _ l] exI [of _ row] exI [of _ ?x]) simp
qed

lemma workspace_heartbeat_inv:
  assumes inv: "queue_inv db" and ok: "workspace_heartbeat lease d dur db = Inr (wl, db')"
  shows "queue_inv db'"
proof -
  from workspace_heartbeat_ok_cases [OF ok] obtain row x where
    row: "row \<in> set (db_workspace_leases db)"
    and db': "db' = put_workspace (row\<lparr>ws_expires_at := Some x\<rparr>) db" "constraints_ok db'"
    by blast
  have "lease_inv db'"
    unfolding db'(1)
    by (rule lease_inv_put_workspace [OF queue_invD(2) [OF inv]])
      (use row lease_invD(4) [OF queue_invD(2) [OF inv]] in \<open>fastforce simp: writers_leased_def holds_writer_def\<close>)
  with db'(2) show ?thesis by (simp add: queue_inv_def)
qed

lemma workspace_release_inv:
  assumes inv: "queue_inv db" and ok: "workspace_release lease db = Inr (u, db')"
  shows "queue_inv db'"
proof -
  from ok obtain row where "db' = db \<or> db' = put_workspace (clear_workspace_owner row) db \<and> constraints_ok db'"
    by (auto simp: workspace_release_def bindE_eq_Inr split: option.splits if_splits)
  then show ?thesis
  proof
    assume d: "db' = put_workspace (clear_workspace_owner row) db \<and> constraints_ok db'"
    then have "lease_inv db'"
      using lease_inv_put_workspace [OF queue_invD(2) [OF inv], of "clear_workspace_owner row"]
      by (simp add: clear_workspace_owner_def)
    with d show ?thesis unfolding queue_inv_def by blast
  qed (simp add: inv)
qed

end
