(* ===== verification/Run_Repository.thy ===== *)
theory Run_Repository
  imports Workspace_Leases
begin

section \<open>The run repository\<close>

text \<open>
  \<open>PostgresSessionRepository\<close>, \<open>PostgresRunRepository\<close> and \<open>PostgresApprovalRepository\<close> of
  \<open>platform_persistence/repositories.py\<close>, and \<open>PostgresTenantQuotaRepository\<close> of
  \<open>platform_persistence/capacity.py\<close>: idempotent run creation with its admission checks, the
  compare-and-set transition, cancellation, rewinding to a checkpoint and approval decisions.

  A transaction that ends without an explicit \<open>flush\<close> flushes when it commits. \<open>digest\<close> is
  the digest of a creation payload, \<open>uuid5\<close> the name-based identifier, \<open>now\<close> the value of
  \<open>func.now()\<close> in the transaction; the identifiers of \<open>id_factory\<close> are arguments.
\<close>

subsection \<open>Sessions and quotas\<close>

definition create_session :: "Session \<Rightarrow> Session transaction" where
  "create_session session db =
     bindE (flush (db\<lparr>db_sessions := db_sessions db @ [session]\<rparr>)) (\<lambda>db'. Inr (session, db'))"

definition session_domain :: "SessionRecord \<Rightarrow> Session result" where
  "session_domain record = session_model_validate record"

definition get_session :: "uuid \<Rightarrow> uuid \<Rightarrow> database \<Rightarrow> Session option result" where
  "get_session tenant session db =
     (case select_one (\<lambda>s. session_tenant_id s = tenant \<and> session_id s = session) (db_sessions db) of
        None \<Rightarrow> Inr None
      | Some row \<Rightarrow> bindE (session_domain row) (\<lambda>s. Inr (Some s)))"

definition aware_time :: "datetime \<Rightarrow> timestamp result" where
  "aware_time v =
     (case normalize_timestamp v of
        Inl e \<Rightarrow> Inl (ValueError ''capacity clock must return an aware datetime'')
      | Inr t \<Rightarrow> Inr t)"

definition quota_domain :: "TenantQuotaRecord \<Rightarrow> TenantQuota result" where
  "quota_domain row = tenant_quota_validate (tqr_quota row)"

definition get_quota :: "TenantQuota \<Rightarrow> datetime \<Rightarrow> uuid \<Rightarrow> TenantQuota transaction" where
  "get_quota default_quota clock tenant db =
     bindE (aware_time clock) (\<lambda>now.
     bindE (ensure_tenant_quota tenant default_quota now db) (\<lambda>(row, db1).
     bindE (quota_domain row) (\<lambda>q.
     bindE (flush db1) (\<lambda>db2. Inr (q, db2)))))"

definition set_quota :: "TenantQuota \<Rightarrow> uuid \<Rightarrow> TenantQuota \<Rightarrow> datetime \<Rightarrow> TenantQuota transaction" where
  "set_quota default_quota tenant quota occurred_at db =
     bindE (aware_time occurred_at) (\<lambda>timestamp.
     bindE (ensure_tenant_quota tenant default_quota timestamp db) (\<lambda>(row, db1).
     if timestamp < tqr_updated_at row
     then Inl (ValueError ''quota update may not move time backward'')
     else
       let row' = row\<lparr>tqr_quota := quota, tqr_updated_at := timestamp\<rparr>
       in bindE (flush (db1\<lparr>db_quotas := put_row tqr_tenant_id row' (db_quotas db1)\<rparr>)) (\<lambda>db2.
          bindE (quota_domain row') (\<lambda>q. Inr (q, db2)))))"

subsection \<open>Creating a run\<close>

definition run_values :: "uuid \<Rightarrow> Run \<Rightarrow> string \<Rightarrow> string \<Rightarrow> RunRecord" where
  "run_values tenant run idempotency_key creation_hash =
     \<lparr>rr_tenant_id = tenant, rr_run = run, rr_lease_generation = 0, rr_retry_ready_at = None,
      rr_idempotency_key = idempotency_key, rr_creation_hash = creation_hash,
      rr_next_event_sequence = 1\<rparr>"

definition creation_record :: "database \<Rightarrow> uuid \<Rightarrow> uuid \<Rightarrow> string \<Rightarrow> RunRecord option" where
  "creation_record db tenant session idempotency_key =
     select_one (\<lambda>r. rr_tenant_id r = tenant \<and> run_session_id (rr_run r) = session
                   \<and> rr_idempotency_key r = idempotency_key) (db_runs db)"

definition existing_creation :: "RunRecord \<Rightarrow> Run \<Rightarrow> string \<Rightarrow> string \<Rightarrow> RunCreationResult result" where
  "existing_creation existing run idempotency_key creation_hash =
     (if rr_creation_hash existing \<noteq> creation_hash
      then Inl (domain_error ''run_idempotency_conflict''
             ''the idempotency key belongs to a different run payload'' False
             [(''idempotency_key'', JStr idempotency_key),
              (''session_id'', JStr (uuid_str (run_session_id run)))])
      else bindE (run_domain existing) (\<lambda>r. Inr \<lparr>rc_run = r, rc_created = False\<rparr>))"

definition lock_submission_session :: "database \<Rightarrow> uuid \<Rightarrow> Run \<Rightarrow> unit result" where
  "lock_submission_session db tenant run =
     (case select_one (\<lambda>s. session_tenant_id s = tenant \<and> session_id s = run_session_id run)
             (db_sessions db) of
        None \<Rightarrow> Inl (domain_error ''session_not_found'' ''the run session was not found'' False [])
      | Some session \<Rightarrow>
          if session_workspace_id session \<noteq> run_workspace_id run
          then Inl (domain_error ''run_workspace_mismatch''
                 ''the run workspace does not match its session'' False [])
          else Inr ())"

definition queue_admission :: "QueueAdmissionPolicy \<Rightarrow> timestamp \<Rightarrow> QueueAdmissionRecord transaction" where
  "queue_admission policy occurred_at db =
     (let row = (case db_admission db of
                   Some a \<Rightarrow> a
                 | None \<Rightarrow> \<lparr>qa_global_queue_limit = qp_global_queue_limit policy,
                           qa_retry_after_seconds = qp_retry_after_seconds policy,
                           qa_created_at = occurred_at, qa_updated_at = occurred_at\<rparr>)
      in if qa_global_queue_limit row \<noteq> qp_global_queue_limit policy
            \<or> qa_retry_after_seconds row \<noteq> qp_retry_after_seconds policy
         then if occurred_at < qa_updated_at row
              then Inl (domain_error ''queue_admission_clock_invalid''
                     ''queue admission configuration time may not move backward'' True [])
              else let row' = row\<lparr>qa_global_queue_limit := qp_global_queue_limit policy,
                                 qa_retry_after_seconds := qp_retry_after_seconds policy,
                                 qa_updated_at := occurred_at\<rparr>
                   in Inr (row', db\<lparr>db_admission := Some row'\<rparr>)
         else Inr (row, db\<lparr>db_admission := Some row\<rparr>))"

definition tenant_queued :: "database \<Rightarrow> uuid \<Rightarrow> int" where
  "tenant_queued db tenant =
     int (count_where (\<lambda>r. rr_tenant_id r = tenant \<and> rr_status r \<in> set queued_statuses) (db_runs db))"

definition global_queued :: "database \<Rightarrow> int" where
  "global_queued db = int (count_where (\<lambda>r. rr_status r \<in> set queued_statuses) (db_runs db))"

definition capacity_details :: "int \<Rightarrow> CapacityScope \<Rightarrow> rat \<Rightarrow> json_object" where
  "capacity_details limit scope retry_after =
     [(''limit'', JInt limit), (''scope'', JStr (capacity_scope_value scope)),
      (''retry_after_seconds'', JFloat (Fin retry_after))]"

definition next_message_sequence :: "uuid \<Rightarrow> uuid \<Rightarrow> database \<Rightarrow> int" where
  "next_message_sequence tenant session db =
     foldl max 0 (map (\<lambda>m. pm_sequence (mr_message m))
       (filter (\<lambda>m. mr_tenant_id m = tenant \<and> pm_session_id (mr_message m) = session) (db_messages db))) + 1"

definition submission_metadata :: "RunSubmission \<Rightarrow> json_object" where
  "submission_metadata submission =
     [(''source'', JStr ''run_submission'')]
     @ (if sub_referenced_files submission = [] then []
        else [(''referenced_files'', JList (map file_reference_dump (sub_referenced_files submission)))])"

definition insert_initial_state :: "uuid \<Rightarrow> uuid \<Rightarrow> uuid \<Rightarrow> RunSubmission \<Rightarrow> database \<Rightarrow> database result" where
  "insert_initial_state message_id plan_id tenant submission db =
     (let run = sub_run submission
      in bindE (frozen_from_validated (submission_metadata submission)) (\<lambda>metadata.
         bindE (persisted_message_model_validate
                  \<lparr>pm_id = message_id, pm_session_id = run_session_id run, pm_run_id = run_id run,
                   pm_execution_epoch = run_execution_epoch run,
                   pm_sequence = next_message_sequence tenant (run_session_id run) db,
                   pm_role = USER, pm_content = sub_task submission, pm_metadata = metadata,
                   pm_created_at = run_created_at run\<rparr>) (\<lambda>message.
         bindE (frozen_from_validated
                  [(''tasks'', JList (map tracked_task_dump (sub_initial_tasks submission)))]) (\<lambda>tasks.
         bindE (task_plan_model_validate
                  \<lparr>pp_id = plan_id, pp_run_id = run_id run,
                   pp_execution_epoch = run_execution_epoch run, pp_version = 1, pp_plan = tasks,
                   pp_created_at = run_created_at run\<rparr>) (\<lambda>plan.
         Inr (db\<lparr>db_messages := db_messages db @ [\<lparr>mr_tenant_id = tenant, mr_message = message\<rparr>],
                 db_task_plans := db_task_plans db @ [\<lparr>tp_tenant_id = tenant, tp_plan = plan\<rparr>]\<rparr>))))))"

definition invalid_run_creation :: "string \<Rightarrow> py_error" where
  "invalid_run_creation msg = domain_error ''invalid_run_creation'' msg False []"

definition submission_hash :: "(json_object \<Rightarrow> string) \<Rightarrow> Run \<Rightarrow> RunSubmission option \<Rightarrow> string" where
  "submission_hash digest run submission =
     run_creation_hash digest (run_priority run) (run_priority_class run)
       (map_option sub_task submission) (map_option sub_initial_tasks submission)
       (map_option sub_referenced_files submission)"

definition admit_run :: "queue_config \<Rightarrow> uuid \<Rightarrow> timestamp \<Rightarrow> TenantQuotaRecord \<Rightarrow> unit transaction" where
  "admit_run cfg tenant occurred_at quota db =
     bindE (queue_admission (qc_admission_policy cfg) occurred_at db) (\<lambda>(admission, db1).
     if tenant_queued db1 tenant \<ge> tq_max_queued_runs (tqr_quota quota)
     then Inl (domain_error ''tenant_queue_quota_exceeded'' ''the tenant queued-run quota is exhausted''
            True (capacity_details (tq_max_queued_runs (tqr_quota quota)) TENANT_QUEUED_RUNS 1))
     else if global_queued db1 \<ge> qa_global_queue_limit admission
     then Inl (domain_error ''queue_overloaded''
            ''the global run queue has reached its admission threshold'' True
            (capacity_details (qa_global_queue_limit admission) GLOBAL_QUEUE
               (qa_retry_after_seconds admission)))
     else Inr ((), db1))"

definition persistence_conflict :: "string \<Rightarrow> py_error" where
  "persistence_conflict msg = domain_error ''persistence_conflict'' msg True []"

text \<open>
  The three lookups of \<open>_create\<close> follow one another here without a change between them; in
  the database each follows a lock that another creator may have held. The second branch of
  the \<open>INSERT ... ON CONFLICT DO NOTHING\<close> is the row that the third lookup finds.
\<close>

definition create_run ::
    "(json_object \<Rightarrow> string) \<Rightarrow> queue_config \<Rightarrow> uuid \<Rightarrow> uuid \<Rightarrow> uuid \<Rightarrow> Run \<Rightarrow> string \<Rightarrow> string \<Rightarrow>
     RunSubmission option \<Rightarrow> RunCreationResult transaction"
where
  "create_run digest cfg message_id plan_id tenant run idempotency_key creation_hash submission db =
     (case IdempotencyKey ''idempotency_key'' idempotency_key of
        Inl e \<Rightarrow> Inl (invalid_run_creation ''the run idempotency key is invalid'')
      | Inr key \<Rightarrow>
          if creation_hash \<noteq> submission_hash digest run submission
          then Inl (invalid_run_creation ''the run creation hash does not match the run payload'')
          else (case creation_record db tenant (run_session_id run) key of
              Some existing \<Rightarrow>
                bindE (existing_creation existing run key creation_hash) (\<lambda>r. Inr (r, db))
            | None \<Rightarrow>
                bindE (case submission of None \<Rightarrow> Inr () | Some s \<Rightarrow> lock_submission_session db tenant run) (\<lambda>_.
                bindE (ensure_tenant_quota tenant (qc_default_quota cfg) (run_created_at run) db) (\<lambda>(quota, db1).
                case creation_record db1 tenant (run_session_id run) key of
                  Some existing \<Rightarrow>
                    bindE (existing_creation existing run key creation_hash) (\<lambda>r.
                    bindE (flush db1) (\<lambda>db2. Inr (r, db2)))
                | None \<Rightarrow>
                    bindE (admit_run cfg tenant (run_created_at run) quota db1) (\<lambda>(_, db2).
                    case creation_record db2 tenant (run_session_id run) key of
                      Some existing \<Rightarrow>
                        bindE (existing_creation existing run key creation_hash) (\<lambda>r.
                        bindE (flush db2) (\<lambda>db3. Inr (r, db3)))
                    | None \<Rightarrow>
                        bindE (flush (db2\<lparr>db_runs := db_runs db2 @ [run_values tenant run key creation_hash]\<rparr>)) (\<lambda>db3.
                        bindE (case submission of None \<Rightarrow> Inr db3
                               | Some s \<Rightarrow> insert_initial_state message_id plan_id tenant s db3) (\<lambda>db4.
                        bindE (flush db4) (\<lambda>db5. Inr (\<lparr>rc_run = run, rc_created = True\<rparr>, db5)))))))))"

text \<open>
  \<open>create_idempotent\<close> and \<open>create_submission\<close>; the wakeup they publish afterwards does not
  touch the database.
\<close>

definition create_idempotent ::
    "(json_object \<Rightarrow> string) \<Rightarrow> queue_config \<Rightarrow> uuid \<Rightarrow> Run \<Rightarrow> string \<Rightarrow> string \<Rightarrow> RunCreationResult transaction"
where
  "create_idempotent digest cfg tenant run idempotency_key creation_hash =
     create_run digest cfg 0 0 tenant run idempotency_key creation_hash None"

definition create_submission ::
    "(json_object \<Rightarrow> string) \<Rightarrow> queue_config \<Rightarrow> uuid \<Rightarrow> uuid \<Rightarrow> uuid \<Rightarrow> RunSubmission \<Rightarrow> string \<Rightarrow> string \<Rightarrow>
     RunCreationResult transaction"
where
  "create_submission digest cfg message_id plan_id tenant submission idempotency_key creation_hash =
     create_run digest cfg message_id plan_id tenant (sub_run submission) idempotency_key creation_hash
       (Some submission)"

subsection \<open>Reading, transitions and cancellation\<close>

definition run_row_of :: "database \<Rightarrow> uuid \<Rightarrow> uuid \<Rightarrow> RunRecord option" where
  "run_row_of db tenant run = select_one (\<lambda>r. rr_tenant_id r = tenant \<and> rr_id r = run) (db_runs db)"

definition get_run :: "uuid \<Rightarrow> uuid \<Rightarrow> database \<Rightarrow> Run option result" where
  "get_run tenant run db =
     (case run_row_of db tenant run of
        None \<Rightarrow> Inr None
      | Some row \<Rightarrow> bindE (run_domain row) (\<lambda>r. Inr (Some r)))"

definition repository_transition ::
    "uuid \<Rightarrow> uuid \<Rightarrow> RunStatus \<Rightarrow> RunStatus \<Rightarrow> datetime \<Rightarrow> string option \<Rightarrow> datetime option \<Rightarrow> bool transaction"
where
  "repository_transition tenant run expected_status new_status occurred_at worker_id lease_expires_at db =
     (case run_row_of db tenant run of
        None \<Rightarrow> Inr (False, db)
      | Some row \<Rightarrow>
          if rr_status row \<noteq> expected_status then Inr (False, db)
          else bindE (run_domain row) (\<lambda>current.
               bindE (transition_run current new_status occurred_at worker_id lease_expires_at) (\<lambda>transitioned.
               bindE (flush (put_run (apply_run row transitioned) db)) (\<lambda>db'. Inr (True, db')))))"

definition request_cancel :: "uuid \<Rightarrow> uuid \<Rightarrow> datetime \<Rightarrow> Run option transaction" where
  "request_cancel tenant run occurred_at db =
     (case run_row_of db tenant run of
        None \<Rightarrow> Inr (None, db)
      | Some row \<Rightarrow>
          bindE (run_domain row) (\<lambda>current.
          if run_status current \<in> {COMPLETED, FAILED, CANCELLED} then Inr (Some current, db)
          else bindE (if run_status current \<in> {QUEUED, WAITING_APPROVAL, RETRY_PENDING, LOST}
                      then transition_run current CANCELLED occurred_at None None
                      else run_model_copy current None (\<lambda>r. r\<lparr>run_cancellation_requested := True\<rparr>)) (\<lambda>r.
               bindE (flush (put_run (apply_run row r) db)) (\<lambda>db'. Inr (Some r, db')))))"

subsection \<open>Rewinding\<close>

definition MAX_TRANSCRIPT_SUFFIX_MESSAGES :: nat where
  "MAX_TRANSCRIPT_SUFFIX_MESSAGES = 4096"

definition rewind_message_invalid :: "string \<Rightarrow> py_error" where
  "rewind_message_invalid msg = domain_error ''rewind_message_invalid'' msg False []"

text \<open>The messages of a branch that belong to the first \<open>n\<close> positions of its transcript.\<close>

fun retain_messages :: "int \<Rightarrow> int list \<Rightarrow> MessageRecord list \<Rightarrow> MessageRecord list result" where
  "retain_messages n seen [] = Inr []"
| "retain_messages n seen (m # ms) =
     (case map_of (pm_metadata (mr_message m)) ''transcript_index'' of
        None \<Rightarrow> bindE (retain_messages n seen ms) (\<lambda>rest. Inr (m # rest))
      | Some FNull \<Rightarrow> bindE (retain_messages n seen ms) (\<lambda>rest. Inr (m # rest))
      | Some (FInt i) \<Rightarrow>
          if i < 1
          then Inl (rewind_message_invalid ''a durable rewind message has an invalid transcript position'')
          else if i \<le> n then
            if i \<in> set seen
            then Inl (rewind_message_invalid ''durable rewind transcript positions are not unique'')
            else bindE (retain_messages n (i # seen) ms) (\<lambda>rest. Inr (m # rest))
          else retain_messages n seen ms
      | Some _ \<Rightarrow>
          Inl (rewind_message_invalid ''a durable rewind message has an invalid transcript position''))"

definition seed_message ::
    "(uuid \<Rightarrow> string \<Rightarrow> uuid) \<Rightarrow> uuid \<Rightarrow> RunRecord \<Rightarrow> int \<Rightarrow> timestamp \<Rightarrow> int \<Rightarrow> MessageRecord \<Rightarrow> MessageRecord"
where
  "seed_message uuid5 tenant run execution_epoch now n m =
     \<lparr>mr_tenant_id = tenant,
      mr_message = (mr_message m)\<lparr>
        pm_id := uuid5 (rr_id run)
          (''rewind-epoch:'' @ int_str execution_epoch @ '':source-message:'' @ uuid_str (pm_id (mr_message m))),
        pm_session_id := run_session_id (rr_run run), pm_run_id := rr_id run,
        pm_execution_epoch := execution_epoch, pm_sequence := n, pm_created_at := now\<rparr>\<rparr>"

fun seed_messages ::
    "(uuid \<Rightarrow> string \<Rightarrow> uuid) \<Rightarrow> uuid \<Rightarrow> RunRecord \<Rightarrow> int \<Rightarrow> timestamp \<Rightarrow> int \<Rightarrow> MessageRecord list \<Rightarrow>
     MessageRecord list"
where
  "seed_messages uuid5 tenant run execution_epoch now n [] = []"
| "seed_messages uuid5 tenant run execution_epoch now n (m # ms) =
     seed_message uuid5 tenant run execution_epoch now n m
     # seed_messages uuid5 tenant run execution_epoch now (n + 1) ms"

definition branch_message :: "uuid \<Rightarrow> RunRecord \<Rightarrow> Checkpoint \<Rightarrow> MessageRecord \<Rightarrow> bool" where
  "branch_message tenant run c m \<longleftrightarrow>
     mr_tenant_id m = tenant \<and> pm_run_id (mr_message m) = rr_id run
   \<and> pm_execution_epoch (mr_message m) = cp_execution_epoch c
   \<and> pm_created_at (mr_message m) \<le> cp_created_at c"

definition seed_rewind_branch ::
    "(uuid \<Rightarrow> string \<Rightarrow> uuid) \<Rightarrow> timestamp \<Rightarrow> uuid \<Rightarrow> RunRecord \<Rightarrow> Checkpoint \<Rightarrow> int \<Rightarrow> database \<Rightarrow> database result"
where
  "seed_rewind_branch uuid5 now tenant run c execution_epoch db =
     (if \<not> (0 \<le> cp_message_sequence c \<and> cp_message_sequence c \<le> int MAX_TRANSCRIPT_SUFFIX_MESSAGES)
      then Inl (domain_error ''rewind_checkpoint_invalid''
             ''the checkpoint message sequence exceeds the rewind limit'' False [])
      else
        let rows = select_ordered (\<lambda>m. [pm_sequence (mr_message m)]) (MAX_TRANSCRIPT_SUFFIX_MESSAGES + 1)
                     (branch_message tenant run c) (db_messages db)
        in if length rows > MAX_TRANSCRIPT_SUFFIX_MESSAGES
           then Inl (domain_error ''rewind_context_limit''
                  ''the rewind branch seed exceeds the message limit'' False [])
           else bindE (retain_messages (cp_message_sequence c) [] rows) (\<lambda>retained.
             Inr (db\<lparr>
               db_messages := db_messages db
                 @ seed_messages uuid5 tenant run execution_epoch now
                     (next_message_sequence tenant (run_session_id (rr_run run)) db) retained,
               db_task_plans := db_task_plans db
                 @ [\<lparr>tp_tenant_id = tenant,
                     tp_plan = \<lparr>pp_id = uuid5 (cp_id c)
                                  (''rewind-epoch:'' @ int_str execution_epoch @ '':task-plan''),
                                pp_run_id = rr_id run, pp_execution_epoch = execution_epoch, pp_version = 1,
                                pp_plan = cp_task_plan c, pp_created_at = now\<rparr>\<rparr>]\<rparr>)))"

definition superseded_error :: "string \<Rightarrow> string \<Rightarrow> FrozenJsonObject" where
  "superseded_error code message =
     [(''code'', FStr code), (''message'', FStr message), (''retryable'', FBool False), (''details'', FObject [])]"

definition supersede_compaction :: "timestamp \<Rightarrow> ContextCompactionRecord \<Rightarrow> ContextCompactionRecord" where
  "supersede_compaction now c =
     c\<lparr>cc_compaction := (cc_compaction c)\<lparr>
         pc_status := COMPACTION_FAILED,
         pc_error := Some (superseded_error ''context_compaction_superseded''
                             ''the source conversation was rewound''),
         pc_completed_at := Some (max now (pc_requested_at (cc_compaction c)))\<rparr>\<rparr>"

definition supersede_memory_job :: "timestamp \<Rightarrow> MemoryExtractionJob \<Rightarrow> MemoryExtractionJob" where
  "supersede_memory_job now j =
     (let started = (case mj_started_at j of Some s \<Rightarrow> s | None \<Rightarrow> mj_created_at j)
      in j\<lparr>mj_status := MEM_FAILED, mj_started_at := Some started,
           mj_completed_at := Some (max now (max (mj_created_at j) started)),
           mj_worker_id := None, mj_lease_token := None, mj_lease_expires_at := None,
           mj_error := Some (superseded_error ''memory_extraction_superseded'' ''the source run was rewound'')\<rparr>)"

definition rewind ::
    "(uuid \<Rightarrow> string \<Rightarrow> uuid) \<Rightarrow> timestamp \<Rightarrow> uuid \<Rightarrow> uuid \<Rightarrow> uuid \<Rightarrow> Run option transaction"
where
  "rewind uuid5 now tenant run checkpoint_id db =
     (case run_row_of db tenant run of
        None \<Rightarrow> Inr (None, db)
      | Some row \<Rightarrow>
     (case select_one (\<lambda>c. cr_tenant_id c = tenant \<and> cp_run_id (cr_checkpoint c) = run
                        \<and> cp_id (cr_checkpoint c) = checkpoint_id) (db_checkpoints db) of
        None \<Rightarrow> Inr (None, db)
      | Some c \<Rightarrow>
     (case select_one (\<lambda>s. session_tenant_id s = tenant \<and> session_id s = run_session_id (rr_run row))
             (db_sessions db) of
        None \<Rightarrow> Inl (domain_error ''rewind_session_missing''
                   ''the run's durable session is unavailable'' True [])
      | Some session \<Rightarrow>
          bindE (run_domain row) (\<lambda>current.
          bindE (rewind_run current checkpoint_id) (\<lambda>rewound.
          bindE (seed_rewind_branch uuid5 now tenant row (cr_checkpoint c) (run_execution_epoch rewound) db) (\<lambda>db1.
          let session' = session\<lparr>session_context_generation := session_context_generation session + 1\<rparr>;
              row' = (apply_run row rewound)\<lparr>rr_retry_ready_at := None\<rparr>;
              db2 = (put_run row' db1)\<lparr>
                db_sessions := put_row session_id session' (db_sessions db1),
                db_compactions := update_where
                  (\<lambda>k. cc_tenant_id k = tenant
                     \<and> pc_session_id (cc_compaction k) = run_session_id (rr_run row)
                     \<and> pc_status (cc_compaction k) = COMPACTION_PENDING)
                  (supersede_compaction now) (db_compactions db1),
                db_memory_jobs := update_where
                  (\<lambda>j. mj_tenant_id j = tenant \<and> mj_run_id j = run
                     \<and> mj_execution_epoch j = run_execution_epoch (rr_run row)
                     \<and> mj_status j \<in> {MEM_PENDING, MEM_RUNNING})
                  (supersede_memory_job now) (db_memory_jobs db1)\<rparr>
          in bindE (flush db2) (\<lambda>db3. Inr (Some rewound, db3))))))))"

subsection \<open>Approval decisions\<close>

definition approval_domain :: "ApprovalRecord \<Rightarrow> PersistedApproval result" where
  "approval_domain record = approval_model_validate (ap_approval record)"

definition decision_status :: "ApprovalDecision \<Rightarrow> ApprovalStatus" where
  "decision_status decision = (if ad_approved decision then APPROVAL_APPROVED else APPROVAL_REJECTED)"

definition current_approval :: "database \<Rightarrow> uuid \<Rightarrow> uuid \<Rightarrow> uuid \<Rightarrow> ApprovalRecord option" where
  "current_approval db tenant run approval_id =
     select_one (\<lambda>a. ap_tenant_id a = tenant \<and> pa_run_id (ap_approval a) = run \<and> pa_id (ap_approval a) = approval_id
        \<and> list_ex (\<lambda>r. rr_tenant_id r = ap_tenant_id a \<and> rr_id r = pa_run_id (ap_approval a)
             \<and> pa_execution_epoch (ap_approval a) = run_execution_epoch (rr_run r)) (db_runs db))
       (db_approvals db)"

definition approval_tool_name :: "database \<Rightarrow> uuid \<Rightarrow> uuid \<Rightarrow> ApprovalRecord \<Rightarrow> string option" where
  "approval_tool_name db tenant run row =
     (case ap_tool_call_id row of
        None \<Rightarrow> None
      | Some i \<Rightarrow> map_option (\<lambda>t. tool_tool_name (tc_call t))
          (select_one (\<lambda>t. tool_call_key t = (tenant, run, pa_execution_epoch (ap_approval row), i))
             (db_tool_calls db)))"

definition decided_row :: "ApprovalDecision \<Rightarrow> ApprovalRecord \<Rightarrow> ApprovalRecord" where
  "decided_row decision row =
     row\<lparr>ap_approval := (ap_approval row)\<lparr>
       pa_status := decision_status decision, pa_decided_by := Some (ad_decided_by decision),
       pa_decided_at := Some (ad_decided_at decision), pa_response := ad_response decision\<rparr>\<rparr>"

definition put_approval :: "ApprovalRecord \<Rightarrow> database \<Rightarrow> database" where
  "put_approval row db = db\<lparr>db_approvals := put_row (\<lambda>a. pa_id (ap_approval a)) row (db_approvals db)\<rparr>"

definition pending_approvals :: "database \<Rightarrow> uuid \<Rightarrow> uuid \<Rightarrow> int \<Rightarrow> nat" where
  "pending_approvals db tenant run epoch =
     count_where (\<lambda>a. ap_tenant_id a = tenant \<and> pa_run_id (ap_approval a) = run
        \<and> pa_execution_epoch (ap_approval a) = epoch \<and> pa_status (ap_approval a) = APPROVAL_PENDING)
       (db_approvals db)"

definition resume_run :: "uuid \<Rightarrow> uuid \<Rightarrow> int \<Rightarrow> timestamp \<Rightarrow> database \<Rightarrow> database result" where
  "resume_run tenant run epoch decided_at db =
     (case run_row_of db tenant run of
        None \<Rightarrow> Inl (persistence_conflict ''approval run disappeared'')
      | Some run_row \<Rightarrow>
          if rr_status run_row = WAITING_APPROVAL \<and> pending_approvals db tenant run epoch = 0
          then bindE (run_domain run_row) (\<lambda>current.
               bindE (transition_run current QUEUED (utc decided_at) None None) (\<lambda>resumed.
               Inr (put_run (apply_run run_row resumed) db)))
          else Inr db)"

definition decide :: "uuid \<Rightarrow> uuid \<Rightarrow> uuid \<Rightarrow> ApprovalDecision \<Rightarrow> PersistedApproval option transaction" where
  "decide tenant run approval_id decision db =
     (case current_approval db tenant run approval_id of
        None \<Rightarrow> Inr (None, db)
      | Some row \<Rightarrow>
          if ad_approved decision \<and> approval_tool_name db tenant run row = Some ''ask_user''
             \<and> ad_response decision = None
          then Inl (domain_error ''interaction_response_required''
                 ''ask_user approval requires a non-empty response'' False [])
          else if pa_status (ap_approval row) \<noteq> APPROVAL_PENDING then
            if pa_status (ap_approval row) \<noteq> decision_status decision
               \<or> pa_decided_by (ap_approval row) \<noteq> Some (ad_decided_by decision)
               \<or> pa_response (ap_approval row) \<noteq> ad_response decision
            then Inl (domain_error ''approval_decision_conflict''
                   ''the approval already has a different durable decision'' False
                   [(''approval_id'', JStr (uuid_str approval_id))])
            else bindE (approval_domain row) (\<lambda>a. Inr (Some a, db))
          else
            bindE (flush (put_approval (decided_row decision row) db)) (\<lambda>db1.
            bindE (resume_run tenant run (pa_execution_epoch (ap_approval row)) (ad_decided_at decision) db1) (\<lambda>db2.
            bindE (approval_domain (decided_row decision row)) (\<lambda>a.
            bindE (flush db2) (\<lambda>db3. Inr (Some a, db3))))))"

end
