(* ===== verification/Repository_Invariant.thy ===== *)
theory Repository_Invariant
  imports Run_Repository
begin

section \<open>The repositories keep the queue invariant\<close>

text \<open>
  The API writes to the tables of the queue through the repositories. Each operation that
  commits leaves one of the states described by its \<open>_ok_cases\<close> lemma and keeps
  \<open>queue_inv\<close>: the constraints hold because every transaction flushes, the lease part because
  no operation here touches the leases, and runs change only in ways the mirrors allow.
\<close>

subsection \<open>What the invariant depends on\<close>

lemma lease_inv_same:
  assumes "db_runs db' = db_runs db" "db_run_leases db' = db_run_leases db"
    "db_workspace_leases db' = db_workspace_leases db" "db_workers db' = db_workers db"
    "session_model_route ` set (db_sessions db') \<subseteq> session_model_route ` set (db_sessions db)"
    "lease_inv db"
  shows "lease_inv db'"
  using assms by (auto simp: lease_inv_def names_ok_def)

lemma put_run_execution_tables [simp]:
  "db_messages (put_run r db) = db_messages db" "db_task_plans (put_run r db) = db_task_plans db"
  "db_tool_calls (put_run r db) = db_tool_calls db" "db_approvals (put_run r db) = db_approvals db"
  "db_checkpoints (put_run r db) = db_checkpoints db" "db_model_calls (put_run r db) = db_model_calls db"
  "db_compactions (put_run r db) = db_compactions db" "db_admission (put_run r db) = db_admission db"
  by (simp_all add: put_run_def)

lemma run_row_of_Some:
  assumes "run_row_of db tenant i = Some row"
  shows "row \<in> set (db_runs db)" "rr_tenant_id row = tenant" "rr_id row = i"
  using select_one_Some [OF assms [unfolded run_row_of_def]] by simp_all

lemma run_row_of_iff:
  assumes "queue_inv db"
  shows "run_row_of db tenant i = Some row \<longleftrightarrow>
    row \<in> set (db_runs db) \<and> rr_tenant_id row = tenant \<and> rr_id row = i"
proof
  assume "row \<in> set (db_runs db) \<and> rr_tenant_id row = tenant \<and> rr_id row = i"
  moreover then obtain row' where row': "run_row_of db tenant i = Some row'"
    by (cases "run_row_of db tenant i") (auto simp: run_row_of_def select_one_None)
  ultimately show "run_row_of db tenant i = Some row"
    using run_row_of_Some [OF row'] distinct_eq [OF queue_invD(7) [OF assms], of row row'] by simp
qed (use run_row_of_Some in blast)

lemma queue_inv_run_valid: "queue_inv db \<Longrightarrow> row \<in> set (db_runs db) \<Longrightarrow> run_valid (rr_run row)"
  using lease_invD(1) [OF queue_invD(2)] by (simp add: runs_valid_def)

lemma queue_inv_row_ok: "queue_inv db \<Longrightarrow> row \<in> set (db_runs db) \<Longrightarrow> run_row_ok row"
  using queue_invD(3) by (auto simp: rows_ok_def list_all_iff)

lemma queue_inv_active_lease:
  assumes "queue_inv db" "row \<in> set (db_runs db)" "rr_status row \<in> {LEASED, RUNNING}"
  obtains l where "l \<in> set (db_run_leases db)" "mirrors row l"
proof -
  have "active_runs_leased (db_runs db) (db_run_leases db)" using lease_invD(3) [OF queue_invD(2) [OF assms(1)]] .
  then obtain l where "l \<in> set (db_run_leases db)" "le_run_id l = rr_id row"
    using assms(2,3) by (auto simp: active_runs_leased_def)
  then show ?thesis using mirror_unique [OF assms(1,2)] that by metis
qed

lemma transition_iff:
  assumes v: "run_valid run" and s: "s \<noteq> LEASED"
  shows "transition_run run s d w x = Inr r \<longleftrightarrow>
    s \<in> RUN_STATUS_TRANSITIONS (run_status run)
    \<and> (\<exists>t. normalize_timestamp d = Inr t \<and> comparison_start run \<le> t \<and> r = transition_spec run s t [] 0)"
    (is "?lhs \<longleftrightarrow> ?rhs")
proof
  assume ok: ?lhs
  note acc = transition_run_ok_accepted [OF ok]
  obtain t worker expiry where "normalize_timestamp d = Inr t" "comparison_start run \<le> t"
    "transition_run run s d w x = Inr (transition_spec run s t worker expiry)"
    using transition_run_accepted [OF v acc] by blast
  moreover have "s \<in> RUN_STATUS_TRANSITIONS (run_status run)"
    using acc by (simp add: transition_accepted_def allowed_run_transitions_def)
  ultimately show ?rhs using ok transition_spec_irrelevant [OF s] by fastforce
next
  assume rhs: ?rhs
  then have "transition_accepted run s d w x"
    using s by (auto simp: transition_accepted_def allowed_run_transitions_def)
  from transition_run_accepted [OF v this] rhs show ?lhs
    using transition_spec_irrelevant [OF s] by fastforce
qed

subsection \<open>Cancellation\<close>

lemma run_valid_cancel [simp]:
  "run_valid (r\<lparr>run_cancellation_requested := b\<rparr>) = run_valid r"
  by (simp add: run_valid_def run_fields_ok_def run_lifecycle_ok_def comparison_start_def
      cong: option.case_cong)

lemma run_model_copy_cancel:
  "run_valid r \<Longrightarrow> run_model_copy r None (\<lambda>r. r\<lparr>run_cancellation_requested := True\<rparr>) =
     Inr (r\<lparr>run_cancellation_requested := True\<rparr>)"
  by (simp add: run_model_copy_def run_model_validate_complete)

lemma apply_run_cancel [simp]:
  "apply_run row ((rr_run row)\<lparr>run_cancellation_requested := b\<rparr>) =
     row\<lparr>rr_run := (rr_run row)\<lparr>run_cancellation_requested := b\<rparr>\<rparr>"
  by (rule apply_run_same) simp_all

definition cancelled_row :: "timestamp \<Rightarrow> RunRecord \<Rightarrow> RunRecord" where
  "cancelled_row t row =
     (if rr_status row \<in> {LEASED, RUNNING} then row\<lparr>rr_run := (rr_run row)\<lparr>run_cancellation_requested := True\<rparr>\<rparr>
      else row\<lparr>rr_run := transition_spec (rr_run row) CANCELLED t [] 0\<rparr>)"

lemma request_cancel_eq:
  assumes inv: "queue_inv db" and row: "run_row_of db tenant i = Some row"
    and live: "rr_status row \<notin> terminal_run_statuses"
    and t: "rr_status row \<notin> {LEASED, RUNNING} \<Longrightarrow> normalize_timestamp d = Inr t \<and> comparison_start (rr_run row) \<le> t"
  shows "request_cancel tenant i d db =
    bindE (flush (put_run (cancelled_row t row) db)) (\<lambda>db'. Inr (Some (rr_run (cancelled_row t row)), db'))"
proof -
  have v: "run_valid (rr_run row)" using queue_inv_run_valid [OF inv run_row_of_Some(1) [OF row]] .
  show ?thesis
  proof (cases "rr_status row \<in> {LEASED, RUNNING}")
    case True
    then show ?thesis
      using run_model_copy_cancel [OF v]
      by (auto simp: request_cancel_def row run_domain_ok [OF v] cancelled_row_def)
  next
    case False
    then have s: "rr_status row \<in> {QUEUED, WAITING_APPROVAL, RETRY_PENDING, LOST}"
      using live by (cases "rr_status row") (simp_all add: terminal_run_statuses_def)
    then have "transition_run (rr_run row) CANCELLED d None None = Inr (transition_spec (rr_run row) CANCELLED t [] 0)"
      using t [OF False] by (auto simp: transition_iff [OF v])
    then show ?thesis
      using s by (auto simp: request_cancel_def row run_domain_ok [OF v] cancelled_row_def)
  qed
qed

lemma request_cancel_ok_cases:
  assumes inv: "queue_inv db" and ok: "request_cancel tenant i d db = Inr (res, db')"
  shows "(run_row_of db tenant i = None \<and> res = None \<and> db' = db)
    \<or> (\<exists>row. run_row_of db tenant i = Some row \<and> rr_status row \<in> terminal_run_statuses
         \<and> res = Some (rr_run row) \<and> db' = db)
    \<or> (\<exists>row t. run_row_of db tenant i = Some row \<and> rr_status row \<notin> terminal_run_statuses
         \<and> (rr_status row \<notin> {LEASED, RUNNING} \<longrightarrow>
              normalize_timestamp d = Inr t \<and> comparison_start (rr_run row) \<le> t)
         \<and> res = Some (rr_run (cancelled_row t row)) \<and> db' = put_run (cancelled_row t row) db
         \<and> constraints_ok db')"
proof (cases "run_row_of db tenant i")
  case None
  with ok show ?thesis by (simp add: request_cancel_def)
next
  case (Some row)
  have v: "run_valid (rr_run row)" using queue_inv_run_valid [OF inv run_row_of_Some(1) [OF Some]] .
  show ?thesis
  proof (cases "rr_status row \<in> terminal_run_statuses")
    case True
    with ok Some show ?thesis
      by (auto simp: request_cancel_def run_domain_ok [OF v] terminal_run_statuses_def)
  next
    case False
    obtain t where t: "rr_status row \<notin> {LEASED, RUNNING} \<longrightarrow>
        normalize_timestamp d = Inr t \<and> comparison_start (rr_run row) \<le> t"
    proof (cases "rr_status row \<in> {LEASED, RUNNING}")
      case True
      then show ?thesis using that by blast
    next
      case inactive: False
      with False have "rr_status row \<in> {QUEUED, WAITING_APPROVAL, RETRY_PENDING, LOST}"
        by (cases "rr_status row") (simp_all add: terminal_run_statuses_def)
      then show ?thesis
        using ok Some that
        by (auto simp: request_cancel_def run_domain_ok [OF v] bindE_eq_Inr transition_iff [OF v])
    qed
    have "bindE (flush (put_run (cancelled_row t row) db)) (\<lambda>db'. Inr (Some (rr_run (cancelled_row t row)), db'))
        = Inr (res, db')"
      using request_cancel_eq [OF inv Some False, of d t] t ok by simp
    then have "res = Some (rr_run (cancelled_row t row))" "db' = put_run (cancelled_row t row) db" "constraints_ok db'"
      by (auto simp: bindE_eq_Inr)
    with False Some t show ?thesis by blast
  qed
qed

lemma cancelled_row_simps [simp]:
  "rr_id (cancelled_row t row) = rr_id row" "rr_tenant_id (cancelled_row t row) = rr_tenant_id row"
  "rr_lease_generation (cancelled_row t row) = rr_lease_generation row"
  "run_cancellation_requested (rr_run (cancelled_row t row))"
  by (simp_all add: cancelled_row_def)

lemma request_cancel_inv:
  assumes inv: "queue_inv db" and ok: "request_cancel tenant i d db = Inr (res, db')"
  shows "queue_inv db'"
  using request_cancel_ok_cases [OF inv ok]
proof (elim disjE exE conjE)
  fix row t
  assume row: "run_row_of db tenant i = Some row" and live: "rr_status row \<notin> terminal_run_statuses"
    and t: "rr_status row \<notin> {LEASED, RUNNING} \<longrightarrow>
      normalize_timestamp d = Inr t \<and> comparison_start (rr_run row) \<le> t"
    and db': "db' = put_run (cancelled_row t row) db" and c: "constraints_ok db'"
  note mem = run_row_of_Some [OF row]
  have v: "run_valid (rr_run row)" using queue_inv_run_valid [OF inv mem(1)] .
  have "lease_inv (put_run (cancelled_row t row) db)"
  proof (cases "rr_status row \<in> {LEASED, RUNNING}")
    case True
    obtain l where l: "l \<in> set (db_run_leases db)" "mirrors row l"
      using queue_inv_active_lease [OF inv mem(1) True] .
    have id: "rr_id row = le_run_id l" using l(2) by (simp add: mirrors_def)
    have v': "run_valid (rr_run (cancelled_row t row))" "mirrors (cancelled_row t row) l"
      using True v l(2) by (auto simp: cancelled_row_def mirrors_def)
    show ?thesis by (rule lease_inv_put_run [OF inv l(1) mem(1) id cancelled_row_simps(1) v'])
  next
    case False
    then have "run_valid (rr_run (cancelled_row t row))"
      using transition_spec_valid [OF v cancellable [OF live]] t by (simp add: cancelled_row_def)
    then show ?thesis
      using False by (intro lease_inv_put_inactive [OF inv mem(1)]) (simp_all add: cancelled_row_def)
  qed
  with c db' show ?thesis by (simp add: queue_inv_def)
qed (use inv in simp_all)

subsection \<open>Compare-and-set transitions\<close>

lemma repository_transition_ok_cases:
  assumes inv: "queue_inv db" and s: "new_status \<noteq> LEASED"
    and ok: "repository_transition tenant i expected_status new_status d w x db = Inr (res, db')"
  shows "(\<not> res \<and> db' = db)
    \<or> (\<exists>row t. res \<and> run_row_of db tenant i = Some row \<and> rr_status row = expected_status
         \<and> new_status \<in> RUN_STATUS_TRANSITIONS expected_status
         \<and> normalize_timestamp d = Inr t \<and> comparison_start (rr_run row) \<le> t
         \<and> db' = put_run (row\<lparr>rr_run := transition_spec (rr_run row) new_status t [] 0\<rparr>) db
         \<and> constraints_ok db')"
proof (cases "run_row_of db tenant i")
  case None
  with ok show ?thesis by (simp add: repository_transition_def)
next
  case (Some row)
  have v: "run_valid (rr_run row)" using queue_inv_run_valid [OF inv run_row_of_Some(1) [OF Some]] .
  from ok Some show ?thesis
    by (auto simp: repository_transition_def run_domain_ok [OF v] bindE_eq_Inr transition_iff [OF v s]
        split: if_splits)
qed

lemma repository_transition_inv:
  assumes inv: "queue_inv db" and s: "expected_status \<notin> {LEASED, RUNNING}" "new_status \<notin> {LEASED, RUNNING}"
    and ok: "repository_transition tenant i expected_status new_status d w x db = Inr (res, db')"
  shows "queue_inv db'"
proof -
  have "new_status \<noteq> LEASED" using s by simp
  from repository_transition_ok_cases [OF inv this ok] show ?thesis
  proof (elim disjE exE conjE)
    fix row t
    assume row: "run_row_of db tenant i = Some row" "rr_status row = expected_status"
      and t: "new_status \<in> RUN_STATUS_TRANSITIONS expected_status" "comparison_start (rr_run row) \<le> t"
      and db': "db' = put_run (row\<lparr>rr_run := transition_spec (rr_run row) new_status t [] 0\<rparr>) db"
        "constraints_ok db'"
    note mem = run_row_of_Some [OF row(1)]
    have "run_valid (transition_spec (rr_run row) new_status t [] 0)"
      using s t row(2) by (intro transition_spec_valid [OF queue_inv_run_valid [OF inv mem(1)]]) simp_all
    then have "lease_inv db'"
      unfolding db'(1) using s row(2) by (intro lease_inv_put_inactive [OF inv mem(1)]) simp_all
    with db'(2) show ?thesis by (simp add: queue_inv_def)
  qed (use inv in simp)
qed

subsection \<open>Approvals\<close>

lemma approval_model_validate_same: "approval_model_validate a = Inr b \<Longrightarrow> b = a"
  by (auto simp: approval_model_validate_def bindE_eq_Inr)

lemma current_approval_Some:
  assumes "current_approval db tenant run a = Some row"
  shows "row \<in> set (db_approvals db)" "ap_tenant_id row = tenant" "pa_run_id (ap_approval row) = run"
    "pa_id (ap_approval row) = a"
    "\<exists>r \<in> set (db_runs db). rr_tenant_id r = tenant \<and> rr_id r = run
       \<and> pa_execution_epoch (ap_approval row) = run_execution_epoch (rr_run r)"
  using select_one_Some [OF assms [unfolded current_approval_def]] by (auto simp: list_ex_iff)

definition resumed_db :: "uuid \<Rightarrow> uuid \<Rightarrow> int \<Rightarrow> timestamp \<Rightarrow> RunRecord \<Rightarrow> database \<Rightarrow> database" where
  "resumed_db tenant run epoch t row db =
     (if rr_status row = WAITING_APPROVAL \<and> pending_approvals db tenant run epoch = 0
      then put_run (row\<lparr>rr_run := transition_spec (rr_run row) QUEUED t [] 0\<rparr>) db else db)"

lemma put_approval_tables [simp]:
  "db_runs (put_approval a db) = db_runs db" "db_run_leases (put_approval a db) = db_run_leases db"
  "db_workers (put_approval a db) = db_workers db" "db_sessions (put_approval a db) = db_sessions db"
  "db_workspace_leases (put_approval a db) = db_workspace_leases db"
  "run_row_of (put_approval a db) = run_row_of db"
  by (simp_all add: put_approval_def run_row_of_def fun_eq_iff)

lemma decide_ok_cases:
  assumes inv: "queue_inv db" and ok: "decide tenant run a decision db = Inr (res, db')"
  shows "(current_approval db tenant run a = None \<and> res = None \<and> db' = db)
    \<or> (\<exists>row. current_approval db tenant run a = Some row \<and> pa_status (ap_approval row) = decision_status decision
         \<and> pa_decided_by (ap_approval row) = Some (ad_decided_by decision)
         \<and> pa_response (ap_approval row) = ad_response decision \<and> res = Some (ap_approval row) \<and> db' = db)
    \<or> (\<exists>row r. current_approval db tenant run a = Some row \<and> pa_status (ap_approval row) = APPROVAL_PENDING
         \<and> run_row_of db tenant run = Some r
         \<and> pa_execution_epoch (ap_approval row) = run_execution_epoch (rr_run r)
         \<and> res = Some (ap_approval (decided_row decision row))
         \<and> (rr_status r = WAITING_APPROVAL
              \<and> pending_approvals (put_approval (decided_row decision row) db) tenant run
                  (pa_execution_epoch (ap_approval row)) = 0
            \<longrightarrow> comparison_start (rr_run r) \<le> ad_decided_at decision)
         \<and> db' = resumed_db tenant run (pa_execution_epoch (ap_approval row)) (ad_decided_at decision) r
             (put_approval (decided_row decision row) db)
         \<and> constraints_ok db')"
proof (cases "current_approval db tenant run a")
  case None
  with ok show ?thesis by (simp add: decide_def)
next
  case (Some row)
  let ?db1 = "put_approval (decided_row decision row) db"
  let ?epoch = "pa_execution_epoch (ap_approval row)"
  obtain r where r: "run_row_of db tenant run = Some r" "?epoch = run_execution_epoch (rr_run r)"
    using current_approval_Some(5) [OF Some] run_row_of_iff [OF inv] by blast
  have v: "run_valid (rr_run r)" using queue_inv_run_valid [OF inv run_row_of_Some(1) [OF r(1)]] .
  show ?thesis
  proof (cases "pa_status (ap_approval row) = APPROVAL_PENDING")
    case False
    with ok Some show ?thesis
      by (auto simp: decide_def bindE_eq_Inr approval_domain_def dest: approval_model_validate_same split: if_splits)
  next
    case True
    with ok Some obtain db2 x where
      resume: "resume_run tenant run ?epoch (ad_decided_at decision) ?db1 = Inr db2"
      and x: "approval_domain (decided_row decision row) = Inr x" "res = Some x" "db' = db2" "constraints_ok db2"
      by (auto simp: decide_def bindE_eq_Inr split: if_splits)
    have "res = Some (ap_approval (decided_row decision row))"
      using x by (auto simp: approval_domain_def dest: approval_model_validate_same)
    moreover have "(rr_status r = WAITING_APPROVAL \<and> pending_approvals ?db1 tenant run ?epoch = 0
          \<longrightarrow> comparison_start (rr_run r) \<le> ad_decided_at decision)
        \<and> db2 = resumed_db tenant run ?epoch (ad_decided_at decision) r ?db1"
      using resume r(1)
      by (auto simp: resume_run_def resumed_db_def run_domain_ok [OF v] bindE_eq_Inr transition_utc_iff [OF v]
          split: if_splits)
    ultimately show ?thesis using Some True r x(3,4) by blast
  qed
qed

lemma decide_inv:
  assumes inv: "queue_inv db" and ok: "decide tenant run a decision db = Inr (res, db')"
  shows "queue_inv db'"
  using decide_ok_cases [OF inv ok]
proof (elim disjE exE conjE)
  fix row r
  let ?db1 = "put_approval (decided_row decision row) db"
  assume r: "run_row_of db tenant run = Some r"
    and t: "rr_status r = WAITING_APPROVAL
        \<and> pending_approvals ?db1 tenant run (pa_execution_epoch (ap_approval row)) = 0
      \<longrightarrow> comparison_start (rr_run r) \<le> ad_decided_at decision"
    and db': "db' = resumed_db tenant run (pa_execution_epoch (ap_approval row)) (ad_decided_at decision) r ?db1"
      "constraints_ok db'"
  note mem = run_row_of_Some [OF r]
  let ?r' = "r\<lparr>rr_run := transition_spec (rr_run r) QUEUED (ad_decided_at decision) [] 0\<rparr>"
  have "lease_inv db'"
  proof (cases "rr_status r = WAITING_APPROVAL
      \<and> pending_approvals ?db1 tenant run (pa_execution_epoch (ap_approval row)) = 0")
    case True
    have "run_valid (rr_run ?r')"
      using transition_spec_valid [OF queue_inv_run_valid [OF inv mem(1)], of QUEUED] True t by simp
    then have "lease_inv (put_run ?r' db)"
      using True by (intro lease_inv_put_inactive [OF inv mem(1)]) simp_all
    moreover have "db' = put_run ?r' ?db1" using True db'(1) by (simp add: resumed_db_def)
    ultimately show ?thesis using lease_inv_same [of db' "put_run ?r' db"] by simp
  next
    case False
    then have "db' = ?db1" using db'(1) unfolding resumed_db_def by (simp only: if_False)
    then show ?thesis using queue_invD(2) [OF inv] lease_inv_same [of db' db] by simp
  qed
  with db'(2) show ?thesis by (simp add: queue_inv_def)
qed (use inv in simp_all)

subsection \<open>Sessions and quotas\<close>

lemma create_session_inv:
  assumes inv: "queue_inv db" and v: "session_model_validate session = Inr session"
    and ok: "create_session session db = Inr (res, db')"
  shows "queue_inv db'"
proof -
  have db': "db' = db\<lparr>db_sessions := db_sessions db @ [session]\<rparr>" "constraints_ok db'"
    using ok by (auto simp: create_session_def bindE_eq_Inr)
  have "IdentifierString ''model_route'' (session_model_route session) = Inr (session_model_route session)"
    using v by (cases session) (auto simp: session_model_validate_def bindE_eq_Inr Let_def)
  then have "IdentifierString ''route_name'' (session_model_route session) = Inr (session_model_route session)"
    by (auto simp: IdentifierString_def constrained_string_def Let_def split: if_splits)
  with lease_invD [OF queue_invD(2) [OF inv]] have "lease_inv db'"
    by (auto simp: db'(1) lease_inv_def names_ok_def)
  with db'(2) show ?thesis by (simp add: queue_inv_def)
qed

lemma ensure_tenant_quota_db:
  assumes "ensure_tenant_quota tenant d t db = Inr (q, db1)"
  shows "\<exists>quotas. db1 = db\<lparr>db_quotas := quotas\<rparr>"
  using ensure_tenant_quota_ok [of tenant d t db] assms by auto

lemma get_quota_inv:
  assumes inv: "queue_inv db" and d: "quota_ok d" and ok: "get_quota d clock tenant db = Inr (res, db')"
  shows "queue_inv db'"
  using ok queue_inv_ensure_quota [OF inv d] by (auto simp: get_quota_def bindE_eq_Inr)

lemma set_quota_inv:
  assumes inv: "queue_inv db" and d: "quota_ok d" and ok: "set_quota d tenant quota when db = Inr (res, db')"
  shows "queue_inv db'"
proof -
  obtain t q db1 quotas where e: "ensure_tenant_quota tenant d t db = Inr (q, db1)"
    and db': "db' = db1\<lparr>db_quotas := quotas\<rparr>" "constraints_ok db'"
    using ok by (auto simp: set_quota_def bindE_eq_Inr Let_def split: if_splits)
  show ?thesis using queue_inv_quotas [OF queue_inv_ensure_quota [OF inv d e]] db' by simp
qed

subsection \<open>Rewinding\<close>

definition rewound_run :: "uuid \<Rightarrow> Run \<Rightarrow> Run" where
  "rewound_run c run =
     run\<lparr>run_status := QUEUED, run_attempt := run_attempt run + 1,
         run_execution_epoch := run_execution_epoch run + 1,
         run_assigned_worker_id := None, run_lease_expires_at := None,
         run_last_checkpoint_id := Some c, run_cancellation_requested := False, run_completed_at := None\<rparr>"

definition rewound_row :: "uuid \<Rightarrow> RunRecord \<Rightarrow> RunRecord" where
  "rewound_row c row = row\<lparr>rr_run := rewound_run c (rr_run row), rr_retry_ready_at := None\<rparr>"

lemma rewind_run_iff:
  assumes "run_valid run"
  shows "rewind_run run c = Inr r \<longleftrightarrow> run_status run \<in> rewindable_run_statuses \<and> r = rewound_run c run"
  using rewind_run_valid [OF assms, of c] by (auto simp: rewind_run_def rewound_run_def)

lemma rewound_run_valid:
  assumes v: "run_valid run" and s: "run_status run \<in> rewindable_run_statuses"
  shows "run_valid (rewound_run c run)"
proof -
  have "rewind_run run c = Inr (rewound_run c run)" using rewind_run_iff [OF v] s by blast
  with s show ?thesis using run_model_validate_sound by (auto simp: rewind_run_def)
qed

lemma rewound_row_simps [simp]:
  "rr_id (rewound_row c row) = rr_id row" "rr_tenant_id (rewound_row c row) = rr_tenant_id row"
  "rr_status (rewound_row c row) = QUEUED" "rr_lease_generation (rewound_row c row) = rr_lease_generation row"
  "run_execution_epoch (rr_run (rewound_row c row)) = run_execution_epoch (rr_run row) + 1"
  by (simp_all add: rewound_row_def rewound_run_def)

lemma apply_run_rewound [simp]:
  "(apply_run row (rewound_run c (rr_run row)))\<lparr>rr_retry_ready_at := None\<rparr> = rewound_row c row"
proof -
  have "apply_run row (rewound_run c (rr_run row)) = row\<lparr>rr_run := rewound_run c (rr_run row)\<rparr>"
    by (rule apply_run_same) (simp_all add: rewound_run_def)
  then show ?thesis by (simp add: rewound_row_def)
qed

definition seeded_plan :: "(uuid \<Rightarrow> string \<Rightarrow> uuid) \<Rightarrow> timestamp \<Rightarrow> uuid \<Rightarrow> RunRecord \<Rightarrow> Checkpoint \<Rightarrow> int \<Rightarrow> TaskPlanRecord" where
  "seeded_plan uuid5 now tenant row c epoch =
     \<lparr>tp_tenant_id = tenant,
      tp_plan = \<lparr>pp_id = uuid5 (cp_id c) (''rewind-epoch:'' @ int_str epoch @ '':task-plan''),
                 pp_run_id = rr_id row, pp_execution_epoch = epoch, pp_version = 1,
                 pp_plan = cp_task_plan c, pp_created_at = now\<rparr>\<rparr>"

text \<open>All messages of the branch of a checkpoint, in the order of the session.\<close>

definition branch_rows :: "uuid \<Rightarrow> RunRecord \<Rightarrow> Checkpoint \<Rightarrow> database \<Rightarrow> MessageRecord list" where
  "branch_rows tenant row c db =
     sort_key (\<lambda>m. [pm_sequence (mr_message m)]) (filter (branch_message tenant row c) (db_messages db))"

lemma select_ordered_short:
  "length (select_ordered key (n + 1) p t) \<le> n \<Longrightarrow>
     select_ordered key (n + 1) p t = sort_key key (filter p t) \<and> length (sort_key key (filter p t)) \<le> n"
  by (auto simp: select_ordered_def)

lemma seed_rewind_branch_ok:
  assumes "seed_rewind_branch uuid5 now tenant row c epoch db = Inr db1"
  shows "\<exists>retained. retain_messages (cp_message_sequence c) [] (branch_rows tenant row c db) = Inr retained
    \<and> length (branch_rows tenant row c db) \<le> MAX_TRANSCRIPT_SUFFIX_MESSAGES
    \<and> db1 = db\<lparr>
        db_messages := db_messages db
          @ seed_messages uuid5 tenant row epoch now
              (next_message_sequence tenant (run_session_id (rr_run row)) db) retained,
        db_task_plans := db_task_plans db @ [seeded_plan uuid5 now tenant row c epoch]\<rparr>"
proof -
  let ?rows = "select_ordered (\<lambda>m. [pm_sequence (mr_message m)]) (MAX_TRANSCRIPT_SUFFIX_MESSAGES + 1)
      (branch_message tenant row c) (db_messages db)"
  have len: "length ?rows \<le> MAX_TRANSCRIPT_SUFFIX_MESSAGES"
    using assms by (auto simp: seed_rewind_branch_def Let_def split: if_splits)
  have rows: "?rows = branch_rows tenant row c db"
    using select_ordered_short [OF len] by (simp only: branch_rows_def)
  obtain retained where "retain_messages (cp_message_sequence c) [] ?rows = Inr retained"
    "db1 = db\<lparr>
        db_messages := db_messages db
          @ seed_messages uuid5 tenant row epoch now
              (next_message_sequence tenant (run_session_id (rr_run row)) db) retained,
        db_task_plans := db_task_plans db @ [seeded_plan uuid5 now tenant row c epoch]\<rparr>"
    using assms by (auto simp: seed_rewind_branch_def bindE_eq_Inr Let_def seeded_plan_def split: if_splits)
  then show ?thesis using len unfolding rows by blast
qed

lemma rewind_ok_cases:
  assumes inv: "queue_inv db" and ok: "rewind uuid5 now tenant i c db = Inr (res, db')"
  shows "(res = None \<and> db' = db)
    \<or> (\<exists>row cr s retained. run_row_of db tenant i = Some row \<and> rr_status row \<in> rewindable_run_statuses
         \<and> cr \<in> set (db_checkpoints db) \<and> cp_id (cr_checkpoint cr) = c \<and> cp_run_id (cr_checkpoint cr) = i
         \<and> s \<in> set (db_sessions db)
         \<and> retain_messages (cp_message_sequence (cr_checkpoint cr)) []
             (branch_rows tenant row (cr_checkpoint cr) db) = Inr retained
         \<and> length (branch_rows tenant row (cr_checkpoint cr) db) \<le> MAX_TRANSCRIPT_SUFFIX_MESSAGES
         \<and> res = Some (rewound_run c (rr_run row))
         \<and> db_runs db' = put_row rr_id (rewound_row c row) (db_runs db)
         \<and> db_messages db' = db_messages db
             @ seed_messages uuid5 tenant row (run_execution_epoch (rr_run row) + 1) now
                 (next_message_sequence tenant (run_session_id (rr_run row)) db) retained
         \<and> db_task_plans db' = db_task_plans db
             @ [seeded_plan uuid5 now tenant row (cr_checkpoint cr) (run_execution_epoch (rr_run row) + 1)]
         \<and> db_sessions db' = put_row session_id
             (s\<lparr>session_context_generation := session_context_generation s + 1\<rparr>) (db_sessions db)
         \<and> db_run_leases db' = db_run_leases db \<and> db_workers db' = db_workers db
         \<and> db_workspace_leases db' = db_workspace_leases db \<and> db_approvals db' = db_approvals db
         \<and> db_tool_calls db' = db_tool_calls db \<and> constraints_ok db')"
proof (cases "run_row_of db tenant i")
  case None
  with ok show ?thesis by (simp add: rewind_def)
next
  case row: (Some row)
  have v: "run_valid (rr_run row)" using queue_inv_run_valid [OF inv run_row_of_Some(1) [OF row]] .
  show ?thesis
  proof (cases "select_one (\<lambda>c'. cr_tenant_id c' = tenant \<and> cp_run_id (cr_checkpoint c') = i
      \<and> cp_id (cr_checkpoint c') = c) (db_checkpoints db)")
    case None
    with ok row show ?thesis by (simp add: rewind_def)
  next
    case cr: (Some cr)
    from ok row cr obtain s db1 where
      s: "select_one (\<lambda>s. session_tenant_id s = tenant \<and> session_id s = run_session_id (rr_run row))
             (db_sessions db) = Some s"
      and st: "rr_status row \<in> rewindable_run_statuses"
      and seed: "seed_rewind_branch uuid5 now tenant row (cr_checkpoint cr) (run_execution_epoch (rr_run row) + 1) db
             = Inr db1"
      and res: "res = Some (rewound_run c (rr_run row))"
      and tables: "db_runs db' = put_row rr_id (rewound_row c row) (db_runs db1)"
        "db_sessions db' = put_row session_id
             (s\<lparr>session_context_generation := session_context_generation s + 1\<rparr>) (db_sessions db1)"
        "db_messages db' = db_messages db1" "db_task_plans db' = db_task_plans db1"
        "db_run_leases db' = db_run_leases db1" "db_workers db' = db_workers db1"
        "db_workspace_leases db' = db_workspace_leases db1" "db_approvals db' = db_approvals db1"
        "db_tool_calls db' = db_tool_calls db1" and c: "constraints_ok db'"
      by (auto simp: rewind_def run_domain_ok [OF v] bindE_eq_Inr rewind_run_iff [OF v] Let_def
          rewound_run_def [of c "rr_run row", THEN arg_cong [of _ _ run_execution_epoch]]
          split: option.splits)
    obtain retained where
      "retain_messages (cp_message_sequence (cr_checkpoint cr)) []
        (branch_rows tenant row (cr_checkpoint cr) db) = Inr retained"
      "length (branch_rows tenant row (cr_checkpoint cr) db) \<le> MAX_TRANSCRIPT_SUFFIX_MESSAGES"
      and db1: "db1 = db\<lparr>
        db_messages := db_messages db
          @ seed_messages uuid5 tenant row (run_execution_epoch (rr_run row) + 1) now
              (next_message_sequence tenant (run_session_id (rr_run row)) db) retained,
        db_task_plans := db_task_plans db @ [seeded_plan uuid5 now tenant row (cr_checkpoint cr) (run_execution_epoch (rr_run row) + 1)]\<rparr>"
      using seed_rewind_branch_ok [OF seed] by blast
    with row st select_one_Some [OF cr] select_one_Some [OF s] res tables c show ?thesis
      unfolding db1 by (intro disjI2 exI [of _ row] exI [of _ cr] exI [of _ s] exI [of _ retained]) simp
  qed
qed

lemma rewind_inv:
  assumes inv: "queue_inv db" and ok: "rewind uuid5 now tenant i c db = Inr (res, db')"
  shows "queue_inv db'"
  using rewind_ok_cases [OF inv ok]
proof (elim disjE exE conjE)
  fix row cr s retained
  assume row: "run_row_of db tenant i = Some row" "rr_status row \<in> rewindable_run_statuses"
    and s: "s \<in> set (db_sessions db)"
    and tables: "db_runs db' = put_row rr_id (rewound_row c row) (db_runs db)"
      "db_sessions db' = put_row session_id
         (s\<lparr>session_context_generation := session_context_generation s + 1\<rparr>) (db_sessions db)"
      "db_run_leases db' = db_run_leases db" "db_workers db' = db_workers db"
      "db_workspace_leases db' = db_workspace_leases db"
    and c: "constraints_ok db'"
  note mem = run_row_of_Some [OF row(1)]
  have "run_valid (rr_run (rewound_row c row))"
    using rewound_run_valid [OF queue_inv_run_valid [OF inv mem(1)] row(2)] by (simp add: rewound_row_def)
  then have "lease_inv (put_run (rewound_row c row) db)"
    using row(2) by (intro lease_inv_put_inactive [OF inv mem(1)]) (auto simp: rewindable_run_statuses_def)
  moreover have "session_model_route ` set (db_sessions db') \<subseteq> session_model_route ` set (db_sessions db)"
    using s unfolding tables(2) by (force dest: put_row_mem)
  ultimately have "lease_inv db'"
    using tables by (intro lease_inv_same [of db' "put_run (rewound_row c row) db"]) simp_all
  with c show ?thesis by (simp add: queue_inv_def)
qed (use inv in simp)

subsection \<open>Creating runs\<close>

lemma queue_admission_ok:
  assumes "queue_admission policy t db = Inr (a, db1)"
  shows "db1 = db\<lparr>db_admission := Some a\<rparr>" "qa_global_queue_limit a = qp_global_queue_limit policy"
    "qa_retry_after_seconds a = qp_retry_after_seconds policy"
  using assms by (auto simp: queue_admission_def Let_def split: if_splits option.splits)

lemma admission_tables [simp]:
  "tenant_queued (db\<lparr>db_admission := a\<rparr>) = tenant_queued db"
  "global_queued (db\<lparr>db_admission := a\<rparr>) = global_queued db"
  "creation_record (db\<lparr>db_admission := a\<rparr>) = creation_record db"
  "tenant_queued (db\<lparr>db_quotas := q\<rparr>) = tenant_queued db"
  "global_queued (db\<lparr>db_quotas := q\<rparr>) = global_queued db"
  "creation_record (db\<lparr>db_quotas := q\<rparr>) = creation_record db"
  by (simp_all add: tenant_queued_def global_queued_def creation_record_def fun_eq_iff)

text \<open>The queued-run limit of a tenant: its quota row, or the default that creation inserts.\<close>

definition queue_limit :: "queue_config \<Rightarrow> database \<Rightarrow> uuid \<Rightarrow> int" where
  "queue_limit cfg db tenant =
     tq_max_queued_runs
       (case select_one (\<lambda>q. tqr_tenant_id q = tenant) (db_quotas db) of
          None \<Rightarrow> qc_default_quota cfg
        | Some q \<Rightarrow> tqr_quota q)"

lemma ensure_tenant_quota_queue_limit:
  assumes "ensure_tenant_quota tenant (qc_default_quota cfg) t db = Inr (q, db1)"
  shows "tq_max_queued_runs (tqr_quota q) = queue_limit cfg db tenant"
  using assms
  by (cases "list_ex (\<lambda>q. tqr_tenant_id q = tenant) (db_quotas db)")
    (auto simp: ensure_tenant_quota_def Let_def queue_limit_def select_one_append list_ex_iff
      select_one_None split: option.splits dest: select_one_Some)

lemma admit_run_ok:
  assumes "admit_run cfg tenant t q db = Inr (u, db1)"
  shows "\<exists>adm. db1 = db\<lparr>db_admission := Some adm\<rparr>
    \<and> tenant_queued db tenant < tq_max_queued_runs (tqr_quota q)
    \<and> global_queued db < qp_global_queue_limit (qc_admission_policy cfg)"
proof -
  obtain adm where adm: "queue_admission (qc_admission_policy cfg) t db = Inr (adm, db1)"
    and lim: "tenant_queued db1 tenant < tq_max_queued_runs (tqr_quota q)"
      "global_queued db1 < qa_global_queue_limit adm"
    using assms by (auto simp: admit_run_def bindE_eq_Inr split: if_splits)
  with queue_admission_ok [OF adm] show ?thesis by auto
qed

lemma insert_initial_state_ok:
  assumes "insert_initial_state mid pid tenant s db = Inr db1"
  shows "\<exists>m p. db1 = db\<lparr>db_messages := db_messages db @ [m], db_task_plans := db_task_plans db @ [p]\<rparr>
    \<and> mr_tenant_id m = tenant \<and> pm_run_id (mr_message m) = run_id (sub_run s)
    \<and> pm_content (mr_message m) = sub_task s \<and> pm_role (mr_message m) = USER
    \<and> pm_sequence (mr_message m) = next_message_sequence tenant (run_session_id (sub_run s)) db
    \<and> tp_tenant_id p = tenant \<and> pp_run_id (tp_plan p) = run_id (sub_run s) \<and> pp_version (tp_plan p) = 1
    \<and> to_json_object (pp_plan (tp_plan p)) = [(''tasks'', JList (map tracked_task_dump (sub_initial_tasks s)))]"
proof -
  obtain metadata message tasks plan where
    m: "persisted_message_model_validate
          \<lparr>pm_id = mid, pm_session_id = run_session_id (sub_run s), pm_run_id = run_id (sub_run s),
           pm_execution_epoch = run_execution_epoch (sub_run s),
           pm_sequence = next_message_sequence tenant (run_session_id (sub_run s)) db,
           pm_role = USER, pm_content = sub_task s, pm_metadata = metadata,
           pm_created_at = run_created_at (sub_run s)\<rparr> = Inr message"
    and tasks: "frozen_from_validated [(''tasks'', JList (map tracked_task_dump (sub_initial_tasks s)))] = Inr tasks"
    and p: "task_plan_model_validate
          \<lparr>pp_id = pid, pp_run_id = run_id (sub_run s), pp_execution_epoch = run_execution_epoch (sub_run s),
           pp_version = 1, pp_plan = tasks, pp_created_at = run_created_at (sub_run s)\<rparr> = Inr plan"
    and db1: "db1 = db\<lparr>db_messages := db_messages db @ [\<lparr>mr_tenant_id = tenant, mr_message = message\<rparr>],
                 db_task_plans := db_task_plans db @ [\<lparr>tp_tenant_id = tenant, tp_plan = plan\<rparr>]\<rparr>"
    using assms by (auto simp: insert_initial_state_def bindE_eq_Inr Let_def)
  have "to_json_object tasks = [(''tasks'', JList (map tracked_task_dump (sub_initial_tasks s)))]"
    by (rule frozen_object_roundtrip [OF tasks])
  with m p show ?thesis
    by (intro exI [of _ "\<lparr>mr_tenant_id = tenant, mr_message = message\<rparr>"]
        exI [of _ "\<lparr>tp_tenant_id = tenant, tp_plan = plan\<rparr>"])
      (auto simp: db1 persisted_message_model_validate_def task_plan_model_validate_def bindE_eq_Inr)
qed

text \<open>What a run looks like when the API submits it.\<close>

definition fresh_run :: "Run \<Rightarrow> bool" where
  "fresh_run run \<longleftrightarrow> run_valid run \<and> run_status run = QUEUED"

lemma create_run_ok_cases:
  assumes inv: "queue_inv db"
    and ok: "create_run digest cfg mid pid tenant run key hash submission db = Inr (res, db')"
  shows "hash = submission_hash digest run submission
    \<and> ((\<exists>existing. creation_record db tenant (run_session_id run) key = Some existing
          \<and> rr_creation_hash existing = hash
          \<and> res = \<lparr>rc_run = rr_run existing, rc_created = False\<rparr> \<and> db' = db)
      \<or> (creation_record db tenant (run_session_id run) key = None
          \<and> res = \<lparr>rc_run = run, rc_created = True\<rparr>
          \<and> tenant_queued db tenant < queue_limit cfg db tenant
          \<and> global_queued db < qp_global_queue_limit (qc_admission_policy cfg)
          \<and> db_runs db' = db_runs db @ [run_values tenant run key hash]
          \<and> db_run_leases db' = db_run_leases db \<and> db_workers db' = db_workers db
          \<and> db_workspace_leases db' = db_workspace_leases db \<and> db_sessions db' = db_sessions db
          \<and> (\<exists>ms. db_messages db' = db_messages db @ ms) \<and> db_tool_calls db' = db_tool_calls db
          \<and> constraints_ok db'))"
proof (cases "creation_record db tenant (run_session_id run) key")
  case (Some existing)
  then have mem: "existing \<in> set (db_runs db)" by (auto simp: creation_record_def dest: select_one_Some)
  note d = run_domain_ok [OF queue_inv_run_valid [OF inv mem]]
  from ok Some show ?thesis
    by (auto simp: create_run_def existing_creation_def d bindE_eq_Inr IdempotencyKey_def
        split: sum.splits if_splits)
next
  case None
  have k: "IdempotencyKey ''idempotency_key'' key = Inr key"
    using ok by (auto simp: create_run_def IdempotencyKey_def split: sum.splits if_splits)
  obtain q quotas where
    e: "ensure_tenant_quota tenant (qc_default_quota cfg) (run_created_at run) db = Inr (q, db\<lparr>db_quotas := quotas\<rparr>)"
    using ensure_tenant_quota_ok by blast
  obtain adm where
    a: "admit_run cfg tenant (run_created_at run) q (db\<lparr>db_quotas := quotas\<rparr>) =
          Inr ((), db\<lparr>db_quotas := quotas, db_admission := Some adm\<rparr>)"
    and lim: "tenant_queued db tenant < tq_max_queued_runs (tqr_quota q)"
      "global_queued db < qp_global_queue_limit (qc_admission_policy cfg)"
    using ok None
    by (cases "admit_run cfg tenant (run_created_at run) q (db\<lparr>db_quotas := quotas\<rparr>)")
      (auto simp: create_run_def k e bindE_eq_Inr dest: admit_run_ok split: if_splits)
  let ?db3 = "db\<lparr>db_quotas := quotas, db_admission := Some adm,
    db_runs := db_runs db @ [run_values tenant run key hash]\<rparr>"
  have st: "(case submission of None \<Rightarrow> Inr ?db3 | Some s \<Rightarrow> insert_initial_state mid pid tenant s ?db3) = Inr db'"
    and hash: "hash = submission_hash digest run submission"
    and res: "res = \<lparr>rc_run = run, rc_created = True\<rparr>" and c: "constraints_ok db'"
    using ok None
    by (auto simp: create_run_def k e a bindE_eq_Inr split: if_splits)
  have "db_runs db' = db_runs db @ [run_values tenant run key hash]
      \<and> db_run_leases db' = db_run_leases db \<and> db_workers db' = db_workers db
      \<and> db_workspace_leases db' = db_workspace_leases db \<and> db_sessions db' = db_sessions db
      \<and> (\<exists>ms. db_messages db' = db_messages db @ ms) \<and> db_tool_calls db' = db_tool_calls db"
    using st by (cases submission) (auto dest!: insert_initial_state_ok)
  moreover have "tenant_queued db tenant < queue_limit cfg db tenant"
    using lim(1) ensure_tenant_quota_queue_limit [OF e] by simp
  moreover note lim(2)
  ultimately show ?thesis using None hash res c by blast
qed

lemma create_run_inv:
  assumes inv: "queue_inv db" and run: "fresh_run run"
    and ok: "create_run digest cfg mid pid tenant run key hash submission db = Inr (res, db')"
  shows "queue_inv db'"
  using create_run_ok_cases [OF inv ok]
proof (elim conjE disjE exE)
  assume tables: "db_runs db' = db_runs db @ [run_values tenant run key hash]" "db_run_leases db' = db_run_leases db"
    "db_workers db' = db_workers db" "db_workspace_leases db' = db_workspace_leases db"
    "db_sessions db' = db_sessions db" and c: "constraints_ok db'"
  have "lease_inv db'"
    using lease_invD [OF queue_invD(2) [OF inv]] run
    by (auto simp: lease_inv_def tables runs_valid_def leases_mirrored_def active_runs_leased_def names_ok_def
        fresh_run_def run_values_def)
  with c show ?thesis by (simp add: queue_inv_def)
qed (use inv in simp)

end
