(* ===== verification/Execution_Repository.thy ===== *)
theory Execution_Repository
  imports Repository_Invariant
begin

section \<open>Durable execution state\<close>

text \<open>
  \<open>PostgresExecutionRepository\<close> of \<open>platform_persistence/repositories.py\<close> and the fence of
  \<open>platform_persistence/fencing.py\<close>: messages and the transcript journal, task plans, tool
  calls, approvals, checkpoints and model calls. A fenced operation first locks the exact
  unexpired lease of the caller and the run that mirrors it.

  \<open>clock_timestamp()\<close> is read by both queries of the fence: \<open>clock\<close> is the pair of its
  values. \<open>dump_size\<close> is the number of bytes of a message's JSON text, \<open>uuid5\<close> the name-based
  identifier, \<open>hash\<close> the canonical argument hash. Rows of \<open>tool_calls\<close> and \<open>model_calls\<close> are
  identified by their unique logical keys; the surrogate \<open>uuid4\<close> column is never read.
\<close>

subsection \<open>The fence\<close>

definition active_lease_lost :: "RunLease \<Rightarrow> py_error" where
  "active_lease_lost lease =
     domain_error ''run_lease_lost'' ''the run lease is no longer active for this worker'' True
       (run_id_details (rl_run_id lease))"

definition assert_active_run_lease :: "timestamp \<times> timestamp \<Rightarrow> RunLease \<Rightarrow> database \<Rightarrow> RunRecord result" where
  "assert_active_run_lease clock lease db =
     (case select_one (\<lambda>l. lease_matches l lease \<and> le_expires_at l > fst clock) (db_run_leases db) of
        None \<Rightarrow> Inl (active_lease_lost lease)
      | Some l \<Rightarrow>
          (case select_one (\<lambda>r. rr_tenant_id r = rl_tenant_id lease \<and> rr_id r = rl_run_id lease
                   \<and> run_session_id (rr_run r) = rl_session_id lease
                   \<and> run_workspace_id (rr_run r) = rl_workspace_id lease
                   \<and> run_execution_epoch (rr_run r) = rl_execution_epoch lease
                   \<and> run_assigned_worker_id (rr_run r) = Some (rl_worker_id lease)
                   \<and> rr_lease_generation r = rl_generation lease
                   \<and> (case run_lease_expires_at (rr_run r) of None \<Rightarrow> False | Some x \<Rightarrow> x > snd clock)
                   \<and> rr_status r \<in> {LEASED, RUNNING}) (db_runs db) of
             None \<Rightarrow> Inl (active_lease_lost lease)
           | Some r \<Rightarrow> Inr r))"

subsection \<open>Messages\<close>

definition append_message :: "uuid \<Rightarrow> PersistedMessage \<Rightarrow> PersistedMessage transaction" where
  "append_message tenant message db =
     bindE (flush (db\<lparr>db_messages := db_messages db @ [\<lparr>mr_tenant_id = tenant, mr_message = message\<rparr>]\<rparr>))
       (\<lambda>db'. Inr (message, db'))"

definition MAX_TRANSCRIPT_SUFFIX_BYTES :: nat where
  "MAX_TRANSCRIPT_SUFFIX_BYTES = 8 * 1024 * 1024"

definition transcript_identifier :: "(uuid \<Rightarrow> string \<Rightarrow> uuid) \<Rightarrow> RunLease \<Rightarrow> int \<Rightarrow> uuid" where
  "transcript_identifier uuid5 lease i =
     uuid5 (rl_run_id lease)
       ((if rl_execution_epoch lease = 1 then ''transcript-message''
         else ''execution-epoch:'' @ int_str (rl_execution_epoch lease) @ '':transcript-message'')
        @ '':'' @ int_str i)"

definition gateway_tool_call_dump :: "GatewayToolCall \<Rightarrow> FrozenJson" where
  "gateway_tool_call_dump c =
     FObject [(''id'', FStr (gtc_id c)), (''name'', FStr (gtc_name c)), (''arguments'', FObject (gtc_arguments c))]"

definition transcript_metadata :: "GatewayMessage \<Rightarrow> int \<Rightarrow> FrozenJsonObject" where
  "transcript_metadata m i =
     [(''tool_call_id'', case gm_tool_call_id m of None \<Rightarrow> FNull | Some t \<Rightarrow> FStr t),
      (''tool_calls'', FTuple (map gateway_tool_call_dump (gm_tool_calls m))),
      (''transcript_index'', FInt i)]"

definition transcript_row ::
    "(uuid \<Rightarrow> string \<Rightarrow> uuid) \<Rightarrow> RunLease \<Rightarrow> timestamp \<Rightarrow> int \<Rightarrow> int \<Rightarrow> GatewayMessage \<Rightarrow> MessageRecord" where
  "transcript_row uuid5 lease occurred_at n i m =
     \<lparr>mr_tenant_id = rl_tenant_id lease,
      mr_message = \<lparr>pm_id = transcript_identifier uuid5 lease i, pm_session_id = rl_session_id lease,
                    pm_run_id = rl_run_id lease, pm_execution_epoch = rl_execution_epoch lease,
                    pm_sequence = n, pm_role = gm_role m, pm_content = gm_content m,
                    pm_metadata = transcript_metadata m i, pm_created_at = occurred_at\<rparr>\<rparr>"

definition transcript_row_conflicts :: "RunLease \<Rightarrow> int \<Rightarrow> GatewayMessage \<Rightarrow> MessageRecord \<Rightarrow> bool" where
  "transcript_row_conflicts lease i m row \<longleftrightarrow>
     pm_session_id (mr_message row) \<noteq> rl_session_id lease
   \<or> pm_run_id (mr_message row) \<noteq> rl_run_id lease
   \<or> pm_execution_epoch (mr_message row) \<noteq> rl_execution_epoch lease
   \<or> pm_role (mr_message row) \<noteq> gm_role m
   \<or> pm_content (mr_message row) \<noteq> gm_content m
   \<or> \<not> json_object_same (pm_metadata (mr_message row)) (transcript_metadata m i)"

text \<open>
  The loop over the suffix: \<open>i\<close> is the transcript position of the first message, \<open>n\<close> the next
  free sequence number of the session, \<open>existing\<close> the rows found under the identifiers.
\<close>

fun transcript_rows ::
    "(uuid \<Rightarrow> string \<Rightarrow> uuid) \<Rightarrow> RunLease \<Rightarrow> timestamp \<Rightarrow> MessageRecord list \<Rightarrow> int \<Rightarrow> int \<Rightarrow>
     GatewayMessage list \<Rightarrow> MessageRecord list result"
where
  "transcript_rows uuid5 lease occurred_at existing n i [] = Inr []"
| "transcript_rows uuid5 lease occurred_at existing n i (m # ms) =
     (case select_one (\<lambda>r. pm_id (mr_message r) = transcript_identifier uuid5 lease i) existing of
        Some row \<Rightarrow>
          if transcript_row_conflicts lease i m row
          then Inl (domain_error ''transcript_message_conflict''
                 ''the transcript position contains different durable content'' False [])
          else transcript_rows uuid5 lease occurred_at existing n (i + 1) ms
      | None \<Rightarrow>
          bindE (transcript_rows uuid5 lease occurred_at existing (n + 1) (i + 1) ms) (\<lambda>rest.
          Inr (transcript_row uuid5 lease occurred_at n i m # rest)))"

definition transcript_existing ::
    "(uuid \<Rightarrow> string \<Rightarrow> uuid) \<Rightarrow> RunLease \<Rightarrow> int \<Rightarrow> nat \<Rightarrow> database \<Rightarrow> MessageRecord list" where
  "transcript_existing uuid5 lease first n db =
     filter (\<lambda>r. mr_tenant_id r = rl_tenant_id lease
         \<and> pm_id (mr_message r) \<in> set (map (\<lambda>k. transcript_identifier uuid5 lease (first + int k + 1)) [0..<n]))
       (db_messages db)"

definition append_transcript_fenced ::
    "(uuid \<Rightarrow> string \<Rightarrow> uuid) \<Rightarrow> (GatewayMessage \<Rightarrow> nat) \<Rightarrow> timestamp \<times> timestamp \<Rightarrow> RunLease \<Rightarrow> pyval \<Rightarrow>
     GatewayMessage list \<Rightarrow> timestamp \<Rightarrow> unit transaction"
where
  "append_transcript_fenced uuid5 dump_size clock lease start_index messages occurred_at db =
     (case start_index of
        PyInt first \<Rightarrow>
          if first < 0 then Inl (ValueError ''transcript start index must be a nonnegative integer'')
          else if messages = [] \<or> length messages > MAX_TRANSCRIPT_SUFFIX_MESSAGES
          then Inl (ValueError ''transcript suffix must contain between 1 and 4096 messages'')
          else if sum_list (map dump_size messages) > MAX_TRANSCRIPT_SUFFIX_BYTES
          then Inl (domain_error ''transcript_limit''
                 ''the durable transcript suffix exceeds its byte limit'' False [])
          else
            bindE (assert_active_run_lease clock lease db) (\<lambda>_.
            if \<not> list_ex (\<lambda>s. session_tenant_id s = rl_tenant_id lease \<and> session_id s = rl_session_id lease)
                   (db_sessions db)
            then Inl (domain_error ''transcript_session_missing''
                   ''the durable transcript session is unavailable'' False [])
            else
              bindE (transcript_rows uuid5 lease occurred_at
                       (transcript_existing uuid5 lease first (length messages) db)
                       (next_message_sequence (rl_tenant_id lease) (rl_session_id lease) db)
                       (first + 1) messages) (\<lambda>rows.
              bindE (flush (db\<lparr>db_messages := db_messages db @ rows\<rparr>)) (\<lambda>db'. Inr ((), db'))))
      | _ \<Rightarrow> Inl (ValueError ''transcript start index must be a nonnegative integer''))"

definition save_task_plan :: "uuid \<Rightarrow> PersistedTaskPlan \<Rightarrow> PersistedTaskPlan transaction" where
  "save_task_plan tenant plan db =
     bindE (flush (db\<lparr>db_task_plans := db_task_plans db @ [\<lparr>tp_tenant_id = tenant, tp_plan = plan\<rparr>]\<rparr>))
       (\<lambda>db'. Inr (plan, db'))"

subsection \<open>Tool calls\<close>

fun TOOL_CALL_TRANSITIONS :: "ToolCallStatus \<Rightarrow> ToolCallStatus set" where
  "TOOL_CALL_TRANSITIONS TOOL_RECEIVED = {TOOL_WAITING_APPROVAL, TOOL_RUNNING, TOOL_FAILED, TOOL_CANCELLED}"
| "TOOL_CALL_TRANSITIONS TOOL_WAITING_APPROVAL = {TOOL_RUNNING, TOOL_FAILED, TOOL_CANCELLED}"
| "TOOL_CALL_TRANSITIONS TOOL_RUNNING = {TOOL_COMPLETED, TOOL_FAILED, TOOL_CANCELLED}"
| "TOOL_CALL_TRANSITIONS TOOL_COMPLETED = {}"
| "TOOL_CALL_TRANSITIONS TOOL_FAILED = {}"
| "TOOL_CALL_TRANSITIONS TOOL_CANCELLED = {}"

fun TOOL_CALL_PREDECESSORS :: "ToolCallStatus \<Rightarrow> ToolCallStatus set" where
  "TOOL_CALL_PREDECESSORS TOOL_RECEIVED = {}"
| "TOOL_CALL_PREDECESSORS TOOL_WAITING_APPROVAL = {TOOL_RECEIVED}"
| "TOOL_CALL_PREDECESSORS TOOL_RUNNING = {TOOL_RECEIVED, TOOL_WAITING_APPROVAL}"
| "TOOL_CALL_PREDECESSORS TOOL_COMPLETED = {TOOL_RECEIVED, TOOL_WAITING_APPROVAL, TOOL_RUNNING}"
| "TOOL_CALL_PREDECESSORS TOOL_FAILED = {TOOL_RECEIVED, TOOL_WAITING_APPROVAL, TOOL_RUNNING}"
| "TOOL_CALL_PREDECESSORS TOOL_CANCELLED = {TOOL_RECEIVED, TOOL_WAITING_APPROVAL, TOOL_RUNNING}"

definition error_same :: "ErrorDetail \<Rightarrow> ErrorDetail \<Rightarrow> bool" where
  "error_same e f \<longleftrightarrow>
     err_code e = err_code f \<and> err_message e = err_message f \<and> err_retryable e = err_retryable f
   \<and> (case (frozen_from_validated (err_details e), frozen_from_validated (err_details f)) of
        (Inr a, Inr b) \<Rightarrow> json_object_same a b
      | _ \<Rightarrow> err_details e = err_details f)"

definition option_same :: "('a \<Rightarrow> 'a \<Rightarrow> bool) \<Rightarrow> 'a option \<Rightarrow> 'a option \<Rightarrow> bool" where
  "option_same eq x y = (case (x, y) of (None, None) \<Rightarrow> True | (Some a, Some b) \<Rightarrow> eq a b | _ \<Rightarrow> False)"

definition tool_call_row_matches :: "ToolCallRecord \<Rightarrow> ToolCall \<Rightarrow> bool" where
  "tool_call_row_matches record call \<longleftrightarrow>
     tool_status (tc_call record) = tool_status call
   \<and> tool_workspace_version (tc_call record) = tool_workspace_version call
   \<and> option_same json_object_same (tool_result (tc_call record)) (tool_result call)
   \<and> option_same error_same (tool_error (tc_call record)) (tool_error call)"

definition tool_call_domain :: "(FrozenJsonObject \<Rightarrow> string) \<Rightarrow> ToolCallRecord \<Rightarrow> ToolCall result" where
  "tool_call_domain hash record = tool_model_validate hash (tc_call record)"

definition tool_call_details :: "ToolCall \<Rightarrow> json_object" where
  "tool_call_details call =
     [(''run_id'', JStr (uuid_str (tool_run_id call))), (''tool_call_id'', JStr (tool_id call))]"

definition updated_tool_call :: "ToolCall \<Rightarrow> ToolCallRecord \<Rightarrow> ToolCallRecord" where
  "updated_tool_call call row =
     row\<lparr>tc_call := (tc_call row)\<lparr>
       tool_status := tool_status call, tool_workspace_version := tool_workspace_version call,
       tool_result := tool_result call, tool_error := tool_error call,
       tool_started_at := tool_started_at call, tool_completed_at := tool_completed_at call\<rparr>\<rparr>"

definition stored_tool_call :: "uuid \<Rightarrow> ToolCall \<Rightarrow> database \<Rightarrow> ToolCallRecord option" where
  "stored_tool_call tenant call db =
     select_one (\<lambda>t. tool_call_key t = (tenant, tool_run_id call, tool_execution_epoch call, tool_id call))
       (db_tool_calls db)"

definition save_tool_call_row ::
    "(FrozenJsonObject \<Rightarrow> string) \<Rightarrow> uuid \<Rightarrow> ToolCall \<Rightarrow> ToolCall transaction" where
  "save_tool_call_row hash tenant call db =
     (case stored_tool_call tenant call db of
        None \<Rightarrow> Inr (call, db\<lparr>db_tool_calls := db_tool_calls db @ [\<lparr>tc_tenant_id = tenant, tc_call = call\<rparr>]\<rparr>)
      | Some row \<Rightarrow>
          if tool_argument_hash (tc_call row) \<noteq> tool_argument_hash call
             \<or> tool_tool_name (tc_call row) \<noteq> tool_tool_name call
             \<or> tool_turn_number (tc_call row) \<noteq> tool_turn_number call
             \<or> \<not> json_object_same (tool_arguments (tc_call row)) (tool_arguments call)
          then Inl (domain_error ''tool_call_id_conflict''
                 ''the tool-call ID belongs to a different logical invocation'' False (tool_call_details call))
          else if tool_call_row_matches row call
          then bindE (tool_call_domain hash row) (\<lambda>c. Inr (c, db))
          else if tool_status call \<in> TOOL_CALL_PREDECESSORS (tool_status (tc_call row))
          then bindE (tool_call_domain hash row) (\<lambda>c. Inr (c, db))
          else if tool_status call \<notin> TOOL_CALL_TRANSITIONS (tool_status (tc_call row))
          then Inl (domain_error ''tool_call_state_conflict''
                 ''the durable tool-call state cannot be overwritten'' False
                 (tool_call_details call
                  @ [(''current_status'', JStr (tool_status_value (tool_status (tc_call row)))),
                     (''requested_status'', JStr (tool_status_value (tool_status call)))]))
          else Inr (call, db\<lparr>db_tool_calls := put_row tool_call_key (updated_tool_call call row) (db_tool_calls db)\<rparr>))"

definition save_tool_call :: "(FrozenJsonObject \<Rightarrow> string) \<Rightarrow> uuid \<Rightarrow> ToolCall \<Rightarrow> ToolCall transaction" where
  "save_tool_call hash tenant call db =
     bindE (save_tool_call_row hash tenant call db) (\<lambda>(c, db1).
     bindE (flush db1) (\<lambda>db2. Inr (c, db2)))"

definition save_tool_call_fenced ::
    "(FrozenJsonObject \<Rightarrow> string) \<Rightarrow> timestamp \<times> timestamp \<Rightarrow> RunLease \<Rightarrow> ToolCall \<Rightarrow> ToolCall transaction" where
  "save_tool_call_fenced hash clock lease call db =
     (if tool_run_id call \<noteq> rl_run_id lease \<or> tool_execution_epoch call \<noteq> rl_execution_epoch lease
      then Inl (domain_error ''tool_call_run_mismatch''
             ''the tool call does not belong to the fenced run'' False
             [(''run_id'', JStr (uuid_str (rl_run_id lease))), (''tool_call_id'', JStr (tool_id call))])
      else bindE (assert_active_run_lease clock lease db) (\<lambda>_.
           save_tool_call hash (rl_tenant_id lease) call db))"

subsection \<open>Approvals\<close>

definition create_approval :: "uuid \<Rightarrow> PersistedApproval \<Rightarrow> string option \<Rightarrow> PersistedApproval transaction" where
  "create_approval tenant approval tool_call db =
     bindE (flush (db\<lparr>db_approvals := db_approvals db
              @ [\<lparr>ap_tenant_id = tenant, ap_tool_call_id = tool_call, ap_approval = approval\<rparr>]\<rparr>))
       (\<lambda>db'. Inr (approval, db'))"

definition approval_same :: "PersistedApproval \<Rightarrow> PersistedApproval \<Rightarrow> bool" where
  "approval_same a b \<longleftrightarrow>
     a\<lparr>pa_arguments := []\<rparr> = b\<lparr>pa_arguments := []\<rparr> \<and> json_object_same (pa_arguments a) (pa_arguments b)"

definition create_approval_fenced ::
    "timestamp \<times> timestamp \<Rightarrow> RunLease \<Rightarrow> PersistedApproval \<Rightarrow> string \<Rightarrow> PersistedApproval transaction" where
  "create_approval_fenced clock lease approval tool_call db =
     (if pa_run_id approval \<noteq> rl_run_id lease \<or> pa_execution_epoch approval \<noteq> rl_execution_epoch lease
      then Inl (domain_error ''approval_run_mismatch''
             ''the approval does not belong to the leased run'' False [])
      else bindE (assert_active_run_lease clock lease db) (\<lambda>_.
        case select_one (\<lambda>t. tool_call_key t =
                 (rl_tenant_id lease, rl_run_id lease, rl_execution_epoch lease, tool_call)) (db_tool_calls db) of
          None \<Rightarrow> Inl (domain_error ''approval_tool_state_conflict''
                     ''approval requires a matching waiting tool call'' False [])
        | Some tool \<Rightarrow>
            if tool_status (tc_call tool) \<noteq> TOOL_WAITING_APPROVAL
            then Inl (domain_error ''approval_tool_state_conflict''
                   ''approval requires a matching waiting tool call'' False [])
            else (case select_one (\<lambda>a. ap_tenant_id a = rl_tenant_id lease
                       \<and> pa_run_id (ap_approval a) = rl_run_id lease
                       \<and> pa_execution_epoch (ap_approval a) = rl_execution_epoch lease
                       \<and> pa_id (ap_approval a) = pa_id approval) (db_approvals db) of
                None \<Rightarrow> create_approval (rl_tenant_id lease) approval (Some tool_call) db
              | Some row \<Rightarrow>
                  bindE (approval_domain row) (\<lambda>existing.
                  if \<not> approval_same existing approval \<or> ap_tool_call_id row \<noteq> Some tool_call
                  then Inl (domain_error ''approval_id_conflict''
                         ''the approval ID belongs to another logical request'' False
                         [(''approval_id'', JStr (uuid_str (pa_id approval)))])
                  else Inr (existing, db)))))"

subsection \<open>Checkpoints\<close>

definition create_checkpoint :: "uuid \<Rightarrow> Checkpoint \<Rightarrow> Checkpoint transaction" where
  "create_checkpoint tenant c db =
     bindE (flush (db\<lparr>db_checkpoints := db_checkpoints db
              @ [\<lparr>cr_tenant_id = tenant, cr_checkpoint = c, cr_completed_snapshot_uri = None,
                  cr_completed_revision = None\<rparr>]\<rparr>)) (\<lambda>db'. Inr (c, db'))"

definition checkpoint_same :: "Checkpoint \<Rightarrow> Checkpoint \<Rightarrow> bool" where
  "checkpoint_same a b \<longleftrightarrow>
     a\<lparr>cp_messages := [], cp_task_plan := []\<rparr> = b\<lparr>cp_messages := [], cp_task_plan := []\<rparr>
   \<and> list_all2 json_object_same (cp_messages a) (cp_messages b)
   \<and> json_object_same (cp_task_plan a) (cp_task_plan b)"

definition fenced_checkpoint :: "RunLease \<Rightarrow> uuid \<Rightarrow> database \<Rightarrow> CheckpointRecord option" where
  "fenced_checkpoint lease checkpoint_id db =
     select_one (\<lambda>k. cr_tenant_id k = rl_tenant_id lease \<and> cp_run_id (cr_checkpoint k) = rl_run_id lease
        \<and> cp_execution_epoch (cr_checkpoint k) = rl_execution_epoch lease
        \<and> cp_id (cr_checkpoint k) = checkpoint_id) (db_checkpoints db)"

definition create_checkpoint_fenced ::
    "timestamp \<times> timestamp \<Rightarrow> RunLease \<Rightarrow> Checkpoint \<Rightarrow> Checkpoint transaction" where
  "create_checkpoint_fenced clock lease c db =
     (if cp_run_id c \<noteq> rl_run_id lease \<or> cp_session_id c \<noteq> rl_session_id lease
         \<or> cp_execution_epoch c \<noteq> rl_execution_epoch lease
      then Inl (domain_error ''checkpoint_run_mismatch''
             ''the checkpoint does not belong to the leased run'' False [])
      else bindE (assert_active_run_lease clock lease db) (\<lambda>_.
        case fenced_checkpoint lease (cp_id c) db of
          None \<Rightarrow> create_checkpoint (rl_tenant_id lease) c db
        | Some row \<Rightarrow>
            bindE (checkpoint_model_validate (cr_checkpoint row)) (\<lambda>existing.
            if \<not> checkpoint_same existing c
            then Inl (domain_error ''checkpoint_id_conflict''
                   ''the checkpoint ID belongs to different state'' False
                   [(''checkpoint_id'', JStr (uuid_str (cp_id c)))])
            else Inr (existing, db))))"

definition complete_checkpoint_fenced ::
    "timestamp \<times> timestamp \<Rightarrow> RunLease \<Rightarrow> uuid \<Rightarrow> string \<Rightarrow> string \<Rightarrow> unit transaction" where
  "complete_checkpoint_fenced clock lease checkpoint_id uri revision db =
     bindE (assert_active_run_lease clock lease db) (\<lambda>_.
     case fenced_checkpoint lease checkpoint_id db of
       None \<Rightarrow> Inl (domain_error ''checkpoint_not_found'' ''the checkpoint does not exist'' False [])
     | Some row \<Rightarrow>
         if (cr_completed_snapshot_uri row, cr_completed_revision row) \<notin> {(None, None), (Some uri, Some revision)}
         then Inl (domain_error ''checkpoint_state_conflict''
                ''the checkpoint already has different completed state'' False [])
         else bindE (flush (db\<lparr>db_checkpoints := put_row (\<lambda>k. cp_id (cr_checkpoint k))
                  (row\<lparr>cr_completed_snapshot_uri := Some uri, cr_completed_revision := Some revision\<rparr>)
                  (db_checkpoints db)\<rparr>)) (\<lambda>db'. Inr ((), db')))"

subsection \<open>Model calls\<close>

definition apply_model_call :: "ModelCallRecord \<Rightarrow> ModelCall \<Rightarrow> ModelCallRecord" where
  "apply_model_call record m =
     record\<lparr>mc_call := (mc_call record)\<lparr>
       mc_provider := mc_provider m, mc_model := mc_model m, mc_status := mc_status m,
       mc_input_tokens := mc_input_tokens m, mc_output_tokens := mc_output_tokens m,
       mc_cached_tokens := mc_cached_tokens m, mc_estimated_cost_usd := mc_estimated_cost_usd m,
       mc_retry_count := mc_retry_count m, mc_fallback_count := mc_fallback_count m,
       mc_first_token_at := mc_first_token_at m, mc_completed_at := mc_completed_at m\<rparr>\<rparr>"

definition save_model_call :: "uuid \<Rightarrow> ModelCall \<Rightarrow> ModelCall transaction" where
  "save_model_call tenant m db =
     (case select_one (\<lambda>r. model_call_key r = (tenant, mc_run_id m, mc_execution_epoch m, mc_id m)) (db_model_calls db) of
        None \<Rightarrow>
          bindE (flush (db\<lparr>db_model_calls := db_model_calls db @ [\<lparr>mc_tenant_id = tenant, mc_call = m\<rparr>]\<rparr>))
            (\<lambda>db'. Inr (m, db'))
      | Some row \<Rightarrow>
          if mc_request_id (mc_call row) \<noteq> mc_request_id m \<or> mc_route_name (mc_call row) \<noteq> mc_route_name m
          then Inl (domain_error ''model_call_id_conflict''
                 ''the model-call ID belongs to another logical request'' False
                 [(''model_call_id'', JStr (mc_id m))])
          else if \<not> (mc_status (mc_call row) = MODEL_COMPLETED \<and> mc_status m = MODEL_COMPLETED)
          then bindE (flush (db\<lparr>db_model_calls :=
                   put_row model_call_key (apply_model_call row m) (db_model_calls db)\<rparr>)) (\<lambda>db'. Inr (m, db'))
          else Inr (m, db))"

subsection \<open>What execution writes leave alone\<close>

definition execution_frame :: "database \<Rightarrow> database \<Rightarrow> bool" where
  "execution_frame db db' \<longleftrightarrow>
     db_runs db' = db_runs db \<and> db_run_leases db' = db_run_leases db
   \<and> db_workspace_leases db' = db_workspace_leases db \<and> db_workers db' = db_workers db
   \<and> db_sessions db' = db_sessions db \<and> db_quotas db' = db_quotas db
   \<and> (db' = db \<or> constraints_ok db')"

lemma execution_frame_refl [simp]: "execution_frame db db"
  by (simp add: execution_frame_def)

lemma execution_frame_inv: "queue_inv db \<Longrightarrow> execution_frame db db' \<Longrightarrow> queue_inv db'"
  using lease_inv_same [of db' db] by (auto simp: execution_frame_def queue_inv_def)

named_theorems execution_writes

lemma append_message_frame [execution_writes]:
  "append_message tenant m db = Inr (r, db') \<Longrightarrow> execution_frame db db'"
  by (auto simp: append_message_def bindE_eq_Inr execution_frame_def)

lemma append_transcript_frame [execution_writes]:
  "append_transcript_fenced uuid5 sz clock lease first ms t db = Inr (r, db') \<Longrightarrow> execution_frame db db'"
  by (auto simp: append_transcript_fenced_def bindE_eq_Inr execution_frame_def split: pyval.splits if_splits)

lemma save_task_plan_frame [execution_writes]:
  "save_task_plan tenant p db = Inr (r, db') \<Longrightarrow> execution_frame db db'"
  by (auto simp: save_task_plan_def bindE_eq_Inr execution_frame_def)

lemma save_tool_call_frame [execution_writes]:
  "save_tool_call hash tenant c db = Inr (r, db') \<Longrightarrow> execution_frame db db'"
  by (auto simp: save_tool_call_def save_tool_call_row_def bindE_eq_Inr execution_frame_def
      split: option.splits if_splits)

lemma save_tool_call_fenced_frame [execution_writes]:
  "save_tool_call_fenced hash clock lease c db = Inr (r, db') \<Longrightarrow> execution_frame db db'"
  using save_tool_call_frame by (auto simp: save_tool_call_fenced_def bindE_eq_Inr split: if_splits)

lemma create_approval_frame [execution_writes]:
  "create_approval tenant a tool db = Inr (r, db') \<Longrightarrow> execution_frame db db'"
  by (auto simp: create_approval_def bindE_eq_Inr execution_frame_def)

lemma create_approval_fenced_frame [execution_writes]:
  "create_approval_fenced clock lease a tool db = Inr (r, db') \<Longrightarrow> execution_frame db db'"
  by (auto simp: create_approval_fenced_def bindE_eq_Inr dest: create_approval_frame
      split: option.splits if_splits)

lemma create_checkpoint_frame [execution_writes]:
  "create_checkpoint tenant c db = Inr (r, db') \<Longrightarrow> execution_frame db db'"
  by (auto simp: create_checkpoint_def bindE_eq_Inr execution_frame_def)

lemma create_checkpoint_fenced_frame [execution_writes]:
  "create_checkpoint_fenced clock lease c db = Inr (r, db') \<Longrightarrow> execution_frame db db'"
  by (auto simp: create_checkpoint_fenced_def bindE_eq_Inr dest: create_checkpoint_frame
      split: option.splits if_splits)

lemma complete_checkpoint_fenced_frame [execution_writes]:
  "complete_checkpoint_fenced clock lease c u v db = Inr (r, db') \<Longrightarrow> execution_frame db db'"
  by (auto simp: complete_checkpoint_fenced_def bindE_eq_Inr execution_frame_def split: option.splits if_splits)

lemma save_model_call_frame [execution_writes]:
  "save_model_call tenant m db = Inr (r, db') \<Longrightarrow> execution_frame db db'"
  by (auto simp: save_model_call_def bindE_eq_Inr execution_frame_def split: option.splits if_splits)

end
