(* ===== verification/Platform_Machine.thy ===== *)
theory Platform_Machine
  imports Execution_Repository
begin

section \<open>Histories of the platform\<close>

text \<open>
  Every write of the control plane as one operation of a machine on the database: an
  operation that raises leaves the database as it was, an operation that commits leaves what
  it returned. The machine keeps \<open>queue_inv\<close> in every history (\<open>invariant_machine\<close>,
  interpreted below), and a lease that has been lost is never honoured again.

  The arguments of an operation are arbitrary except for what the callers guarantee:
  \<open>admissible\<close>. Values of validated classes satisfy their validators, a worker id carries no
  surrounding white space, the API creates runs in status \<open>queued\<close>, and nobody uses the
  general \<open>transition\<close> of the repository on a leased or running run.
\<close>

subsection \<open>Operations\<close>

record environment =
  env_uuid5 :: "uuid \<Rightarrow> string \<Rightarrow> uuid"
  env_namespace_url :: uuid
  env_digest :: "json_object \<Rightarrow> string"
  env_hash :: "FrozenJsonObject \<Rightarrow> string"
  env_dump_size :: "GatewayMessage \<Rightarrow> nat"

datatype (plugins only: code) platform_op =
    RegisterWorker WorkerRegistration
  | HeartbeatWorker string datetime pyval
  | SetWorkerDraining string bool datetime
  | Claim queue_config row_locks "uuid option" "uuid option" string datetime timedelta
  | Start RunLease datetime
  | Heartbeat RunLease datetime timedelta
  | Finish RunLease RunExecutionResult datetime
  | RecoverExpired row_locks datetime pyval
  | Acquire "uuid option" RunLease datetime timedelta
  | WriterHeartbeat WorkspaceWriterLease datetime timedelta
  | WriterRelease WorkspaceWriterLease
  | CreateSession Session
  | GetQuota TenantQuota datetime uuid
  | SetQuota TenantQuota uuid TenantQuota datetime
  | CreateRun queue_config uuid uuid uuid Run string string "RunSubmission option"
  | TransitionRun uuid uuid RunStatus RunStatus datetime "string option" "datetime option"
  | RequestCancel uuid uuid datetime
  | Rewind timestamp uuid uuid uuid
  | Decide uuid uuid uuid ApprovalDecision
  | AppendMessage uuid PersistedMessage
  | AppendTranscript "timestamp \<times> timestamp" RunLease pyval "GatewayMessage list" timestamp
  | SaveTaskPlan uuid PersistedTaskPlan
  | SaveToolCall uuid ToolCall
  | SaveToolCallFenced "timestamp \<times> timestamp" RunLease ToolCall
  | CreateApproval uuid PersistedApproval "string option"
  | CreateApprovalFenced "timestamp \<times> timestamp" RunLease PersistedApproval string
  | CreateCheckpoint uuid Checkpoint
  | CreateCheckpointFenced "timestamp \<times> timestamp" RunLease Checkpoint
  | CompleteCheckpoint "timestamp \<times> timestamp" RunLease uuid string string
  | SaveModelCall uuid ModelCall

definition committed :: "('a \<times> database) result \<Rightarrow> database option" where
  "committed r = (case r of Inl _ \<Rightarrow> None | Inr (_, db) \<Rightarrow> Some db)"

fun perform :: "environment \<Rightarrow> platform_op \<Rightarrow> database \<Rightarrow> database option" where
  "perform env (RegisterWorker reg) db = committed (register_worker reg db)"
| "perform env (HeartbeatWorker i d n) db = committed (heartbeat_worker i d n db)"
| "perform env (SetWorkerDraining i b d) db = committed (set_worker_draining i b d db)"
| "perform env (Claim cfg locks t1 t2 i d dur) db = committed (claim cfg locks t1 t2 i d dur db)"
| "perform env (Start lease d) db = committed (start lease d db)"
| "perform env (Heartbeat lease d dur) db = committed (heartbeat lease d dur db)"
| "perform env (Finish lease r d) db =
     committed (finish (env_uuid5 env (env_namespace_url env)) lease r d db)"
| "perform env (RecoverExpired locks d n) db = committed (recover_expired locks d n db)"
| "perform env (Acquire tok lease d dur) db = committed (acquire tok lease d dur db)"
| "perform env (WriterHeartbeat w d dur) db = committed (workspace_heartbeat w d dur db)"
| "perform env (WriterRelease w) db = committed (workspace_release w db)"
| "perform env (CreateSession s) db = committed (create_session s db)"
| "perform env (GetQuota q d tenant) db = committed (get_quota q d tenant db)"
| "perform env (SetQuota q tenant q' d) db = committed (set_quota q tenant q' d db)"
| "perform env (CreateRun cfg mid pid tenant run key hash sub) db =
     committed (create_run (env_digest env) cfg mid pid tenant run key hash sub db)"
| "perform env (TransitionRun tenant i a b d w x) db = committed (repository_transition tenant i a b d w x db)"
| "perform env (RequestCancel tenant i d) db = committed (request_cancel tenant i d db)"
| "perform env (Rewind now tenant i c) db = committed (rewind (env_uuid5 env) now tenant i c db)"
| "perform env (Decide tenant i a d) db = committed (decide tenant i a d db)"
| "perform env (AppendMessage tenant m) db = committed (append_message tenant m db)"
| "perform env (AppendTranscript clock lease n ms t) db =
     committed (append_transcript_fenced (env_uuid5 env) (env_dump_size env) clock lease n ms t db)"
| "perform env (SaveTaskPlan tenant p) db = committed (save_task_plan tenant p db)"
| "perform env (SaveToolCall tenant c) db = committed (save_tool_call (env_hash env) tenant c db)"
| "perform env (SaveToolCallFenced clock lease c) db =
     committed (save_tool_call_fenced (env_hash env) clock lease c db)"
| "perform env (CreateApproval tenant a tool) db = committed (create_approval tenant a tool db)"
| "perform env (CreateApprovalFenced clock lease a tool) db =
     committed (create_approval_fenced clock lease a tool db)"
| "perform env (CreateCheckpoint tenant c) db = committed (create_checkpoint tenant c db)"
| "perform env (CreateCheckpointFenced clock lease c) db = committed (create_checkpoint_fenced clock lease c db)"
| "perform env (CompleteCheckpoint clock lease c u v) db =
     committed (complete_checkpoint_fenced clock lease c u v db)"
| "perform env (SaveModelCall tenant m) db = committed (save_model_call tenant m db)"

definition platform_step :: "environment \<Rightarrow> platform_op \<Rightarrow> database \<Rightarrow> database" where
  "platform_step env x db = (case perform env x db of None \<Rightarrow> db | Some db' \<Rightarrow> db')"

definition active_status :: "RunStatus \<Rightarrow> bool" where
  "active_status s \<longleftrightarrow> s \<in> {LEASED, RUNNING}"

fun admissible :: "platform_op \<Rightarrow> bool" where
  "admissible (RegisterWorker reg) \<longleftrightarrow> worker_named (wr_worker_id reg)"
| "admissible (Claim cfg locks t1 t2 i d dur) \<longleftrightarrow> quota_ok (qc_default_quota cfg)"
| "admissible (Finish lease r d) \<longleftrightarrow> execution_result_valid r"
| "admissible (CreateSession s) \<longleftrightarrow> session_model_validate s = Inr s"
| "admissible (GetQuota q d tenant) \<longleftrightarrow> quota_ok q"
| "admissible (SetQuota q tenant q' d) \<longleftrightarrow> quota_ok q"
| "admissible (CreateRun cfg mid pid tenant run key hash sub) \<longleftrightarrow> fresh_run run"
| "admissible (TransitionRun tenant i a b d w x) \<longleftrightarrow> \<not> active_status a \<and> \<not> active_status b"
| "admissible _ \<longleftrightarrow> True"

lemma committed_iff [simp]: "committed r = Some db \<longleftrightarrow> (\<exists>x. r = Inr (x, db))"
  by (auto simp: committed_def split: sum.splits)

lemma perform_inv:
  assumes inv: "queue_inv db" and x: "admissible x" and p: "perform env x db = Some db'"
  shows "queue_inv db'"
proof (cases x)
  case (RegisterWorker reg)
  then show ?thesis using p x register_worker_inv [OF inv] by auto
next
  case (HeartbeatWorker i d n)
  then show ?thesis using p heartbeat_worker_inv [OF inv] by auto
next
  case (SetWorkerDraining i b d)
  then show ?thesis using p set_worker_draining_inv [OF inv] by auto
next
  case (Claim cfg locks t1 t2 i d dur)
  then show ?thesis using p x claim_queue_inv [OF inv] by auto
next
  case (Start lease d)
  then show ?thesis using p start_inv [OF inv] by auto
next
  case (Heartbeat lease d dur)
  then show ?thesis using p heartbeat_inv [OF inv] by auto
next
  case (Finish lease r d)
  then show ?thesis using p x finish_inv [OF inv] by auto
next
  case (RecoverExpired locks d n)
  then show ?thesis using p recover_expired_inv [OF inv] by auto
next
  case (Acquire tok lease d dur)
  then show ?thesis using p acquire_inv [OF inv] by auto
next
  case (WriterHeartbeat w d dur)
  then show ?thesis using p workspace_heartbeat_inv [OF inv] by auto
next
  case (WriterRelease w)
  then show ?thesis using p workspace_release_inv [OF inv] by auto
next
  case (CreateSession s)
  then show ?thesis using p x create_session_inv [OF inv] by auto
next
  case (GetQuota q d tenant)
  then show ?thesis using p x get_quota_inv [OF inv] by auto
next
  case (SetQuota q tenant q' d)
  then show ?thesis using p x set_quota_inv [OF inv] by auto
next
  case (CreateRun cfg mid pid tenant run key hash sub)
  then show ?thesis using p x create_run_inv [OF inv] by auto
next
  case (TransitionRun tenant i a b d w y)
  then show ?thesis using p x repository_transition_inv [OF inv] by (auto simp: active_status_def)
next
  case (RequestCancel tenant i d)
  then show ?thesis using p request_cancel_inv [OF inv] by auto
next
  case (Rewind now tenant i c)
  then show ?thesis using p rewind_inv [OF inv] by auto
next
  case (Decide tenant i a d)
  then show ?thesis using p decide_inv [OF inv] by auto
qed (use p execution_frame_inv [OF inv] in \<open>auto dest: execution_writes\<close>)

lemma platform_step_inv: "queue_inv db \<Longrightarrow> admissible x \<Longrightarrow> queue_inv (platform_step env x db)"
  using perform_inv by (auto simp: platform_step_def split: option.splits)

interpretation platform: invariant_machine "platform_step env" admissible queue_inv for env
  by unfold_locales (rule platform_step_inv)

subsection \<open>What one operation does to the fences\<close>

text \<open>
  Every operation is one of three kinds. Most keep the runs with their lease generation (the
  execution epoch may grow) and grant no lease, though they may drop some. A creation adds one
  run of generation zero. A claim grants one lease: the run had none, and its generation grows
  by one.
\<close>

definition run_kept :: "RunRecord \<Rightarrow> RunRecord \<Rightarrow> bool" where
  "run_kept r r' \<longleftrightarrow>
     rr_id r' = rr_id r \<and> rr_tenant_id r' = rr_tenant_id r
   \<and> rr_lease_generation r' = rr_lease_generation r
   \<and> run_execution_epoch (rr_run r) \<le> run_execution_epoch (rr_run r')"

definition same_lease :: "RunLeaseRecord \<Rightarrow> RunLeaseRecord \<Rightarrow> bool" where
  "same_lease l l' \<longleftrightarrow>
     le_run_id l' = le_run_id l \<and> le_tenant_id l' = le_tenant_id l \<and> le_worker_id l' = le_worker_id l
   \<and> le_lease_token l' = le_lease_token l \<and> le_generation l' = le_generation l"

definition keeps :: "database \<Rightarrow> database \<Rightarrow> bool" where
  "keeps db db' \<longleftrightarrow>
     list_all2 run_kept (db_runs db) (db_runs db')
   \<and> (\<forall>l' \<in> set (db_run_leases db'). \<exists>l \<in> set (db_run_leases db). same_lease l l')"

definition creates :: "database \<Rightarrow> database \<Rightarrow> bool" where
  "creates db db' \<longleftrightarrow>
     (\<exists>row. db_runs db' = db_runs db @ [row] \<and> rr_lease_generation row = 0)
   \<and> db_run_leases db' = db_run_leases db"

definition grants :: "RunRecord \<Rightarrow> RunRecord \<Rightarrow> RunLeaseRecord \<Rightarrow> database \<Rightarrow> database \<Rightarrow> bool" where
  "grants row row' l db db' \<longleftrightarrow>
     row \<in> set (db_runs db) \<and> rr_id row' = rr_id row \<and> rr_tenant_id row' = rr_tenant_id row
   \<and> rr_lease_generation row' = rr_lease_generation row + 1
   \<and> run_execution_epoch (rr_run row') = run_execution_epoch (rr_run row)
   \<and> rr_id row \<notin> le_run_id ` set (db_run_leases db)
   \<and> le_run_id l = rr_id row \<and> le_generation l = rr_lease_generation row + 1
   \<and> db_runs db' = put_row rr_id row' (db_runs db) \<and> db_run_leases db' = db_run_leases db @ [l]"

lemma run_kept_refl [simp]: "run_kept r r"
  by (simp add: run_kept_def)

lemma same_lease_refl [simp]: "same_lease l l"
  by (simp add: same_lease_def)

lemma keeps_runs:
  assumes "list_all2 run_kept (db_runs db) (db_runs db')"
    and "set (db_run_leases db') \<subseteq> set (db_run_leases db)"
  shows "keeps db db'"
  unfolding keeps_def using assms same_lease_refl by blast

lemma keeps_same:
  "db_runs db' = db_runs db \<Longrightarrow> db_run_leases db' = db_run_leases db \<Longrightarrow> keeps db db'"
  by (rule keeps_runs) (simp_all add: list.rel_refl)

lemma put_run_kept:
  assumes "distinct (map rr_id runs)" "row \<in> set runs" "run_kept row row'"
  shows "list_all2 run_kept runs (put_row rr_id row' runs)"
proof -
  have "run_kept r (if rr_id r = rr_id row' then row' else r)" if "r \<in> set runs" for r
    using assms that distinct_eq [OF assms(1) that assms(2)] by (auto simp: run_kept_def)
  then show ?thesis
    by (simp add: put_row_def update_where_def list_all2_conv_all_nth)
qed

lemma keeps_put_run:
  assumes inv: "queue_inv db" and row: "row \<in> set (db_runs db)" "run_kept row row'"
    and db': "db_runs db' = put_row rr_id row' (db_runs db)"
      "set (db_run_leases db') \<subseteq> set (db_run_leases db)"
  shows "keeps db db'"
  by (rule keeps_runs) (use put_run_kept [OF queue_invD(7) [OF inv] row] db' in auto)

lemma worker_ops_tables:
  "register_worker reg db = Inr (w, db') \<Longrightarrow> db_runs db' = db_runs db \<and> db_run_leases db' = db_run_leases db"
  "heartbeat_worker i d n db = Inr (w, db') \<Longrightarrow> db_runs db' = db_runs db \<and> db_run_leases db' = db_run_leases db"
  "set_worker_draining i b d db = Inr (w, db') \<Longrightarrow> db_runs db' = db_runs db \<and> db_run_leases db' = db_run_leases db"
  subgoal
    by (cases "select_one (\<lambda>w. wr_worker_id w = wr_worker_id reg) (db_workers db)")
      (auto simp: register_worker_def bindE_eq_Inr Let_def split: if_splits)
  subgoal
    by (cases "select_one (\<lambda>w. wr_worker_id w = i) (db_workers db)"; cases n)
      (auto simp: heartbeat_worker_def bindE_eq_Inr Let_def split: if_splits)
  subgoal
    by (cases "select_one (\<lambda>w. wr_worker_id w = i) (db_workers db)")
      (auto simp: set_worker_draining_def bindE_eq_Inr Let_def split: if_splits)
  done

lemma claim_grants:
  assumes inv: "queue_inv db" and q: "quota_ok (qc_default_quota cfg)"
    and ok: "claim cfg locks t1 t2 i d dur db = Inr (res, db')"
  shows "keeps db db' \<or> (\<exists>row row' l. grants row row' l db db')"
  using claim_ok_cases [OF inv q ok]
proof (elim disjE exE conjE)
  assume "claim_touches db db'"
  from claim_touches_tables [OF this] show ?thesis by (intro disjI1 keeps_same) simp_all
next
  fix t x lt wt worker row route w db1 lease
  assume c: "claims cfg locks t x lt wt worker row route w db db1 db'"
  note V = claims_valid [OF inv c]
  have touch: "claim_touches db db1" and db': "db' = claimed_db worker t x lt wt row w db1"
    using c by (simp_all add: claims_def)
  note T = claim_touches_tables [OF touch]
  let ?row' = "claimed_run (wr_worker_id worker) t x row"
  let ?l = "claim_lease_row (wr_worker_id worker) t x lt row"
  have row: "row \<in> set (db_runs db)" using V(1) T(1) by simp
  have "rr_id row \<notin> le_run_id ` set (db_run_leases db)"
  proof
    assume "rr_id row \<in> le_run_id ` set (db_run_leases db)"
    then obtain l where l: "l \<in> set (db_run_leases db)" "le_run_id l = rr_id row" by auto
    obtain r where r: "r \<in> set (db_runs db)" "mirrors r l" using lease_mirror [OF inv l(1)] by blast
    then have "r = row" using distinct_eq [OF queue_invD(7) [OF inv] r(1) row] l(2) by (simp add: mirrors_def)
    then show False using r(2) V(2) by (simp add: mirrors_def)
  qed
  then have "grants row ?row' ?l db db'"
    using row T
    by (simp add: grants_def db' claimed_db_def) (simp add: claimed_run_def claim_lease_row_def)
  then show ?thesis by blast
qed

lemma start_keeps:
  assumes inv: "queue_inv db" and ok: "start lease d db = Inr (res, db')"
  shows "keeps db db'"
  using start_ok_cases [OF inv ok]
proof (elim exE conjE)
  fix t l r route
  assume L: "locked_lease_state db lease = Inr (l, r, route)"
    and db': "db' = put_run (r\<lparr>rr_run := transition_spec (rr_run r) RUNNING t [] 0\<rparr>) db"
  show ?thesis
    by (rule keeps_put_run [OF inv locked_lease_stateD(3) [OF L]]) (simp_all add: db' run_kept_def)
qed

lemma heartbeat_keeps:
  assumes inv: "queue_inv db" and ok: "heartbeat lease d dur db = Inr (res, db')"
  shows "keeps db db'"
  using heartbeat_ok_cases [OF ok]
proof (elim exE conjE)
  fix t l r route
  assume L: "locked_lease_state db lease = Inr (l, r, route)"
    and db': "db' = (put_run (r\<lparr>rr_run := (rr_run r)\<lparr>run_lease_expires_at := Some (t + dur)\<rparr>\<rparr>) db)
         \<lparr>db_run_leases := put_row le_run_id
            (l\<lparr>le_last_heartbeat_at := t, le_expires_at := t + dur\<rparr>) (db_run_leases db)\<rparr>"
  let ?r' = "r\<lparr>rr_run := (rr_run r)\<lparr>run_lease_expires_at := Some (t + dur)\<rparr>\<rparr>"
  note D = locked_lease_stateD [OF L]
  have "run_kept r ?r'" by (simp add: run_kept_def)
  note A = put_run_kept [OF queue_invD(7) [OF inv] D(3) this]
  have "\<exists>k \<in> set (db_run_leases db). same_lease k l'" if "l' \<in> set (db_run_leases db')" for l'
    using put_row_mem [OF that [unfolded db', simplified]] D(1) by (auto simp: same_lease_def)
  then show ?thesis unfolding keeps_def using A by (auto simp: db')
qed

lemma finish_keeps:
  assumes inv: "queue_inv db" and r: "execution_result_valid result"
    and ok: "finish uuid5 lease result d db = Inr (res, db')"
  shows "keeps db db'"
  using finish_ok_cases [OF inv r ok]
proof (elim exE conjE)
  fix t l r route
  assume L: "locked_lease_state db lease = Inr (l, r, route)"
    and db': "db' = finished_db uuid5 result t l r db"
  have "run_kept r (finished_row result t r)"
    by (simp add: run_kept_def) (simp add: finished_row_def finished_run_def Let_def split: option.split)
  then show ?thesis
    by (rule keeps_put_run [OF inv locked_lease_stateD(3) [OF L]])
      (auto simp: db' finished_db_def set_delete_where)
qed

lemma recover_expired_keeps:
  assumes inv: "queue_inv db" and ok: "recover_expired locks d limit db = Inr (res, db')"
  shows "keeps db db'"
proof -
  obtain t n where t: "normalize_timestamp d = Inr t" "limit = PyInt n" "1 \<le> n" "n \<le> MAX_RECOVERY_RUNS"
    and times: "\<And>r. r \<in> set (db_runs db) \<Longrightarrow>
      r \<in> set (due_retries locks t n db) \<or> rr_id r \<in> le_run_id ` set (due_leases locks t n db) \<Longrightarrow>
      comparison_start (rr_run r) \<le> t"
    using recover_expired_ok_cases [OF inv ok] by blast
  have tables: "db_runs db' = map (recovery_row locks t n db) (db_runs db)"
    "db_run_leases db' =
        delete_where (\<lambda>k. le_run_id k \<in> le_run_id ` set (due_leases locks t n db)) (db_run_leases db)"
    using recover_expired_core [where locks = locks, OF inv t(1,3,4) times] ok t(2) by auto
  have "run_kept r (recovery_row locks t n db r)" for r
    by (simp add: recovery_row_def run_kept_def requeued_row_def recovered_row_def recovered_spec_def)
  then show ?thesis
    by (intro keeps_runs) (auto simp: tables set_delete_where list_all2_conv_all_nth)
qed

lemma workspace_ops_keep:
  assumes inv: "queue_inv db"
  shows "acquire tok lease d dur db = Inr (r1, db') \<Longrightarrow> keeps db db'"
    and "workspace_heartbeat wl d dur db = Inr (r2, db') \<Longrightarrow> keeps db db'"
    and "workspace_release wl db = Inr (r3, db') \<Longrightarrow> keeps db db'"
proof -
  assume "acquire tok lease d dur db = Inr (r1, db')"
  from acquire_ok_cases [OF inv this] show "keeps db db'"
    by (auto intro!: keeps_same simp: put_workspace_def)
next
  assume "workspace_heartbeat wl d dur db = Inr (r2, db')"
  from workspace_heartbeat_ok_cases [OF this] show "keeps db db'"
    by (auto intro!: keeps_same simp: put_workspace_def)
next
  assume "workspace_release wl db = Inr (r3, db')"
  then show "keeps db db'"
    by (auto intro!: keeps_same simp: workspace_release_def put_workspace_def bindE_eq_Inr
        split: option.splits if_splits)
qed

lemma quota_ops_tables:
  "create_session s db = Inr (r1, db') \<Longrightarrow> db_runs db' = db_runs db \<and> db_run_leases db' = db_run_leases db"
  "get_quota q d tenant db = Inr (r2, db') \<Longrightarrow> db_runs db' = db_runs db \<and> db_run_leases db' = db_run_leases db"
  "set_quota q tenant q' d db = Inr (r2, db') \<Longrightarrow> db_runs db' = db_runs db \<and> db_run_leases db' = db_run_leases db"
  by (auto simp: create_session_def get_quota_def set_quota_def bindE_eq_Inr Let_def split: if_splits
      dest: ensure_tenant_quota_db)

lemma create_run_creates:
  assumes inv: "queue_inv db" and ok: "create_run digest cfg mid pid tenant run key hash sub db = Inr (res, db')"
  shows "keeps db db' \<or> creates db db'"
  using create_run_ok_cases [OF inv ok]
  by (auto simp: creates_def run_values_def intro: keeps_same)

lemma repository_keeps:
  assumes inv: "queue_inv db"
  shows "\<lbrakk>repository_transition tenant i a b d w x db = Inr (r1, db'); b \<noteq> LEASED\<rbrakk> \<Longrightarrow> keeps db db'"
    and "request_cancel tenant i d db = Inr (r2, db') \<Longrightarrow> keeps db db'"
    and "decide tenant i e decision db = Inr (r3, db') \<Longrightarrow> keeps db db'"
proof -
  assume ok: "repository_transition tenant i a b d w x db = Inr (r1, db')" "b \<noteq> LEASED"
  from repository_transition_ok_cases [OF inv ok(2,1)] show "keeps db db'"
  proof (elim disjE exE conjE)
    fix row t
    assume row: "run_row_of db tenant i = Some row"
      and db': "db' = put_run (row\<lparr>rr_run := transition_spec (rr_run row) b t [] 0\<rparr>) db"
    then show ?thesis
      by (intro keeps_put_run [OF inv run_row_of_Some(1) [OF row],
            where row' = "row\<lparr>rr_run := transition_spec (rr_run row) b t [] 0\<rparr>"])
        (simp_all add: run_kept_def)
  qed (simp add: keeps_same)
next
  assume "request_cancel tenant i d db = Inr (r2, db')"
  from request_cancel_ok_cases [OF inv this] show "keeps db db'"
  proof (elim disjE exE conjE)
    fix row t
    assume row: "run_row_of db tenant i = Some row" and db': "db' = put_run (cancelled_row t row) db"
    then show ?thesis
      by (intro keeps_put_run [OF inv run_row_of_Some(1) [OF row], where row' = "cancelled_row t row"])
        (simp_all add: run_kept_def, simp add: cancelled_row_def)
  qed (simp_all add: keeps_same)
next
  assume "decide tenant i e decision db = Inr (r3, db')"
  from decide_ok_cases [OF inv this] show "keeps db db'"
  proof (elim disjE exE conjE)
    fix row r
    let ?db1 = "put_approval (decided_row decision row) db"
    assume r: "run_row_of db tenant i = Some r"
      and db': "db' = resumed_db tenant i (pa_execution_epoch (ap_approval row)) (ad_decided_at decision) r ?db1"
    show ?thesis
    proof (cases "db' = ?db1")
      case True
      then show ?thesis by (simp add: keeps_same)
    next
      case False
      then have "db' = put_run (r\<lparr>rr_run := transition_spec (rr_run r) QUEUED (ad_decided_at decision) [] 0\<rparr>) ?db1"
        using db' unfolding resumed_db_def by metis
      then show ?thesis
        by (intro keeps_put_run [OF inv run_row_of_Some(1) [OF r]]) (simp_all add: run_kept_def)
    qed
  qed (simp_all add: keeps_same)
qed

lemma rewind_keeps:
  assumes inv: "queue_inv db" and ok: "rewind uuid5 now tenant i c db = Inr (res, db')"
  shows "keeps db db'"
  using rewind_ok_cases [OF inv ok]
proof (elim disjE exE conjE)
  fix row cr s retained
  assume row: "run_row_of db tenant i = Some row"
    and "db_runs db' = put_row rr_id (rewound_row c row) (db_runs db)"
    "db_run_leases db' = db_run_leases db"
  then show ?thesis
    by (intro keeps_put_run [OF inv run_row_of_Some(1) [OF row], where row' = "rewound_row c row"])
      (simp_all add: run_kept_def)
qed (simp add: keeps_same)

lemma execution_frame_keeps: "execution_frame db db' \<Longrightarrow> keeps db db'"
  by (simp add: execution_frame_def keeps_same)

lemma perform_fences:
  assumes inv: "queue_inv db" and x: "admissible x" and p: "perform env x db = Some db'"
  shows "keeps db db' \<or> creates db db' \<or> (\<exists>row row' l. grants row row' l db db')"
proof (cases x)
  case (RegisterWorker reg)
  then show ?thesis using p worker_ops_tables(1) keeps_same by fastforce
next
  case (HeartbeatWorker i d n)
  then show ?thesis using p worker_ops_tables(2) keeps_same by fastforce
next
  case (SetWorkerDraining i b d)
  then show ?thesis using p worker_ops_tables(3) keeps_same by fastforce
next
  case (Claim cfg locks t1 t2 i d dur)
  then have "\<exists>y. claim cfg locks t1 t2 i d dur db = Inr (y, db')" "quota_ok (qc_default_quota cfg)"
    using p x by auto
  then show ?thesis using claim_grants [OF inv] by blast
next
  case (Start lease d)
  then show ?thesis using p start_keeps [OF inv] by auto
next
  case (Heartbeat lease d dur)
  then show ?thesis using p heartbeat_keeps [OF inv] by auto
next
  case (Finish lease r d)
  then show ?thesis using p x finish_keeps [OF inv] by auto
next
  case (RecoverExpired locks d n)
  then show ?thesis using p recover_expired_keeps [OF inv] by auto
next
  case (Acquire tok lease d dur)
  then show ?thesis using p workspace_ops_keep(1) [OF inv] by auto
next
  case (WriterHeartbeat w d dur)
  then show ?thesis using p workspace_ops_keep(2) [OF inv] by auto
next
  case (WriterRelease w)
  then show ?thesis using p workspace_ops_keep(3) [OF inv] by auto
next
  case (CreateSession s)
  then show ?thesis using p quota_ops_tables(1) keeps_same by fastforce
next
  case (GetQuota q d tenant)
  then show ?thesis using p quota_ops_tables(2) keeps_same by fastforce
next
  case (SetQuota q tenant q' d)
  then show ?thesis using p quota_ops_tables(3) keeps_same by fastforce
next
  case (CreateRun cfg mid pid tenant run key hash sub)
  then show ?thesis using p by (auto dest: create_run_creates [OF inv])
next
  case (TransitionRun tenant i a b d w y)
  then show ?thesis using p x repository_keeps(1) [OF inv] by (auto simp: active_status_def)
next
  case (RequestCancel tenant i d)
  then show ?thesis using p repository_keeps(2) [OF inv] by auto
next
  case (Rewind now tenant i c)
  then show ?thesis using p rewind_keeps [OF inv] by auto
next
  case (Decide tenant i a d)
  then show ?thesis using p repository_keeps(3) [OF inv] by auto
qed (use p execution_frame_keeps in \<open>auto dest: execution_writes\<close>)

lemma platform_step_fences:
  assumes "queue_inv db" "admissible x"
  shows "keeps db (platform_step env x db) \<or> creates db (platform_step env x db)
    \<or> (\<exists>row row' l. grants row row' l db (platform_step env x db))"
  using perform_fences [OF assms] by (auto simp: platform_step_def keeps_same split: option.splits)

subsection \<open>A lost lease stays lost\<close>

definition lease_is_lost :: "RunLease \<Rightarrow> database \<Rightarrow> bool" where
  "lease_is_lost lease db \<longleftrightarrow>
     (\<exists>r \<in> set (db_runs db). rr_id r = rl_run_id lease \<and> rl_generation lease \<le> rr_lease_generation r)
   \<and> (\<forall>l \<in> set (db_run_leases db). \<not> lease_matches l lease)"

definition advances :: "database \<Rightarrow> database \<Rightarrow> bool" where
  "advances db db' \<longleftrightarrow>
     (\<forall>r \<in> set (db_runs db). \<exists>r' \<in> set (db_runs db').
        rr_id r' = rr_id r \<and> rr_lease_generation r \<le> rr_lease_generation r')
   \<and> (\<forall>l' \<in> set (db_run_leases db').
        (\<exists>l \<in> set (db_run_leases db). same_lease l l')
        \<or> (\<exists>r \<in> set (db_runs db). rr_id r = le_run_id l' \<and> rr_lease_generation r < le_generation l'))"

lemma list_all2_member:
  "list_all2 P xs ys \<Longrightarrow> x \<in> set xs \<Longrightarrow> \<exists>y \<in> set ys. P x y"
  by (induction rule: list_all2_induct) auto

lemma keeps_advances: "keeps db db' \<Longrightarrow> advances db db'"
  unfolding keeps_def advances_def
  by (auto dest!: list_all2_member simp: run_kept_def) (metis order_refl)

lemma creates_advances: "creates db db' \<Longrightarrow> advances db db'"
  unfolding creates_def advances_def by (auto intro: same_lease_refl)

lemma grants_advances:
  assumes inv: "queue_inv db" and g: "grants row row' l db db'"
  shows "advances db db'"
proof -
  have runs: "set (db_runs db') = insert row' (set (db_runs db) - {row})"
    using g set_put_row_distinct [OF queue_invD(7) [OF inv], of row row'] by (simp add: grants_def)
  have row': "rr_id row' = rr_id row" "rr_lease_generation row' = rr_lease_generation row + 1"
    using g by (simp_all add: grants_def)
  have leases: "set (db_run_leases db') = insert l (set (db_run_leases db))" using g by (simp add: grants_def)
  have "\<exists>r' \<in> set (db_runs db'). rr_id r' = rr_id r \<and> rr_lease_generation r \<le> rr_lease_generation r'"
    if "r \<in> set (db_runs db)" for r
    using that row' by (cases "r = row") (auto simp: runs)
  moreover have "(\<exists>k \<in> set (db_run_leases db). same_lease k l')
      \<or> (\<exists>r \<in> set (db_runs db). rr_id r = le_run_id l' \<and> rr_lease_generation r < le_generation l')"
    if "l' \<in> set (db_run_leases db')" for l'
    using that g by (auto simp: leases grants_def intro: same_lease_refl)
  ultimately show ?thesis unfolding advances_def by blast
qed

lemma platform_step_advances:
  "queue_inv db \<Longrightarrow> admissible x \<Longrightarrow> advances db (platform_step env x db)"
  using platform_step_fences keeps_advances creates_advances grants_advances by blast

lemma lease_is_lost_advances:
  assumes inv: "queue_inv db" and adv: "advances db db'" and lost: "lease_is_lost lease db"
  shows "lease_is_lost lease db'"
proof -
  obtain r where r: "r \<in> set (db_runs db)" "rr_id r = rl_run_id lease" "rl_generation lease \<le> rr_lease_generation r"
    using lost by (auto simp: lease_is_lost_def)
  obtain r' where r': "r' \<in> set (db_runs db')" "rr_id r' = rr_id r"
      "rr_lease_generation r \<le> rr_lease_generation r'" using adv r(1) unfolding advances_def by blast
  have "\<not> lease_matches l' lease" if l': "l' \<in> set (db_run_leases db')" for l'
  proof
    assume m: "lease_matches l' lease"
    have "(\<exists>l \<in> set (db_run_leases db). same_lease l l')
        \<or> (\<exists>r \<in> set (db_runs db). rr_id r = le_run_id l' \<and> rr_lease_generation r < le_generation l')"
      using adv l' by (simp add: advances_def)
    then show False
    proof (elim disjE bexE conjE)
      fix l assume "l \<in> set (db_run_leases db)" "same_lease l l'"
      with m have "lease_matches l lease" by (simp add: same_lease_def lease_matches_def)
      with \<open>l \<in> _\<close> lost show False by (simp add: lease_is_lost_def)
    next
      fix k assume k: "k \<in> set (db_runs db)" "rr_id k = le_run_id l'" "rr_lease_generation k < le_generation l'"
      then have "k = r"
        using m r(1,2) distinct_eq [OF queue_invD(7) [OF inv], of k r] by (simp add: lease_matches_def)
      with k(3) m r(3) show False by (simp add: lease_matches_def)
    qed
  qed
  moreover have "rr_id r' = rl_run_id lease" "rl_generation lease \<le> rr_lease_generation r'"
    using r(2,3) r'(2,3) by simp_all
  ultimately show ?thesis using r'(1) by (auto simp: lease_is_lost_def)
qed

interpretation fenced: invariant_machine "platform_step env" admissible
    "\<lambda>db. queue_inv db \<and> lease_is_lost lease db" for env lease
proof
  fix db x
  assume db: "queue_inv db \<and> lease_is_lost lease db" and x: "admissible x"
  then show "queue_inv (platform_step env x db) \<and> lease_is_lost lease (platform_step env x db)"
    using platform_step_inv [of db x env] lease_is_lost_advances [OF _ platform_step_advances [of db x env]] by simp
qed

end
