(* ===== verification/Platform_Samples.thy ===== *)
theory Platform_Samples
  imports Platform_Machine
begin

section \<open>Sample databases\<close>

text \<open>
  A small control plane on which the properties are evaluated: one worker with two slots,
  two sessions of one tenant, a queued run and a running one with its lease and its
  workspace writer. Further samples are updates of it.
\<close>

definition sample_worker :: WorkerRecord where
  "sample_worker = \<lparr>wr_worker_id = ''worker-1'', wr_supported_sandbox_types = [''docker''],
     wr_total_slots = 2, wr_available_slots = 1, wr_status = WORKER_ACTIVE,
     wr_registered_at = 0, wr_last_heartbeat_at = 0\<rparr>"

definition sample_session :: "uuid \<Rightarrow> uuid \<Rightarrow> Session" where
  "sample_session i workspace = \<lparr>session_id = i, session_tenant_id = 1, session_workspace_id = workspace,
     session_status = SESSION_ACTIVE, session_approval_mode = REQUIRE_ALL, session_model_route = ''coding'',
     session_memory_enabled = True, session_context_generation = 1, session_created_at = 0,
     session_updated_at = 0\<rparr>"

definition sample_active_run :: Run where
  "sample_active_run = sample_run\<lparr>run_id := 8, run_session_id := 5, run_workspace_id := 6,
     run_status := RUNNING, run_assigned_worker_id := Some ''worker-1'',
     run_lease_expires_at := Some 1000, run_created_at := 50, run_started_at := Some 60\<rparr>"

definition sample_row :: "Run \<Rightarrow> string \<Rightarrow> int \<Rightarrow> RunRecord" where
  "sample_row run key generation = \<lparr>rr_tenant_id = 1, rr_run = run, rr_lease_generation = generation,
     rr_retry_ready_at = None, rr_idempotency_key = key, rr_creation_hash = replicate 64 CHR ''a'',
     rr_next_event_sequence = 1\<rparr>"

definition sample_lease_row :: RunLeaseRecord where
  "sample_lease_row = \<lparr>le_run_id = 8, le_tenant_id = 1, le_worker_id = ''worker-1'', le_lease_token = 80,
     le_generation = 1, le_acquired_at = 60, le_last_heartbeat_at = 60, le_expires_at = 1000\<rparr>"

definition sample_workspace :: WorkspaceLeaseRecord where
  "sample_workspace = \<lparr>ws_tenant_id = 1, ws_workspace_id = 6, ws_run_id = Some 8,
     ws_worker_id = Some ''worker-1'', ws_run_lease_token = Some 80, ws_lease_token = Some 81,
     ws_generation = 1, ws_acquired_at = Some 60, ws_expires_at = Some 1000\<rparr>"

definition sample_lease :: RunLease where
  "sample_lease = \<lparr>rl_tenant_id = 1, rl_run_id = 8, rl_session_id = 5, rl_workspace_id = 6,
     rl_worker_id = ''worker-1'', rl_route_name = ''coding'', rl_lease_token = 80, rl_generation = 1,
     rl_attempt = 1, rl_execution_epoch = 1, rl_priority = 0, rl_priority_class = INTERACTIVE,
     rl_queued_at = Some 50, rl_acquired_at = 60, rl_expires_at = 1000, rl_checkpoint_id = None,
     rl_cancellation_requested = False, rl_traceparent = None, rl_tracestate = None\<rparr>"

definition empty_db :: database where
  "empty_db = \<lparr>db_workers = [], db_sessions = [], db_runs = [], db_run_leases = [],
     db_workspace_leases = [], db_quotas = [], db_admission = None, db_memory_jobs = [],
     db_messages = [], db_task_plans = [], db_tool_calls = [], db_approvals = [],
     db_checkpoints = [], db_model_calls = [], db_compactions = []\<rparr>"

definition sample_db :: database where
  "sample_db = empty_db\<lparr>db_workers := [sample_worker],
     db_sessions := [sample_session 2 3, sample_session 5 6],
     db_runs := [sample_row sample_run ''key-7'' 0, sample_row sample_active_run ''key-8'' 1],
     db_run_leases := [sample_lease_row],
     db_workspace_leases := [sample_workspace]\<rparr>"

definition sample_quota :: TenantQuota where
  "sample_quota = \<lparr>tq_max_active_runs = 2, tq_max_queued_runs = 10, tq_max_gateway_requests = 4,
     tq_memory_enabled = True\<rparr>"

definition sample_config :: queue_config where
  "sample_config = \<lparr>qc_default_quota = sample_quota,
     qc_admission_policy = \<lparr>qp_global_queue_limit = 100, qp_retry_after_seconds = 1,
       qp_priority_aging_seconds = 300\<rparr>\<rparr>"

definition no_locks :: row_locks where
  "no_locks = \<lparr>lk_runs = (\<lambda>_. False), lk_leases = (\<lambda>_. False), lk_workspaces = (\<lambda>_. False)\<rparr>"

definition sample_env :: environment where
  "sample_env = \<lparr>env_uuid5 = (\<lambda>n s. n + 1000 + length s), env_namespace_url = 0,
     env_digest = (\<lambda>_. replicate 64 CHR ''a''), env_hash = (\<lambda>_. replicate 64 CHR ''b''),
     env_dump_size = (\<lambda>_. 0)\<rparr>"

lemmas sample_defs =
  sample_db_def empty_db_def sample_worker_def sample_session_def sample_row_def sample_run_def
  sample_active_run_def sample_lease_row_def sample_workspace_def

text \<open>An executable form of the field conditions, so that the invariant evaluates.\<close>

lemma run_fields_ok_code [code]:
  "run_fields_ok r \<longleftrightarrow>
     -100 \<le> run_priority r \<and> run_priority r \<le> 100
   \<and> 1 \<le> run_attempt r \<and> 1 \<le> run_execution_epoch r
   \<and> run_execution_epoch r \<le> run_attempt r
   \<and> (case run_assigned_worker_id r of None \<Rightarrow> True | Some w \<Rightarrow> IdentifierString ''assigned_worker_id'' w = Inr w)
   \<and> (case run_traceparent r of None \<Rightarrow> True | Some s \<Rightarrow> traceparent_pattern s)
   \<and> (case run_tracestate r of None \<Rightarrow> True | Some s \<Rightarrow> 1 \<le> length s \<and> length s \<le> 512)"
  by (simp add: run_fields_ok_def split: option.splits)

text \<open>The samples have no model calls.\<close>

definition model_rows_ok :: "ModelCallRecord list \<Rightarrow> bool" where
  [code del]: "model_rows_ok = list_all model_call_row_ok"

lemma model_rows_ok_code [code]: "model_rows_ok [] = True"
  by (simp add: model_rows_ok_def)

declare model_rows_ok_def [symmetric, code_unfold]

lemma sample_inv [simp]: "queue_inv sample_db"
  by code_simp

end
