(* ===== verification/Queue_Properties.thy ===== *)
theory Queue_Properties
  imports Platform_Samples
begin

section \<open>Properties of the run queue\<close>

text \<open>
  What the histories of the platform guarantee about leases: the invariant holds throughout,
  a workspace has one authorized writer, a lost lease is refused by every operation that
  takes one; and what claim, finish, recovery and the snapshot do.
\<close>

subsection \<open>Histories\<close>

text \<open>
  C1: Whatever sequence of admissible operations is performed from a state that satisfies the
  queue invariant - registrations, claims, starts, heartbeats, results, recovery, workspace
  leases, run creation, cancellation, approvals, rewinds and execution writes, each committed
  or rolled back - the invariant holds at the end: all constraints of the database, a
  mirrored lease for every leased or running run and only for those, every workspace writer
  backed by a lease, and no worker with more leases than slots.
\<close>

theorem platform_invariant:
  assumes "queue_inv db" "list_all admissible ops"
  shows "queue_inv (run_ops (platform_step env) ops db)"
  using assms by (rule platform.run_inv)

theorem platform_invariant_witness:
  "queue_inv (run_ops (platform_step sample_env)
     [Claim sample_config no_locks (Some 70) (Some 71) ''worker-1'' (utc 200) 1000, RequestCancel 1 8 (utc 210)]
     sample_db)"
  using platform_invariant [of sample_db
      "[Claim sample_config no_locks (Some 70) (Some 71) ''worker-1'' (utc 200) 1000, RequestCancel 1 8 (utc 210)]"
      sample_env]
  by (simp add: sample_config_def sample_quota_def quota_ok_def)

lemma authorize_sandbox_leaseD:
  assumes "authorize_sandbox_lease tenant run session workspace worker_id token generation d epoch db = Inr ()"
  shows "\<exists>t l r w. normalize_timestamp d = Inr t
    \<and> l \<in> set (db_run_leases db) \<and> r \<in> set (db_runs db) \<and> w \<in> set (db_workspace_leases db)
    \<and> authorized_rows tenant run session workspace worker_id token generation t epoch l r w"
  using assms
  by (auto simp: authorize_sandbox_lease_def bindE_eq_Inr list_ex_iff split: if_splits)

lemma authorized_rowsD:
  assumes "authorized_rows tenant run session workspace worker_id token generation t epoch l r w"
  shows "ws_key w = (tenant, workspace)" "ws_run_id w = Some run" "le_run_id l = run" "rr_id r = run"
    "le_worker_id l = worker_id" "le_lease_token l = token" "le_generation l = generation"
    "run_session_id (rr_run r) = session" "run_execution_epoch (rr_run r) = epoch" "le_tenant_id l = tenant"
  using assms unfolding authorized_rows_def ws_key_def by simp_all

text \<open>
  C3: In every state the platform reaches, at most one caller is authorized to write to a
  workspace: two sandbox requests for the same workspace of a tenant that are both
  authorized, even at different times against that state, name the same run, session,
  worker, lease token, lease generation and execution epoch.
\<close>

theorem sandbox_single_writer:
  assumes "queue_inv db" "list_all admissible ops"
    and "authorize_sandbox_lease tenant run session workspace worker_id token generation d epoch
           (run_ops (platform_step env) ops db) = Inr ()"
    and "authorize_sandbox_lease tenant run' session' workspace worker_id' token' generation' d' epoch'
           (run_ops (platform_step env) ops db) = Inr ()"
  shows "run = run' \<and> session = session' \<and> worker_id = worker_id' \<and> token = token'
    \<and> generation = generation' \<and> epoch = epoch'"
proof -
  let ?db = "run_ops (platform_step env) ops db"
  have inv: "queue_inv ?db" using platform.run_inv [OF assms(1,2)] .
  obtain t l r w where a: "l \<in> set (db_run_leases ?db)" "r \<in> set (db_runs ?db)"
      "w \<in> set (db_workspace_leases ?db)"
      "authorized_rows tenant run session workspace worker_id token generation t epoch l r w"
    using authorize_sandbox_leaseD [OF assms(3)] by blast
  obtain t' l' r' w' where b: "l' \<in> set (db_run_leases ?db)" "r' \<in> set (db_runs ?db)"
      "w' \<in> set (db_workspace_leases ?db)"
      "authorized_rows tenant run' session' workspace worker_id' token' generation' t' epoch' l' r' w'"
    using authorize_sandbox_leaseD [OF assms(4)] by blast
  note A = authorized_rowsD [OF a(4)] and B = authorized_rowsD [OF b(4)]
  have "w = w'" using distinct_eq [OF queue_invD(10) [OF inv] a(3) b(3)] A(1) B(1) by simp
  then have run: "run = run'" using A(2) B(2) by simp
  have "l = l'" using distinct_eq [OF queue_invD(8) [OF inv] a(1) b(1)] A(3) B(3) run by simp
  moreover have "r = r'" using distinct_eq [OF queue_invD(7) [OF inv] a(2) b(2)] A(4) B(4) run by simp
  ultimately show ?thesis using A(5-9) B(5-9) run by simp
qed

lemma sample_authorized:
  "authorize_sandbox_lease 1 8 5 6 ''worker-1'' 80 1 (utc 100) 1 sample_db = Inr ()"
  by code_simp

theorem sandbox_single_writer_witness:
  "authorize_sandbox_lease 1 8 5 6 ''worker-1'' 80 1 (utc 100) 1 sample_db = Inr ()
   \<and> authorize_sandbox_lease 1 7 5 6 ''worker-1'' 80 1 (utc 100) 1 sample_db \<noteq> Inr ()"
  using sandbox_single_writer [of sample_db "[]" 1 7 5 6 "''worker-1''" 80 1 "utc 100" 1 sample_env
      8 5 "''worker-1''" 80 1 "utc 100" 1]
    sample_authorized by auto

text \<open>
  The outcome \<open>refused code\<close>: an error with that code.
\<close>

definition refused :: "string \<Rightarrow> 'a result \<Rightarrow> bool" where
  "refused code r \<longleftrightarrow> (case r of Inl e \<Rightarrow> error_code e = Some code | Inr _ \<Rightarrow> False)"

lemma refused_simps [simp]:
  "refused code (Inl e) \<longleftrightarrow> error_code e = Some code" "\<not> refused code (Inr x)"
  by (simp_all add: refused_def)

lemma lost_matching:
  assumes "lease_is_lost lease db"
  shows "refused ''run_lease_lost'' (assert_matching_run_lease
      (select_one (\<lambda>l. le_lease_token l = rl_lease_token lease) (db_run_leases db)) lease)"
  using assms
  by (auto simp: assert_matching_run_lease_def lease_is_lost_def split: option.splits dest: select_one_Some)

lemma refused_bind: "refused code r \<Longrightarrow> refused code (bindE r f)"
  by (cases r) simp_all

lemma lost_locked:
  "lease_is_lost lease db \<Longrightarrow> refused ''run_lease_lost'' (locked_lease_state db lease)"
  unfolding locked_lease_state_def by (rule refused_bind, rule lost_matching)

lemma lost_active:
  "lease_is_lost lease db \<Longrightarrow> assert_active_run_lease clock lease db = Inl (active_lease_lost lease)"
proof -
  assume "lease_is_lost lease db"
  then have "select_one (\<lambda>l. lease_matches l lease \<and> fst clock < le_expires_at l) (db_run_leases db) = None"
    by (simp add: select_one_None lease_is_lost_def)
  then show ?thesis by (simp add: assert_active_run_lease_def)
qed

lemma lost_unauthorized:
  assumes "lease_is_lost lease db" "normalize_timestamp d = Inr t"
  shows "refused ''sandbox_lease_unauthorized''
    (authorize_sandbox_lease (rl_tenant_id lease) (rl_run_id lease) session workspace (rl_worker_id lease)
       (rl_lease_token lease) (rl_generation lease) d epoch db)"
proof (cases "authorize_sandbox_lease (rl_tenant_id lease) (rl_run_id lease) session workspace
    (rl_worker_id lease) (rl_lease_token lease) (rl_generation lease) d epoch db")
  case (Inl e)
  then show ?thesis
    using assms(2) by (auto simp: authorize_sandbox_lease_def operation_time_def split: if_splits)
next
  case (Inr u)
  then obtain t' l r w where l: "l \<in> set (db_run_leases db)"
    "authorized_rows (rl_tenant_id lease) (rl_run_id lease) session workspace (rl_worker_id lease)
       (rl_lease_token lease) (rl_generation lease) t' epoch l r w"
    using authorize_sandbox_leaseD by (metis old.unit.exhaust)
  from authorized_rowsD [OF l(2)] have "lease_matches l lease" by (simp add: lease_matches_def)
  with assms(1) l(1) show ?thesis by (simp add: lease_is_lost_def)
qed

text \<open>
  C2: A lost lease is fenced off for good. Once the run has reached a lease's generation and
  no lease row matches the lease, then after any further history of the platform - new
  claims of the same run by the same worker included - every operation that takes the lease
  is refused: start, heartbeat, finish and workspace acquisition with \<open>run_lease_lost\<close>, the
  fence of all execution writes, and sandbox requests.
\<close>

theorem lost_lease_refused:
  assumes "queue_inv db" "lease_is_lost lease db" "list_all admissible ops"
    and "normalize_timestamp d = Inr t" "0 < dur" "dur \<le> 3600 * 1000000"
  shows "let db' = run_ops (platform_step env) ops db in
      refused ''run_lease_lost'' (start lease d db')
    \<and> refused ''run_lease_lost'' (heartbeat lease d dur db')
    \<and> refused ''run_lease_lost'' (finish uuid5 lease result d db')
    \<and> refused ''run_lease_lost'' (acquire token lease d dur db')
    \<and> assert_active_run_lease clock lease db' = Inl (active_lease_lost lease)
    \<and> refused ''sandbox_lease_unauthorized''
        (authorize_sandbox_lease (rl_tenant_id lease) (rl_run_id lease) session workspace
           (rl_worker_id lease) (rl_lease_token lease) (rl_generation lease) d epoch db')"
proof -
  let ?db = "run_ops (platform_step env) ops db"
  have lost: "lease_is_lost lease ?db" using fenced.run_inv [of db lease ops env] assms(1-3) by blast
  have x: "operation_time d code = Inr t" "lease_expiry t dur code = Inr (t + dur)" for code
    using assms(4-6) by simp_all
  show ?thesis
    unfolding Let_def start_def heartbeat_def finish_def acquire_def x bindE_simps(2)
    using lost_locked [OF lost] lost_matching [OF lost] lost_active [OF lost] lost_unauthorized [OF lost assms(4)]
    by (intro conjI refused_bind) simp_all
qed

theorem lost_lease_refused_witness:
  "lease_is_lost (sample_lease\<lparr>rl_lease_token := 79\<rparr>) sample_db
   \<and> refused ''run_lease_lost'' (finish (\<lambda>_. 0) (sample_lease\<lparr>rl_lease_token := 79\<rparr>)
       \<lparr>er_status = COMPLETED, er_last_checkpoint_id = None, er_error = None, er_retry_delay_seconds = None\<rparr>
       (utc 100) (run_ops (platform_step sample_env) [RequestCancel 1 8 (utc 90)] sample_db))"
proof -
  have lost: "lease_is_lost (sample_lease\<lparr>rl_lease_token := 79\<rparr>) sample_db"
    by (simp add: lease_is_lost_def lease_matches_def sample_lease_def sample_defs)
  show ?thesis
    using lost_lease_refused [OF sample_inv lost, of "[RequestCancel 1 8 (utc 90)]" "utc 100" 100 1] lost
    unfolding Let_def by simp
qed

subsection \<open>Finishing\<close>

lemma locked_lease_unique:
  assumes inv: "queue_inv db" and L: "locked_lease_state db lease = Inr (l, r, route)"
    and k: "k \<in> set (db_run_leases db)" "lease_matches k lease"
  shows "k = l"
  using distinct_eq [OF queue_invD(9) [OF inv] k(1) locked_lease_stateD(1) [OF L]] k(2)
    locked_lease_stateD [OF L] by (simp add: lease_matches_def)

lemma finished_db_tables:
  "db_runs (finished_db u result t l r db) = put_row rr_id (finished_row result t r) (db_runs db)"
  "db_run_leases (finished_db u result t l r db) =
     delete_where (\<lambda>k. le_run_id k = le_run_id l) (db_run_leases db)"
  by (simp_all add: finished_db_def)

lemma lease_worker_slot:
  assumes inv: "queue_inv db" and l: "l \<in> set (db_run_leases db)"
    and w: "w \<in> set (db_workers db)" "wr_worker_id w = le_worker_id l"
  shows "wr_available_slots w + 1 \<le> wr_total_slots w"
proof -
  have "0 < count_where (\<lambda>k. le_worker_id k = le_worker_id l) (db_run_leases db)"
    using l by (auto simp: count_where_def filter_empty_conv)
  moreover have "wr_available_slots w + worker_load (wr_worker_id w) (db_run_leases db) \<le> wr_total_slots w"
    using lease_invD(5) [OF queue_invD(2) [OF inv]] w(1) by (simp add: slots_ok_def)
  ultimately show ?thesis using w(2) by (simp add: worker_load_def)
qed

lemma returned_slot:
  assumes inv: "queue_inv db" and l: "l \<in> set (db_run_leases db)" and db1: "db_workers db1 = db_workers db"
  shows "\<exists>w \<in> set (db_workers db). wr_worker_id w = le_worker_id l
    \<and> w\<lparr>wr_available_slots := wr_available_slots w + 1\<rparr> \<in> set (db_workers (return_worker_slot (le_worker_id l) db1))"
proof -
  have "le_worker_id l \<in> set (map wr_worker_id (db_workers db))"
    using queue_invD(5) [OF inv] l by (auto simp: foreign_keys_ok_def list_all_iff lease_refers_def)
  then obtain w where sel: "select_one (\<lambda>w. wr_worker_id w = le_worker_id l) (db_workers db) = Some w"
    by (cases "select_one (\<lambda>w. wr_worker_id w = le_worker_id l) (db_workers db)") (auto simp: select_one_None)
  note w = select_one_Some [OF sel]
  have "min (wr_total_slots w) (wr_available_slots w + 1) = wr_available_slots w + 1"
    using lease_worker_slot [OF inv l, of w] w by simp
  then have "db_workers (return_worker_slot (le_worker_id l) db1) =
      put_row wr_worker_id (w\<lparr>wr_available_slots := wr_available_slots w + 1\<rparr>) (db_workers db)"
    by (simp add: return_worker_slot_def db1 sel)
  then show ?thesis using w by (intro bexI [of _ w]) (auto simp: set_put_row intro: rev_image_eqI)
qed

text \<open>
  C8: A committed result ends the lease. The run takes the status the worker reported, or
  \<open>cancelled\<close> if its cancellation was requested in the meantime; the run has no lease left
  and the lease that was used is lost; no workspace is held through it; and its worker has
  one free slot more.
\<close>

theorem finish_releases:
  assumes "queue_inv db" "execution_result_valid result"
    and "finish uuid5 lease result d db = Inr (run, db')"
  shows "(\<exists>row row'. run_row_of db (rl_tenant_id lease) (rl_run_id lease) = Some row
        \<and> run_status run = (if run_cancellation_requested (rr_run row) then CANCELLED else er_status result)
        \<and> run_row_of db' (rl_tenant_id lease) (rl_run_id lease) = Some row' \<and> rr_run row' = run)
    \<and> (\<forall>l \<in> set (db_run_leases db'). le_run_id l \<noteq> rl_run_id lease) \<and> lease_is_lost lease db'
    \<and> (\<forall>w \<in> set (db_workspace_leases db'). ws_run_lease_token w \<noteq> Some (rl_lease_token lease))
    \<and> (\<exists>w \<in> set (db_workers db). wr_worker_id w = rl_worker_id lease
        \<and> w\<lparr>wr_available_slots := wr_available_slots w + 1\<rparr> \<in> set (db_workers db'))"
proof -
  obtain t l r route where L: "locked_lease_state db lease = Inr (l, r, route)"
    and run: "run = finished_run result t (rr_run r)"
    and db': "db' = finished_db uuid5 result t l r db"
    using finish_ok_cases [OF assms] by blast
  have inv': "queue_inv db'" using finish_inv [OF assms] .
  note D = locked_lease_stateD [OF L]
  have ids: "le_run_id l = rl_run_id lease" "le_lease_token l = rl_lease_token lease"
    "le_worker_id l = rl_worker_id lease" using D(2) by (simp_all add: lease_matches_def)
  let ?row' = "finished_row result t r"
  have row': "?row' \<in> set (db_runs db')"
    using D(3) by (auto simp: db' finished_db_tables set_put_row image_iff)
  have a: "run_row_of db (rl_tenant_id lease) (rl_run_id lease) = Some r"
    using D(3-5) by (simp add: run_row_of_iff [OF assms(1)])
  have b: "run_row_of db' (rl_tenant_id lease) (rl_run_id lease) = Some ?row'"
    using row' D(4,5) by (simp add: run_row_of_iff [OF inv'])
  have leases: "\<forall>k \<in> set (db_run_leases db'). le_run_id k \<noteq> rl_run_id lease"
    by (simp add: db' finished_db_tables set_delete_where ids)
  have lost: "lease_is_lost lease db'"
    unfolding lease_is_lost_def using leases D(5,6) by (intro conjI bexI [OF _ row']) (auto simp: lease_matches_def)
  let ?db1 = "if finish_status (rr_run r) result = COMPLETED
    then enqueue_memory_extraction uuid5 ?row' t (put_run ?row' db) else put_run ?row' db"
  have ws: "db_workspace_leases ?db1 = db_workspace_leases db" by simp
  have "db_workspace_leases db' = db_workspace_leases (release_workspace_for_run l ?db1)"
    by (simp add: db' finished_db_def)
  then have "\<forall>w \<in> set (db_workspace_leases db'). ws_run_lease_token w \<noteq> Some (rl_lease_token lease)"
    using release_workspace_rows [OF assms(1) ws] ids(2) by fastforce
  moreover have "\<exists>w \<in> set (db_workers db). wr_worker_id w = rl_worker_id lease
      \<and> w\<lparr>wr_available_slots := wr_available_slots w + 1\<rparr> \<in> set (db_workers db')"
    using returned_slot [OF assms(1) D(1), of "delete_lease l (release_workspace_for_run l ?db1)"] ids(3)
    by (simp add: db' finished_db_def)
  moreover have "run_status run = (if run_cancellation_requested (rr_run r) then CANCELLED else er_status result)"
    by (simp add: run finish_status_def)
  moreover have "rr_run ?row' = run" by (simp add: run finished_row_def)
  ultimately show ?thesis using a b leases lost by blast
qed

definition sample_result :: RunExecutionResult where
  "sample_result = \<lparr>er_status = COMPLETED, er_last_checkpoint_id = None, er_error = None,
     er_retry_delay_seconds = None\<rparr>"

lemma sample_result_valid [simp]: "execution_result_valid sample_result"
  by (simp add: execution_result_valid_def execution_result_model_validate_def sample_result_def)

lemma run_has_session:
  assumes inv: "queue_inv db" and r: "r \<in> set (db_runs db)"
  obtains s where "run_session db r = Some s"
proof -
  have "list_all (\<lambda>(t, _, s, w). (t, s, w) \<in> set (map session_key (db_sessions db))) (map run_key (db_runs db))"
    using queue_invD(5) [OF inv] by (simp add: foreign_keys_ok_def)
  then have "(rr_tenant_id r, run_session_id (rr_run r), run_workspace_id (rr_run r))
      \<in> session_key ` set (db_sessions db)"
    using r by (auto simp: list_all_iff run_key_def)
  then show ?thesis
    using that by (cases "run_session db r") (auto simp: run_session_def select_one_None session_key_def)
qed

lemma select_one_distinct:
  assumes "distinct (map key t)" "x \<in> set t" "p x" "\<And>y. p y \<Longrightarrow> key y = key x"
  shows "select_one p t = Some x"
proof (cases "select_one p t")
  case None
  with assms(2,3) show ?thesis by (auto simp: select_one_None)
next
  case (Some y)
  note y = select_one_Some [OF this]
  then have "y = x" using distinct_eq [OF assms(1) _ assms(2)] assms(4) by blast
  with Some show ?thesis by simp
qed

lemma locked_lease_stateI:
  assumes inv: "queue_inv db" and l: "l \<in> set (db_run_leases db)" "lease_matches l lease"
    and row: "run_row_of db (rl_tenant_id lease) (rl_run_id lease) = Some row"
      "run_execution_epoch (rr_run row) = rl_execution_epoch lease"
  shows "\<exists>route. locked_lease_state db lease = Inr (l, row, route)"
proof -
  note R = run_row_of_Some [OF row(1)]
  have m: "mirrors row l" using mirror_unique [OF inv R(1) _ l(1)] R(3) l(2) by (simp add: lease_matches_def)
  obtain s where s: "run_session db row = Some s" using run_has_session [OF inv R(1)] .
  have "select_one (\<lambda>k. le_lease_token k = rl_lease_token lease) (db_run_leases db) = Some l"
    by (rule select_one_distinct [OF queue_invD(9) [OF inv] l(1)]) (use l(2) in \<open>simp_all add: lease_matches_def\<close>)
  moreover have "select_one (\<lambda>r. rr_tenant_id r = rl_tenant_id lease \<and> rr_id r = rl_run_id lease
      \<and> rr_lease_generation r = rl_generation lease
      \<and> run_assigned_worker_id (rr_run r) = Some (rl_worker_id lease)
      \<and> run_execution_epoch (rr_run r) = rl_execution_epoch lease \<and> run_session db r \<noteq> None) (db_runs db) = Some row"
    by (rule select_one_distinct [OF queue_invD(7) [OF inv] R(1)])
      (use R m l(2) row(2) s in \<open>simp_all add: mirrors_def lease_matches_def\<close>)
  ultimately show ?thesis
    using l(2) s by (simp add: locked_lease_state_def assert_matching_run_lease_def)
qed

lemma finish_commits:
  assumes "queue_inv db" "execution_result_valid result" "normalize_timestamp d = Inr t"
    and "l \<in> set (db_run_leases db)" "lease_matches l lease" "t < le_expires_at l"
    and "run_row_of db (rl_tenant_id lease) (rl_run_id lease) = Some row" "rr_status row = RUNNING"
      "run_execution_epoch (rr_run row) = rl_execution_epoch lease" "comparison_start (rr_run row) \<le> t"
    and "case er_last_checkpoint_id result of None \<Rightarrow> True
      | Some c \<Rightarrow> (rl_tenant_id lease, rl_run_id lease, c)
          \<in> (\<lambda>k. (cr_tenant_id k, cp_run_id (cr_checkpoint k), cp_id (cr_checkpoint k))) ` set (db_checkpoints db)"
    and "memory_job_fresh uuid5 row db"
  shows "\<exists>run db'. finish uuid5 lease result d db = Inr (run, db')"
proof -
  note R = run_row_of_Some [OF assms(7)]
  obtain route where L: "locked_lease_state db lease = Inr (l, row, route)"
    using locked_lease_stateI [OF assms(1,4,5,7,9)] by blast
  have v: "run_valid (rr_run row)" using queue_inv_run_valid [OF assms(1) R(1)] .
  have st: "finish_status (rr_run row) result \<in> RUN_STATUS_TRANSITIONS (rr_status row)"
    using finish_status_valid(1) [OF assms(2), of "rr_run row"] assms(8) by auto
  note E = finish_eq [OF assms(3) L assms(6) v st finish_status_valid(3) [OF assms(2)] assms(10)]
  have "constraints_ok (finished_db uuid5 result t l row db)"
    by (rule constraints_finished [OF assms(1) R(1) assms(2) E(2) _ assms(12)]) (unfold R(2,3), rule assms(11))
  then show ?thesis by (simp add: E(1) flush_def)
qed

text \<open>
  C16: A worker that holds a running run's lease can always finish it: if a lease row matches
  its lease and has not expired, the run is running in the lease's epoch and was not started
  in the future, and the result is valid and names no unknown checkpoint, then \<open>finish\<close>
  commits. The identifier of the memory job must not collide with another job's.
\<close>

theorem finish_goes_through:
  assumes "queue_inv db" "execution_result_valid result" "normalize_timestamp d = Inr t"
    and "l \<in> set (db_run_leases db)" "lease_matches l lease" "t < le_expires_at l"
    and "run_row_of db (rl_tenant_id lease) (rl_run_id lease) = Some row" "rr_status row = RUNNING"
      "run_execution_epoch (rr_run row) = rl_execution_epoch lease" "comparison_start (rr_run row) \<le> t"
    and "case er_last_checkpoint_id result of None \<Rightarrow> True
      | Some c \<Rightarrow> (rl_tenant_id lease, rl_run_id lease, c)
          \<in> (\<lambda>k. (cr_tenant_id k, cp_run_id (cr_checkpoint k), cp_id (cr_checkpoint k))) ` set (db_checkpoints db)"
    and "memory_job_fresh uuid5 row db"
  shows "\<exists>run db'. finish uuid5 lease result d db = Inr (run, db')"
  using assms by (rule finish_commits)

theorem finish_goes_through_witness:
  "\<exists>run db'. finish (\<lambda>_. 0) sample_lease sample_result (utc 100) sample_db = Inr (run, db')"
  by (rule finish_goes_through [OF sample_inv sample_result_valid, of "utc 100" 100 sample_lease_row sample_lease
        "sample_row sample_active_run ''key-8'' 1"])
    (simp_all add: sample_lease_def sample_defs lease_matches_def run_row_of_def comparison_start_def
      memory_job_fresh_def sample_result_def)

lemma sample_finish:
  "\<exists>run db'. finish (\<lambda>_. 0) sample_lease sample_result (utc 100) sample_db = Inr (run, db')"
  by (rule finish_commits [OF sample_inv sample_result_valid, of "utc 100" 100 sample_lease_row sample_lease
        "sample_row sample_active_run ''key-8'' 1"])
    (simp_all add: sample_lease_def sample_defs lease_matches_def run_row_of_def comparison_start_def
      memory_job_fresh_def sample_result_def)

theorem finish_releases_witness:
  "\<exists>run db'. finish (\<lambda>_. 0) sample_lease sample_result (utc 100) sample_db = Inr (run, db')
     \<and> lease_is_lost sample_lease db'"
  using sample_finish finish_releases [OF sample_inv sample_result_valid] by blast

subsection \<open>Claiming\<close>

lemma claimed_lease_matches:
  assumes named: "worker_named i"
    and lease: "run_lease_domain (claim_lease_row i t x lt row) r route = Inr lease"
  shows "lease_matches (claim_lease_row i t x lt row) lease" "rl_generation lease = rr_lease_generation row + 1"
    "rl_run_id lease = rr_id row" "rl_tenant_id lease = rr_tenant_id row" "rl_worker_id lease = i"
    "rl_lease_token lease = lt" "rl_expires_at lease = x"
proof -
  note F = run_lease_domain_fields [OF lease]
  have "IdentifierString ''worker_id'' i = Inr i"
    using named IdentifierString_py_strip [of i] by (simp add: worker_named_def)
  then have "rl_worker_id lease = i" using F(11) by (simp add: claim_lease_row_def)
  then show "lease_matches (claim_lease_row i t x lt row) lease" "rl_generation lease = rr_lease_generation row + 1"
    "rl_run_id lease = rr_id row" "rl_tenant_id lease = rr_tenant_id row" "rl_worker_id lease = i"
    "rl_lease_token lease = lt" "rl_expires_at lease = x"
    using F by (simp_all add: lease_matches_def claim_lease_row_def)
qed

text \<open>
  C6: What a claim hands out. The run is eligible - queued, not cancelled, its workspace
  free, its tenant below its limit of active runs, its row not locked by another transaction
  - and no eligible run comes before it in the order of class, age, priority, creation and
  id. The lease carries the run's next generation and the caller's worker id; the run
  is \<open>leased\<close> at that generation, the workspace is held through the lease, the worker has
  one slot less, and the tenant's active runs are still within its limit.
\<close>

theorem claim_correct:
  assumes "queue_inv db" "quota_ok (qc_default_quota cfg)"
    and "claim cfg locks tok1 tok2 worker_id d dur db = Inr (Some lease, db')"
  shows "\<exists>t row row' worker.
      normalize_timestamp d = Inr t \<and> row \<in> set (db_runs db) \<and> eligible cfg locks db row
    \<and> (\<forall>r \<in> set (db_runs db). eligible cfg locks db r \<longrightarrow>
         claim_order (qc_admission_policy cfg) t row \<le> claim_order (qc_admission_policy cfg) t r)
    \<and> rl_run_id lease = rr_id row \<and> rl_tenant_id lease = rr_tenant_id row \<and> rl_worker_id lease = worker_id
    \<and> rl_generation lease = rr_lease_generation row + 1 \<and> rl_expires_at lease = t + dur
    \<and> row' \<in> set (db_runs db') \<and> rr_id row' = rr_id row \<and> rr_status row' = LEASED
    \<and> rr_lease_generation row' = rl_generation lease
    \<and> (\<exists>l \<in> set (db_run_leases db'). lease_matches l lease)
    \<and> (\<exists>w \<in> set (db_workspace_leases db'). ws_key w = run_workspace_key row
         \<and> ws_run_lease_token w = Some (rl_lease_token lease))
    \<and> worker \<in> set (db_workers db) \<and> wr_worker_id worker = worker_id \<and> wr_status worker = WORKER_ACTIVE
    \<and> 0 < wr_available_slots worker
    \<and> worker\<lparr>wr_available_slots := wr_available_slots worker - 1\<rparr> \<in> set (db_workers db')
    \<and> tenant_active db' (rr_tenant_id row) \<le> tenant_limit cfg db (rr_tenant_id row)"
proof -
  obtain t lt wt worker row route w db1 where t: "normalize_timestamp d = Inr t"
    and wid: "wr_worker_id worker = worker_id"
    and c: "claims cfg locks t (t + dur) lt wt worker row route w db db1 db'"
    and lease: "run_lease_domain (claim_lease_row worker_id t (t + dur) lt row)
        (claimed_run worker_id t (t + dur) row) route = Inr lease"
    using claim_ok_cases [OF assms] by auto
  note V = claims_valid [OF assms(1) c]
  have worker: "worker \<in> set (db_workers db)" "wr_status worker = WORKER_ACTIVE"
    and sel: "claim_selects cfg locks t db row route w" and touch: "claim_touches db db1"
    and db': "db' = claimed_db worker t (t + dur) lt wt row w db1"
    using c by (simp_all add: claims_def)
  note T = claim_touches_tables [OF touch]
  have row: "row \<in> set (db_runs db)" "eligible cfg locks db row"
    and best: "\<forall>r \<in> set (db_runs db). eligible cfg locks db r \<longrightarrow>
         claim_order (qc_admission_policy cfg) t row \<le> claim_order (qc_admission_policy cfg) t r"
    using sel by (simp_all add: claim_selects_def)
  have named: "worker_named worker_id" using worker_row_named [OF assms(1) worker(1)] wid by simp
  note M = claimed_lease_matches [OF named lease]
  let ?row' = "claimed_run worker_id t (t + dur) row"
  have row': "?row' \<in> set (db_runs db')"
    using V(1) wid by (auto simp: db' claimed_db_def set_put_row image_iff)
  have st: "rr_status ?row' = LEASED" "rr_lease_generation ?row' = rr_lease_generation row + 1"
    by (simp_all add: claimed_run_def)
  have "claim_lease_row worker_id t (t + dur) lt row \<in> set (db_run_leases db')"
    by (simp add: db' claimed_db_def wid)
  then have l: "\<exists>l \<in> set (db_run_leases db'). lease_matches l lease" using M(1) by blast
  let ?w' = "claim_workspace_row worker_id t (t + dur) lt wt row w"
  have k: "ws_key ?w' = ws_key w" by (simp add: claim_workspace_row_def ws_key_def)
  then have "?w' \<in> set (db_workspace_leases db')"
    using V(7) by (auto simp: db' claimed_db_def wid set_put_row image_iff)
  then have w: "\<exists>w \<in> set (db_workspace_leases db'). ws_key w = run_workspace_key row
      \<and> ws_run_lease_token w = Some (rl_lease_token lease)"
    using k V(8) M(6) by (intro bexI [of _ ?w']) (simp_all add: claim_workspace_row_def)
  have slot: "worker\<lparr>wr_available_slots := wr_available_slots worker - 1\<rparr> \<in> set (db_workers db')"
    using V(4) by (auto simp: db' claimed_db_def set_put_row image_iff)
  have "tenant_active db' (rr_tenant_id row) = tenant_active db (rr_tenant_id row) + 1"
    using T(4) by (simp add: tenant_active_def db' claimed_db_def count_where_def claim_lease_row_def)
  then have "tenant_active db' (rr_tenant_id row) \<le> tenant_limit cfg db (rr_tenant_id row)"
    using row(2) by (simp add: eligible_def)
  then show ?thesis
    using t row best M(2-5,7) row' st l w worker wid V(5) slot
    by (intro exI [of _ t] exI [of _ row] exI [of _ ?row'] exI [of _ worker] conjI) simp_all
qed

lemma sample_quota_ok [simp]: "quota_ok (qc_default_quota sample_config)"
  by (simp add: sample_config_def sample_quota_def quota_ok_def)

theorem claim_correct_witness:
  "\<exists>lease db'. claim sample_config no_locks (Some 70) (Some 71) ''worker-1'' (utc 200) 1000 sample_db
     = Inr (Some lease, db') \<and> rl_run_id lease = 7 \<and> rl_generation lease = 1"
proof -
  have "case claim sample_config no_locks (Some 70) (Some 71) ''worker-1'' (utc 200) 1000 sample_db of
      Inr (Some lease, db') \<Rightarrow> True | _ \<Rightarrow> False"
    by code_simp
  then obtain lease db' where
    c: "claim sample_config no_locks (Some 70) (Some 71) ''worker-1'' (utc 200) 1000 sample_db = Inr (Some lease, db')"
    by (auto split: sum.splits option.splits)
  obtain row where "row \<in> set (db_runs sample_db)" "eligible sample_config no_locks sample_db row"
    "rl_run_id lease = rr_id row" "rl_generation lease = rr_lease_generation row + 1"
    using claim_correct [OF sample_inv sample_quota_ok c] by blast
  then have "rl_run_id lease = 7 \<and> rl_generation lease = 1"
    by (auto simp: eligible_def claimable_def sample_defs)
  with c show ?thesis by blast
qed

text \<open>
  C17: A claim that returns nothing has missed nothing: if the worker is active with a free
  slot, and at most 1000 runs are candidates for the loop, then no run is eligible.
\<close>

theorem claim_none_complete:
  assumes "queue_inv db" "quota_ok (qc_default_quota cfg)"
    and "claim cfg locks tok1 tok2 worker_id d dur db = Inr (None, db')"
    and "worker \<in> set (db_workers db)" "wr_worker_id worker = worker_id"
      "wr_status worker = WORKER_ACTIVE" "0 < wr_available_slots worker"
    and "count_where (\<lambda>r. claimable db r \<and> \<not> lk_runs locks (rr_id r)) (db_runs db) \<le> MAX_CLAIM_CANDIDATES"
  shows "\<forall>r \<in> set (db_runs db). \<not> eligible cfg locks db r"
proof -
  have sel: "select_one (\<lambda>w. wr_worker_id w = worker_id) (db_workers db) = Some worker"
    using select_one_key [OF queue_invD(6) [OF assms(1)] assms(4)] assms(5) by simp
  obtain t where t: "normalize_timestamp d = Inr t" "0 < dur" "dur \<le> 3600 * 1000000"
    using assms(3) by (auto simp: claim_def bindE_eq_Inr)
  obtain res db1 where loop: "claim_loop cfg locks t MAX_CLAIM_CANDIDATES [] db = Inr (res, db1)"
    and none: "res = None \<Longrightarrow> (\<forall>r \<in> set (db_runs db). \<not> eligible cfg locks db r)"
    using claim_loop_spec [OF queue_invD(7) [OF assms(1)], of "[]" cfg locks t MAX_CLAIM_CANDIDATES] assms(8)
    by fastforce
  have "res = None"
    using assms(3,6,7) t sel loop
    by (cases res) (auto simp: claim_def bindE_eq_Inr Let_def split: if_splits)
  then show ?thesis by (rule none)
qed

definition sample_busy :: database where
  "sample_busy = sample_db\<lparr>db_runs := [sample_row (sample_run\<lparr>run_session_id := 5, run_workspace_id := 6\<rparr>) ''key-7'' 0,
     sample_row sample_active_run ''key-8'' 1]\<rparr>"

lemma sample_busy_inv [simp]: "queue_inv sample_busy"
  by code_simp

theorem claim_none_complete_witness:
  "\<exists>db'. claim sample_config no_locks (Some 70) (Some 71) ''worker-1'' (utc 200) 1000 sample_busy = Inr (None, db')
     \<and> \<not> eligible sample_config no_locks sample_busy
           (sample_row (sample_run\<lparr>run_session_id := 5, run_workspace_id := 6\<rparr>) ''key-7'' 0)"
proof -
  have "case claim sample_config no_locks (Some 70) (Some 71) ''worker-1'' (utc 200) 1000 sample_busy of
      Inr (None, db') \<Rightarrow> True | _ \<Rightarrow> False"
    by code_simp
  then obtain db' where
    c: "claim sample_config no_locks (Some 70) (Some 71) ''worker-1'' (utc 200) 1000 sample_busy = Inr (None, db')"
    by (auto split: sum.splits option.splits)
  have "\<forall>r \<in> set (db_runs sample_busy). \<not> eligible sample_config no_locks sample_busy r"
    by (rule claim_none_complete [OF sample_busy_inv sample_quota_ok c, of sample_worker])
      (simp_all add: sample_busy_def sample_defs claimable_def MAX_CLAIM_CANDIDATES_def)
  with c show ?thesis by (simp add: sample_busy_def)
qed



lemma age_boost_range: "0 \<le> age_boost policy t c \<and> age_boost policy t c \<le> 2"
  by (simp add: age_boost_def)

text \<open>
  C34: Aging does not lift a run over a higher class of higher priority: an evaluation run
  comes after every interactive run of greater priority, whatever the ages of the two, so
  a steady supply of such runs keeps it waiting for ever. A run that has waited two aging
  periods does come before a fresh interactive run of the same priority if it is older.
\<close>

theorem aging_is_bounded:
  assumes "run_priority_class (rr_run low) = EVALUATION" "run_priority_class (rr_run high) = INTERACTIVE"
  shows "(run_priority (rr_run low) < run_priority (rr_run high) \<longrightarrow>
      claim_order policy t high < claim_order policy t low)
    \<and> (run_priority (rr_run low) = run_priority (rr_run high)
        \<and> run_created_at (rr_run low) < run_created_at (rr_run high)
        \<and> age_boost policy t (run_created_at (rr_run low)) = 2
        \<and> age_boost policy t (run_created_at (rr_run high)) = 0 \<longrightarrow>
      claim_order policy t low < claim_order policy t high)"
proof -
  have "age_boost policy t (run_created_at (rr_run low)) \<le> 2" "0 \<le> age_boost policy t (run_created_at (rr_run high))"
    using age_boost_range by blast+
  then show ?thesis using assms by (simp add: claim_order_def less_list_code) linarith
qed

theorem aging_is_bounded_witness:
  "claim_order (qc_admission_policy sample_config) 1000000000 (sample_row (sample_run\<lparr>run_priority := 1\<rparr>) ''k'' 0)
   < claim_order (qc_admission_policy sample_config) 1000000000
       (sample_row (sample_run\<lparr>run_priority_class := EVALUATION, run_created_at := 0\<rparr>) ''k'' 0)"
  using aging_is_bounded [of "sample_row (sample_run\<lparr>run_priority_class := EVALUATION, run_created_at := 0\<rparr>) ''k'' 0"
      "sample_row (sample_run\<lparr>run_priority := 1\<rparr>) ''k'' 0"]
  by (simp add: sample_row_def sample_run_def)

subsection \<open>Recovery\<close>

definition expired_at :: "row_locks \<Rightarrow> timestamp \<Rightarrow> RunLeaseRecord \<Rightarrow> bool" where
  "expired_at locks t l \<longleftrightarrow> le_expires_at l \<le> t \<and> \<not> lk_leases locks (le_run_id l)"

definition retry_at :: "row_locks \<Rightarrow> timestamp \<Rightarrow> RunRecord \<Rightarrow> bool" where
  "retry_at locks t r \<longleftrightarrow> retry_due t r \<and> \<not> lk_runs locks (rr_id r)"

lemma due_all:
  assumes "count_where (retry_at locks t) (db_runs db) + count_where (expired_at locks t) (db_run_leases db) \<le> nat n"
    and "1 \<le> n"
  shows "set (due_retries locks t n db) = {r \<in> set (db_runs db). retry_at locks t r}"
    and "set (due_leases locks t n db) = {l \<in> set (db_run_leases db). expired_at locks t l}"
proof -
  have r: "(\<lambda>r. retry_due t r \<and> \<not> lk_runs locks (rr_id r)) = retry_at locks t"
    and l: "(\<lambda>l. le_expires_at l \<le> t \<and> \<not> lk_leases locks (le_run_id l)) = expired_at locks t"
    by (simp_all add: fun_eq_iff retry_at_def expired_at_def)
  show "set (due_retries locks t n db) = {r \<in> set (db_runs db). retry_at locks t r}"
    unfolding due_retries_def r by (rule select_ordered_all) (use assms(1) in linarith)
  have "length (due_retries locks t n db) \<le> count_where (retry_at locks t) (db_runs db)"
    by (simp add: due_retries_def r select_ordered_def count_where_def)
  then have "count_where (expired_at locks t) (db_run_leases db)
      \<le> nat (max 0 (n - int (length (due_retries locks t n db))))"
    using assms by linarith
  then show "set (due_leases locks t n db) = {l \<in> set (db_run_leases db). expired_at locks t l}"
    unfolding due_leases_def l by (rule select_ordered_all)
qed

text \<open>
  C7: Recovery finds every abandoned run. If at most \<open>n\<close> retries and leases are due, a call
  of \<open>recover_expired\<close> commits; afterwards no expired lease is left but those another
  transaction has locked, every live lease is kept, a worker's expired lease is lost, the
  run of an expired lease is queued for another attempt in the same epoch - or cancelled, if
  that was requested - and every due retry is queued.
\<close>

theorem recovery_complete:
  assumes "queue_inv db" "normalize_timestamp d = Inr t" "1 \<le> n" "n \<le> MAX_RECOVERY_RUNS"
    and "count_where (retry_at locks t) (db_runs db) + count_where (expired_at locks t) (db_run_leases db) \<le> nat n"
    and "\<forall>r \<in> set (db_runs db). comparison_start (rr_run r) \<le> t"
  shows "\<exists>rs db'. recover_expired locks d (PyInt n) db = Inr (rs, db')
    \<and> (\<forall>l \<in> set (db_run_leases db'). le_expires_at l \<le> t \<longrightarrow> lk_leases locks (le_run_id l))
    \<and> (\<forall>l \<in> set (db_run_leases db). t < le_expires_at l \<longrightarrow> l \<in> set (db_run_leases db'))
    \<and> (\<forall>l \<in> set (db_run_leases db). \<forall>lease. expired_at locks t l \<and> lease_matches l lease \<longrightarrow> lease_is_lost lease db')
    \<and> (\<forall>r \<in> set (db_runs db). \<forall>l \<in> set (db_run_leases db). le_run_id l = rr_id r \<and> expired_at locks t l \<longrightarrow>
         (\<exists>r' \<in> set (db_runs db'). rr_id r' = rr_id r
            \<and> run_execution_epoch (rr_run r') = run_execution_epoch (rr_run r)
            \<and> (if run_cancellation_requested (rr_run r) then rr_status r' = CANCELLED
               else rr_status r' = QUEUED \<and> run_attempt (rr_run r') = run_attempt (rr_run r) + 1)))
    \<and> (\<forall>r \<in> set (db_runs db). retry_at locks t r \<longrightarrow>
         (\<exists>r' \<in> set (db_runs db'). rr_id r' = rr_id r \<and> rr_status r' = QUEUED))"
proof -
  note due = due_all [OF assms(5,3)]
  obtain rs db' where ok: "recover_expired locks d (PyInt n) db = Inr (rs, db')" and inv': "queue_inv db'"
    and runs: "db_runs db' = map (recovery_row locks t n db) (db_runs db)"
    and leases: "db_run_leases db' =
        delete_where (\<lambda>k. le_run_id k \<in> le_run_id ` set (due_leases locks t n db)) (db_run_leases db)"
    using recover_expired_core [where locks = locks, OF assms(1-4)] assms(6) by blast
  have left: "l \<in> set (db_run_leases db') \<longleftrightarrow> l \<in> set (db_run_leases db) \<and> \<not> expired_at locks t l" for l
    using distinct_eq [OF queue_invD(8) [OF assms(1)]] by (auto simp: leases set_delete_where due)
  have moved: "\<exists>r' \<in> set (db_runs db'). r' = recovery_row locks t n db r" if "r \<in> set (db_runs db)" for r
    using that by (simp add: runs)
  have expired: "recovery_row locks t n db r = recovered_row t r"
    if "r \<in> set (db_runs db)" "l \<in> set (db_run_leases db)" "le_run_id l = rr_id r" "expired_at locks t l" for r l
  proof -
    have "rr_id r \<in> le_run_id ` set (due_leases locks t n db)"
      unfolding due using that by (auto intro: rev_image_eqI)
    moreover from this have "r \<notin> set (due_retries locks t n db)" using due_disjoint [OF assms(1)] by blast
    ultimately show ?thesis by (simp add: recovery_row_def)
  qed
  have lost: "lease_is_lost lease db'"
    if l: "l \<in> set (db_run_leases db)" "expired_at locks t l" "lease_matches l lease" for l lease
  proof -
    obtain r where r: "r \<in> set (db_runs db)" "mirrors r l" using lease_mirror [OF assms(1) l(1)] by blast
    have "recovered_row t r \<in> set (db_runs db')"
      using moved [OF r(1)] expired [OF r(1) l(1) _ l(2)] r(2) by (simp add: mirrors_def)
    moreover have "\<not> lease_matches k lease" if "k \<in> set (db_run_leases db')" for k
      using that l distinct_eq [OF queue_invD(8) [OF assms(1)], of k l] by (auto simp: left lease_matches_def)
    ultimately show ?thesis
      using r(2) l(3) unfolding lease_is_lost_def
      by (intro conjI bexI [of _ "recovered_row t r"]) (auto simp: mirrors_def lease_matches_def)
  qed
  have requeued: "recovery_row locks t n db r = requeued_row t r"
    if "r \<in> set (db_runs db)" "retry_at locks t r" for r
    using that by (simp add: recovery_row_def due)
  have none: "\<forall>l \<in> set (db_run_leases db'). le_expires_at l \<le> t \<longrightarrow> lk_leases locks (le_run_id l)"
    and kept: "\<forall>l \<in> set (db_run_leases db). t < le_expires_at l \<longrightarrow> l \<in> set (db_run_leases db')"
    using left by (auto simp: expired_at_def)
  have again: "\<exists>r' \<in> set (db_runs db'). rr_id r' = rr_id r
      \<and> run_execution_epoch (rr_run r') = run_execution_epoch (rr_run r)
      \<and> (if run_cancellation_requested (rr_run r) then rr_status r' = CANCELLED
         else rr_status r' = QUEUED \<and> run_attempt (rr_run r') = run_attempt (rr_run r) + 1)"
    if "r \<in> set (db_runs db)" "l \<in> set (db_run_leases db)" "le_run_id l = rr_id r \<and> expired_at locks t l" for r l
    using moved [OF that(1)] expired [OF that(1,2)] that(3) by (auto intro: bexI [of _ "recovered_row t r"])
  have retried: "\<exists>r' \<in> set (db_runs db'). rr_id r' = rr_id r \<and> rr_status r' = QUEUED"
    if "r \<in> set (db_runs db)" "retry_at locks t r" for r
    using moved [OF that(1)] requeued [OF that] by (auto intro: bexI [of _ "requeued_row t r"])
  show ?thesis
    using ok none kept lost again retried by (intro exI [of _ rs] exI [of _ db'] conjI ballI allI impI) blast+
qed

theorem recovery_complete_witness:
  "\<exists>rs db'. recover_expired no_locks (utc 2000) (PyInt 10) sample_db = Inr (rs, db')
     \<and> lease_is_lost sample_lease db' \<and> (\<exists>r' \<in> set (db_runs db'). rr_id r' = 8 \<and> rr_status r' = QUEUED)"
proof -
  have l: "sample_lease_row \<in> set (db_run_leases sample_db)" "expired_at no_locks 2000 sample_lease_row"
    "lease_matches sample_lease_row sample_lease"
    by (simp_all add: sample_defs sample_lease_def expired_at_def no_locks_def lease_matches_def)
  have r: "sample_row sample_active_run ''key-8'' 1 \<in> set (db_runs sample_db)"
    "le_run_id sample_lease_row = rr_id (sample_row sample_active_run ''key-8'' 1)"
    "\<not> run_cancellation_requested (rr_run (sample_row sample_active_run ''key-8'' 1))"
    "rr_id (sample_row sample_active_run ''key-8'' 1) = 8"
    by (simp_all add: sample_defs)
  have few: "count_where (retry_at no_locks 2000) (db_runs sample_db)
      + count_where (expired_at no_locks 2000) (db_run_leases sample_db) \<le> nat 10"
    and times: "\<forall>r \<in> set (db_runs sample_db). comparison_start (rr_run r) \<le> 2000"
    by (simp_all add: sample_defs retry_at_def expired_at_def retry_due_def comparison_start_def)
  obtain rs db' where ok: "recover_expired no_locks (utc 2000) (PyInt 10) sample_db = Inr (rs, db')"
    and lost: "\<forall>l \<in> set (db_run_leases sample_db). \<forall>lease.
         expired_at no_locks 2000 l \<and> lease_matches l lease \<longrightarrow> lease_is_lost lease db'"
    and runs: "\<forall>r \<in> set (db_runs sample_db). \<forall>l \<in> set (db_run_leases sample_db).
         le_run_id l = rr_id r \<and> expired_at no_locks 2000 l \<longrightarrow>
         (\<exists>r' \<in> set (db_runs db'). rr_id r' = rr_id r
            \<and> run_execution_epoch (rr_run r') = run_execution_epoch (rr_run r)
            \<and> (if run_cancellation_requested (rr_run r) then rr_status r' = CANCELLED
               else rr_status r' = QUEUED \<and> run_attempt (rr_run r') = run_attempt (rr_run r) + 1))"
    using recovery_complete [OF sample_inv _ _ _ few times, of "utc 2000"]
    by (simp add: MAX_RECOVERY_RUNS_def) blast
  have "\<exists>r' \<in> set (db_runs db'). rr_id r' = 8 \<and> rr_status r' = QUEUED"
    using bspec [OF bspec [OF runs r(1)] l(1)] r(2-4) l(2) by auto
  with ok lost l show ?thesis by blast
qed

subsection \<open>Bounds and the snapshot\<close>



lemma oldest_le:
  assumes "r \<in> set (db_runs db)" "rr_status r \<in> set queued_statuses"
  shows "\<exists>x. oldest_created_at db = Some x \<and> x \<le> run_created_at (rr_run r)"
proof -
  let ?ts = "map (\<lambda>r. run_created_at (rr_run r)) (filter (\<lambda>r. rr_status r \<in> set queued_statuses) (db_runs db))"
  have mem: "run_created_at (rr_run r) \<in> set ?ts" using assms by auto
  then obtain a as where ts: "?ts = a # as" by (cases ?ts) auto
  have "fold min as a = Min (set (a # as))" by (simp only: Min.set_eq_fold)
  moreover have "Min (set (a # as)) \<le> run_created_at (rr_run r)" using mem ts by (intro Min_le) auto
  ultimately show ?thesis by (simp add: oldest_created_at_def ts del: list.map)
qed

text \<open>
  C35: The snapshot of the queue fails once a run has been waiting for more than a year: a
  queued, suspended or lost run created more than 31536000 seconds before the snapshot makes
  \<open>snapshot\<close> raise, because the age it reports exceeds the bound of its model.
\<close>

theorem snapshot_fails_after_a_year:
  assumes "normalize_timestamp d = Inr t" "r \<in> set (db_runs db)" "rr_status r \<in> set queued_statuses"
    and "31536000 * 1000000 < t - run_created_at (rr_run r)"
  shows "\<not> is_ok (snapshot d db)"
proof -
  obtain x where x: "oldest_created_at db = Some x" "x \<le> run_created_at (rr_run r)"
    using oldest_le [OF assms(2,3)] by blast
  then have "31536000 * 1000000 < t - x" using assms(4) by linarith
  then have "of_int (31536000 * 1000000) < (of_int (t - x) :: rat)" by (simp only: of_int_less_iff)
  then show ?thesis
    using assms(1) x(1) by (simp add: snapshot_def operation_time_def queue_snapshot_validate_def Let_def check_def)
qed

theorem snapshot_fails_after_a_year_witness:
  "\<not> is_ok (snapshot (utc 31536001000000) sample_db)"
  using snapshot_fails_after_a_year [of "utc 31536001000000" 31536001000000 "sample_row sample_run ''key-7'' 0" sample_db]
  by (simp add: sample_defs queued_statuses_def)

end
