(* ===== verification/Repository_Properties.thy ===== *)
theory Repository_Properties
  imports Queue_Properties
begin

section \<open>Properties of the run repository\<close>

text \<open>
  Creation of runs under an idempotency key and the admission limits, cancellation,
  approval decisions and the resumption of suspended runs, rewinding.
\<close>

subsection \<open>Creation\<close>

lemma create_run_key:
  assumes "create_run digest cfg mid pid tenant run key hash sub db = Inr (res, db')"
  shows "IdempotencyKey ''idempotency_key'' key = Inr key"
  using assms
  by (auto simp: create_run_def IdempotencyKey_def split: sum.splits if_splits)

lemma replay_existing:
  assumes inv: "queue_inv db" and key: "IdempotencyKey ''idempotency_key'' key = Inr key"
    and rec: "creation_record db tenant (run_session_id run) key = Some existing"
    and hash: "hash = submission_hash digest run sub"
  shows "create_run digest cfg mid pid tenant run key hash sub db =
    (if rr_creation_hash existing = hash then Inr (\<lparr>rc_run = rr_run existing, rc_created = False\<rparr>, db)
     else Inl (domain_error ''run_idempotency_conflict''
            ''the idempotency key belongs to a different run payload'' False
            [(''idempotency_key'', JStr key), (''session_id'', JStr (uuid_str (run_session_id run)))]))"
proof -
  have "existing \<in> set (db_runs db)" using select_one_Some [OF rec [unfolded creation_record_def]] by simp
  then have "run_domain existing = Inr (rr_run existing)" by (rule run_domain_ok [OF queue_inv_run_valid [OF inv]])
  with key rec hash show ?thesis by (simp add: create_run_def existing_creation_def)
qed

lemma creation_record_after:
  assumes inv: "queue_inv db" and ok: "create_run digest cfg mid pid tenant run key hash sub db = Inr (res, db')"
  shows "\<exists>existing. creation_record db' tenant (run_session_id run) key = Some existing
    \<and> rr_creation_hash existing = hash \<and> rr_run existing = rc_run res"
  using create_run_ok_cases [OF inv ok]
  by (auto simp: creation_record_def run_values_def select_one_append split: option.splits)

text \<open>
  C10: Creating a run is idempotent. Once a creation has committed, repeating it - with other
  generated identifiers, under another configuration - returns the same run, says that it was
  not created, and changes nothing; a different payload under the same key of the session is
  refused with \<open>run_idempotency_conflict\<close>, also without effect.
\<close>

theorem create_run_idempotent:
  assumes "queue_inv db" "fresh_run run"
    and "create_run digest cfg mid pid tenant run key hash sub db = Inr (res, db')"
  shows "create_run digest cfg2 mid2 pid2 tenant run key hash sub db' =
      Inr (\<lparr>rc_run = rc_run res, rc_created = False\<rparr>, db')
    \<and> (\<forall>run2 sub2. run_session_id run2 = run_session_id run \<and> submission_hash digest run2 sub2 \<noteq> hash \<longrightarrow>
        refused ''run_idempotency_conflict''
          (create_run digest cfg2 mid2 pid2 tenant run2 key (submission_hash digest run2 sub2) sub2 db'))"
proof -
  have inv': "queue_inv db'" using create_run_inv [OF assms] .
  obtain existing where e: "creation_record db' tenant (run_session_id run) key = Some existing"
    "rr_creation_hash existing = hash" "rr_run existing = rc_run res"
    using creation_record_after [OF assms(1,3)] by blast
  have hash: "hash = submission_hash digest run sub" using create_run_ok_cases [OF assms(1,3)] by blast
  note R = replay_existing [OF inv' create_run_key [OF assms(3)]]
  show ?thesis using R [OF e(1) hash] R [of tenant _ existing] e by auto
qed

definition sample_new_run :: Run where
  "sample_new_run = sample_run\<lparr>run_id := 9\<rparr>"

lemma sample_new_run_fresh [simp]: "fresh_run sample_new_run"
  by code_simp

lemma sample_created:
  "\<exists>res db'. create_run (env_digest sample_env) sample_config 90 91 1 sample_new_run ''key-9'' (replicate 64 CHR ''a'')
     None sample_db = Inr (res, db') \<and> rc_created res"
proof -
  have "case create_run (env_digest sample_env) sample_config 90 91 1 sample_new_run ''key-9''
      (replicate 64 CHR ''a'') None sample_db of Inr (res, db') \<Rightarrow> rc_created res | Inl _ \<Rightarrow> False"
    by code_simp
  then show ?thesis by (auto split: sum.splits prod.splits)
qed

theorem create_run_idempotent_witness:
  "\<exists>res db'. create_run (env_digest sample_env) sample_config 90 91 1 sample_new_run ''key-9''
       (replicate 64 CHR ''a'') None sample_db = Inr (res, db')
   \<and> create_run (env_digest sample_env) sample_config 92 93 1 sample_new_run ''key-9''
       (replicate 64 CHR ''a'') None db' = Inr (\<lparr>rc_run = rc_run res, rc_created = False\<rparr>, db')"
  using sample_created create_run_idempotent [OF sample_inv sample_new_run_fresh] by blast

text \<open>
  C31: Creation respects the admission limits: when it creates a run, the queued, suspended
  and lost runs of the tenant - the new one included - are within the tenant's limit, and
  those of all tenants within the global limit.
\<close>

theorem create_run_admission:
  assumes "queue_inv db" "fresh_run run"
    and "create_run digest cfg mid pid tenant run key hash sub db = Inr (res, db')" "rc_created res"
  shows "tenant_queued db' tenant \<le> queue_limit cfg db tenant
    \<and> global_queued db' \<le> qp_global_queue_limit (qc_admission_policy cfg)
    \<and> tenant_queued db' tenant = tenant_queued db tenant + 1"
proof -
  have "db_runs db' = db_runs db @ [run_values tenant run key hash]"
    and lim: "tenant_queued db tenant < queue_limit cfg db tenant"
      "global_queued db < qp_global_queue_limit (qc_admission_policy cfg)"
    using create_run_ok_cases [OF assms(1,3)] assms(4) by auto
  then have "tenant_queued db' tenant = tenant_queued db tenant + 1" "global_queued db' = global_queued db + 1"
    using assms(2)
    by (simp_all add: tenant_queued_def global_queued_def count_where_def run_values_def fresh_run_def
        queued_statuses_def)
  with lim show ?thesis by simp
qed

theorem create_run_admission_witness:
  "\<exists>res db'. create_run (env_digest sample_env) sample_config 90 91 1 sample_new_run ''key-9''
       (replicate 64 CHR ''a'') None sample_db = Inr (res, db')
   \<and> tenant_queued db' 1 = 2 \<and> tenant_queued db' 1 \<le> queue_limit sample_config sample_db 1"
proof -
  obtain res db' where c: "create_run (env_digest sample_env) sample_config 90 91 1 sample_new_run ''key-9''
       (replicate 64 CHR ''a'') None sample_db = Inr (res, db')" "rc_created res"
    using sample_created by blast
  have "tenant_queued sample_db 1 = 1" by code_simp
  with c create_run_admission [OF sample_inv sample_new_run_fresh c] show ?thesis by auto
qed

subsection \<open>Cancellation\<close>

text \<open>
  C29: Cancellation takes effect. After a committed cancellation the run is terminal, or it
  is leased or running with the cancellation recorded; no claim hands it out; the result its
  worker reports turns into \<open>cancelled\<close> whatever the worker did; and so does the recovery of
  its lease.
\<close>

theorem cancellation_takes_effect:
  assumes "queue_inv db" "request_cancel tenant i d db = Inr (Some run, db')"
  shows "(\<exists>row. run_row_of db' tenant i = Some row \<and> rr_run row = run \<and> \<not> eligible cfg locks db' row)
    \<and> (run_status run \<in> terminal_run_statuses
       \<or> run_status run \<in> {LEASED, RUNNING} \<and> run_cancellation_requested run
         \<and> (\<forall>uuid5 lease result e run2 db2.
              execution_result_valid result \<and> rl_tenant_id lease = tenant \<and> rl_run_id lease = i
              \<and> finish uuid5 lease result e db' = Inr (run2, db2) \<longrightarrow> run_status run2 = CANCELLED)
         \<and> (\<forall>t run2. recovered_run t run = Inr run2 \<longrightarrow> run_status run2 = CANCELLED))"
proof -
  have inv': "queue_inv db'" using request_cancel_inv [OF assms] .
  obtain row where row: "run_row_of db' tenant i = Some row" "rr_run row = run"
    and st: "run_status run \<in> terminal_run_statuses
      \<or> run_status run \<in> {LEASED, RUNNING} \<and> run_cancellation_requested run"
    using request_cancel_ok_cases [OF assms]
  proof (elim disjE exE conjE)
    fix row t
    assume old: "run_row_of db tenant i = Some row" and "Some run = Some (rr_run (cancelled_row t row))"
      and db': "db' = put_run (cancelled_row t row) db" and live: "rr_status row \<notin> terminal_run_statuses"
    then have run: "run = rr_run (cancelled_row t row)" by simp
    note R = run_row_of_Some [OF old]
    have "cancelled_row t row \<in> set (db_runs db')" using R(1) by (auto simp: db' set_put_row image_iff)
    then have "run_row_of db' tenant i = Some (cancelled_row t row)" using R by (simp add: run_row_of_iff [OF inv'])
    moreover have "run_status run \<in> terminal_run_statuses
        \<or> run_status run \<in> {LEASED, RUNNING} \<and> run_cancellation_requested run"
      by (simp add: run cancelled_row_def run_status_sets)
    ultimately show thesis using that run by blast
  qed (use that in auto)
  have "rr_status row \<noteq> QUEUED" using st row(2) by (auto simp: run_status_sets)
  then have a: "\<not> eligible cfg locks db' row" by (simp add: eligible_def claimable_def)
  have v: "run_valid run" using queue_inv_run_valid [OF inv' run_row_of_Some(1) [OF row(1)]] row(2) by simp
  have b: "run_status run2 = CANCELLED"
    if h: "run_cancellation_requested run" "execution_result_valid result" "rl_tenant_id lease = tenant"
      "rl_run_id lease = i" "finish uuid5 lease result e db' = Inr (run2, db2)" for uuid5 lease result e run2 db2
  proof -
    obtain t l r route where L: "locked_lease_state db' lease = Inr (l, r, route)"
      and run2: "run2 = finished_run result t (rr_run r)"
      using finish_ok_cases [OF inv' h(2,5)] by blast
    have "run_row_of db' tenant i = Some r"
      using locked_lease_stateD [OF L] h(3,4) by (simp add: run_row_of_iff [OF inv'])
    then show ?thesis using row h(1) by (simp add: run2 finish_status_def)
  qed
  have c: "run_status run2 = CANCELLED"
    if "run_cancellation_requested run" "recovered_run t run = Inr run2" for t run2
    using that transition_utc_iff [OF v, of CANCELLED t run2] by (auto simp: recovered_run_def)
  show ?thesis using row a st b c by blast
qed

theorem cancellation_takes_effect_witness:
  "\<exists>run db' run2 db2. request_cancel 1 8 (utc 100) sample_db = Inr (Some run, db') \<and> run_status run = RUNNING
     \<and> finish (\<lambda>_. 0) sample_lease sample_result (utc 110) db' = Inr (run2, db2) \<and> run_status run2 = CANCELLED"
proof -
  have "case request_cancel 1 8 (utc 100) sample_db of
      Inr (Some run, db') \<Rightarrow> run_status run = RUNNING \<and> is_ok (finish (\<lambda>_. 0) sample_lease sample_result (utc 110) db')
    | _ \<Rightarrow> False"
    by code_simp
  then obtain run db' run2 db2 where
    c: "request_cancel 1 8 (utc 100) sample_db = Inr (Some run, db')" "run_status run = RUNNING"
      "finish (\<lambda>_. 0) sample_lease sample_result (utc 110) db' = Inr (run2, db2)"
    by (auto simp: is_ok_iff split: sum.splits option.splits)
  have "rl_tenant_id sample_lease = 1" "rl_run_id sample_lease = 8" by (simp_all add: sample_lease_def)
  then have "run_status run2 = CANCELLED"
    using cancellation_takes_effect [OF sample_inv c(1)] c(2,3)
    by (simp add: run_status_sets) (metis sample_result_valid)
  with c show ?thesis by blast
qed

text \<open>
  C33: A run that waits for a retry cannot be cancelled: \<open>request_cancel\<close> moves it to
  \<open>cancelled\<close> but leaves its \<open>retry_ready_at\<close>, which the constraint \<open>retry_ready_state\<close>
  admits only for retry-pending runs, so the transaction always fails.
\<close>

theorem cancel_retry_pending_fails:
  assumes "queue_inv db" "run_row_of db tenant i = Some row" "rr_status row = RETRY_PENDING"
  shows "\<not> is_ok (request_cancel tenant i d db)"
proof
  assume "is_ok (request_cancel tenant i d db)"
  then obtain res db' where ok: "request_cancel tenant i d db = Inr (res, db')" by (auto simp: is_ok_iff)
  note R = run_row_of_Some [OF assms(2)]
  obtain t where db': "db' = put_run (cancelled_row t row) db" "constraints_ok db'"
    using request_cancel_ok_cases [OF assms(1) ok] assms(2,3) by (auto simp: run_status_sets)
  have "cancelled_row t row \<in> set (db_runs db')" using R(1) by (auto simp: db' set_put_row image_iff)
  then have "run_row_ok (cancelled_row t row)"
    using db'(2) by (auto simp: constraints_ok_def rows_ok_def list_all_iff)
  moreover have "rr_retry_ready_at row \<noteq> None"
    using queue_inv_row_ok [OF assms(1) R(1)] assms(3) by (simp add: run_row_ok_def)
  ultimately show False by (simp add: run_row_ok_def cancelled_row_def assms(3))
qed

definition sample_retry :: database where
  "sample_retry = sample_db\<lparr>db_runs := [sample_row sample_active_run ''key-8'' 1,
     (sample_row (sample_run\<lparr>run_status := RETRY_PENDING, run_started_at := Some 110\<rparr>) ''key-7'' 1)
       \<lparr>rr_retry_ready_at := Some 500\<rparr>]\<rparr>"

theorem cancel_retry_pending_fails_witness:
  "queue_inv sample_retry \<and> \<not> is_ok (request_cancel 1 7 (utc 200) sample_retry)"
proof -
  have "queue_inv sample_retry" by code_simp
  then show ?thesis
    using cancel_retry_pending_fails [of sample_retry 1 7
        "(sample_row (sample_run\<lparr>run_status := RETRY_PENDING, run_started_at := Some 110\<rparr>) ''key-7'' 1)
           \<lparr>rr_retry_ready_at := Some 500\<rparr>" "utc 200"]
    by (simp add: sample_retry_def sample_defs run_row_of_def)
qed

subsection \<open>Approvals\<close>

lemma count_where_put_row:
  assumes "distinct (map key t)" "row \<in> set t" "key row' = key row" "p row" "\<not> p row'"
  shows "Suc (count_where p (put_row key row' t)) = count_where p t"
proof -
  have "Suc (count_where p (map (\<lambda>r. if r = row then row' else r) u)) = count_where p u"
    if "distinct u" "row \<in> set u" for u
    using that
  proof (induction u)
    case (Cons x u)
    show ?case
    proof (cases "x = row")
      case True
      then have "map (\<lambda>r. if r = row then row' else r) u = u" using Cons.prems(1) by (intro map_idI) auto
      with True assms(4,5) show ?thesis by simp
    next
      case False
      with Cons show ?thesis by auto
    qed
  qed simp
  then show ?thesis using assms put_row_map [OF assms(1-3)] distinct_rows [OF assms(1)] by simp
qed

lemma approvals_distinct: "queue_inv db \<Longrightarrow> distinct (map (\<lambda>a. pa_id (ap_approval a)) (db_approvals db))"
  using queue_invD(1) by (auto simp: constraints_ok_def execution_unique_ok_def comp_def)

lemma decided_row_simps [simp]:
  "ap_tenant_id (decided_row d row) = ap_tenant_id row"
  "ap_tool_call_id (decided_row d row) = ap_tool_call_id row"
  "pa_id (ap_approval (decided_row d row)) = pa_id (ap_approval row)"
  "pa_run_id (ap_approval (decided_row d row)) = pa_run_id (ap_approval row)"
  "pa_execution_epoch (ap_approval (decided_row d row)) = pa_execution_epoch (ap_approval row)"
  "pa_status (ap_approval (decided_row d row)) = decision_status d"
  "pa_decided_by (ap_approval (decided_row d row)) = Some (ad_decided_by d)"
  "pa_response (ap_approval (decided_row d row)) = ad_response d"
  by (simp_all add: decided_row_def)

lemma decision_status_not_pending [simp]:
  "decision_status d \<noteq> APPROVAL_PENDING" "APPROVAL_PENDING \<noteq> decision_status d"
  by (simp_all add: decision_status_def)

lemma pending_after_decision:
  assumes inv: "queue_inv db" and row: "row \<in> set (db_approvals db)" "pa_status (ap_approval row) = APPROVAL_PENDING"
  shows "Suc (pending_approvals (put_approval (decided_row d row) db) (ap_tenant_id row)
      (pa_run_id (ap_approval row)) (pa_execution_epoch (ap_approval row)))
    = pending_approvals db (ap_tenant_id row) (pa_run_id (ap_approval row)) (pa_execution_epoch (ap_approval row))"
  using count_where_put_row [OF approvals_distinct [OF inv] row(1), of "decided_row d row"
      "\<lambda>a. ap_tenant_id a = ap_tenant_id row \<and> pa_run_id (ap_approval a) = pa_run_id (ap_approval row)
        \<and> pa_execution_epoch (ap_approval a) = pa_execution_epoch (ap_approval row)
        \<and> pa_status (ap_approval a) = APPROVAL_PENDING"] row(2)
  by (simp add: pending_approvals_def put_approval_def)

lemma current_approval_pending:
  assumes "current_approval db tenant run a = Some row" "pa_status (ap_approval row) = APPROVAL_PENDING"
  shows "0 < pending_approvals db tenant run (pa_execution_epoch (ap_approval row))"
  using current_approval_Some [OF assms(1)] assms(2)
  by (auto simp: pending_approvals_def count_where_def filter_empty_conv)

text \<open>
  C13: What a decision on a pending approval does. The approval is stored with the decision;
  the run is queued again exactly if it was waiting and this was its last pending approval
  of the current epoch, and is untouched otherwise; repeating the decision returns the
  stored approval and changes nothing.
\<close>

theorem decide_pending:
  assumes "queue_inv db" "decide tenant run a decision db = Inr (res, db')"
    and "current_approval db tenant run a = Some row" "pa_status (ap_approval row) = APPROVAL_PENDING"
    and "run_row_of db tenant run = Some r"
  shows "current_approval db' tenant run a = Some (decided_row decision row)
    \<and> res = Some (ap_approval (decided_row decision row))
    \<and> (if rr_status r = WAITING_APPROVAL
           \<and> pending_approvals db tenant run (run_execution_epoch (rr_run r)) = 1
       then \<exists>r'. run_row_of db' tenant run = Some r' \<and> rr_status r' = QUEUED
       else run_row_of db' tenant run = Some r)
    \<and> decide tenant run a decision db' = Inr (res, db')"
proof -
  let ?row' = "decided_row decision row" and ?e = "pa_execution_epoch (ap_approval row)"
  let ?db1 = "put_approval ?row' db"
  let ?r' = "r\<lparr>rr_run := transition_spec (rr_run r) QUEUED (ad_decided_at decision) [] 0\<rparr>"
  have inv': "queue_inv db'" using decide_inv [OF assms(1,2)] .
  note A = current_approval_Some [OF assms(3)] and R = run_row_of_Some [OF assms(5)]
  have epoch: "?e = run_execution_epoch (rr_run r)" and res: "res = Some (ap_approval ?row')"
    and db': "db' = resumed_db tenant run ?e (ad_decided_at decision) r ?db1"
    using decide_ok_cases [OF assms(1,2)] assms(3-5) by auto
  have approvals: "db_approvals db' = db_approvals ?db1" "db_tool_calls db' = db_tool_calls db"
    by (simp_all add: db' resumed_db_def put_approval_def)
  have mem: "?row' \<in> set (db_approvals db')"
    using A(1) by (auto simp: approvals put_approval_def set_put_row image_iff)
  have pend: "pending_approvals ?db1 tenant run ?e = 0 \<longleftrightarrow> pending_approvals db tenant run ?e = 1"
    using pending_after_decision [OF assms(1) A(1) assms(4), of decision] A(2,3) by auto
  have run: "if rr_status r = WAITING_APPROVAL \<and> pending_approvals db tenant run ?e = 1
      then run_row_of db' tenant run = Some ?r' else run_row_of db' tenant run = Some r"
  proof (cases "rr_status r = WAITING_APPROVAL \<and> pending_approvals db tenant run ?e = 1")
    case True
    then have "db' = put_run ?r' ?db1" using pend by (simp add: db' resumed_db_def)
    then have "?r' \<in> set (db_runs db')" using R(1) by (auto simp: set_put_row image_iff)
    with True R show ?thesis by (simp add: run_row_of_iff [OF inv'])
  next
    case False
    then have "db' = ?db1" using pend by (auto simp: db' resumed_db_def)
    then show ?thesis using False assms(5) by auto
  qed
  then have "\<exists>k. run_row_of db' tenant run = Some k \<and> run_execution_epoch (rr_run k) = ?e"
    using epoch by (auto split: if_splits)
  then obtain k where k: "k \<in> set (db_runs db')" "rr_tenant_id k = tenant" "rr_id k = run"
      "run_execution_epoch (rr_run k) = ?e"
    using run_row_of_Some by blast
  have cur: "current_approval db' tenant run a = Some ?row'"
    unfolding current_approval_def
    by (rule select_one_distinct [OF approvals_distinct [OF inv'] mem]) (use A k in \<open>auto simp: list_ex_iff\<close>)
  obtain x where x: "approval_domain ?row' = Inr x"
    and ask: "\<not> (ad_approved decision \<and> approval_tool_name db tenant run row = Some ''ask_user''
        \<and> ad_response decision = None)"
    using assms(2-4) by (auto simp: decide_def bindE_eq_Inr split: if_splits)
  have "x = ap_approval ?row'" using x by (auto simp: approval_domain_def dest: approval_model_validate_same)
  moreover have "approval_tool_name db' tenant run ?row' = approval_tool_name db tenant run row"
    by (simp add: approval_tool_name_def approvals(2) cong: option.case_cong)
  ultimately have "decide tenant run a decision db' = Inr (res, db')"
    using x ask by (simp add: decide_def cur res)
  with cur res run epoch show ?thesis by auto
qed

definition sample_tool :: ToolCall where
  "sample_tool = \<lparr>tool_id = ''call-1'', tool_run_id = 8, tool_execution_epoch = 1, tool_turn_number = 1,
     tool_tool_name = ''write_file'', tool_arguments = [], tool_argument_hash = replicate 64 CHR ''b'',
     tool_status = TOOL_WAITING_APPROVAL, tool_workspace_version = None, tool_result = None,
     tool_error = None, tool_started_at = None, tool_completed_at = None\<rparr>"

definition sample_approval :: PersistedApproval where
  "sample_approval = \<lparr>pa_id = 40, pa_run_id = 8, pa_execution_epoch = 1, pa_status = APPROVAL_PENDING,
     pa_reason = ''writes a file'', pa_arguments = [], pa_decided_by = None, pa_requested_at = 70,
     pa_decided_at = None, pa_response = None\<rparr>"

definition sample_decision :: ApprovalDecision where
  "sample_decision = \<lparr>ad_approved = True, ad_decided_by = ''alice'', ad_decided_at = 80, ad_response = None\<rparr>"

definition sample_asking :: database where
  "sample_asking = sample_db\<lparr>db_tool_calls := [\<lparr>tc_tenant_id = 1, tc_call = sample_tool\<rparr>],
     db_approvals := [\<lparr>ap_tenant_id = 1, ap_tool_call_id = Some ''call-1'', ap_approval = sample_approval\<rparr>]\<rparr>"

lemma sample_asking_inv [simp]: "queue_inv sample_asking"
  by code_simp

definition sample_suspension :: RunExecutionResult where
  "sample_suspension = sample_result\<lparr>er_status := WAITING_APPROVAL\<rparr>"

theorem decide_pending_witness:
  "\<exists>res db'. decide 1 8 40 sample_decision sample_asking = Inr (res, db')
     \<and> decide 1 8 40 sample_decision db' = Inr (res, db')"
proof -
  have "is_ok (decide 1 8 40 sample_decision sample_asking)" by code_simp
  then obtain res db' where d: "decide 1 8 40 sample_decision sample_asking = Inr (res, db')"
    by (auto simp: is_ok_iff)
  have c: "current_approval sample_asking 1 8 40
        = Some \<lparr>ap_tenant_id = 1, ap_tool_call_id = Some ''call-1'', ap_approval = sample_approval\<rparr>"
    and r: "run_row_of sample_asking 1 8 = Some (sample_row sample_active_run ''key-8'' 1)"
    by (simp_all add: current_approval_def run_row_of_def sample_asking_def sample_approval_def sample_defs)
  have "decide 1 8 40 sample_decision db' = Inr (res, db')"
    using decide_pending [OF sample_asking_inv d c _ r] by (simp add: sample_approval_def)
  with d show ?thesis by blast
qed

text \<open>
  C32: A waiting run without a pending approval is stranded: no decision changes anything, no
  claim takes it, and recovery leaves it alone. The platform reaches such a state when the
  approval is decided after it was published but before the worker has reported the
  suspension: the decision does not resume a run that is still \<open>running\<close>, and the result
  then suspends it for an approval that is already decided.
\<close>

theorem waiting_run_stranded:
  assumes "queue_inv db" "run_row_of db tenant run = Some r" "rr_status r = WAITING_APPROVAL"
    and "pending_approvals db tenant run (run_execution_epoch (rr_run r)) = 0"
  shows "(\<forall>a decision res db'. decide tenant run a decision db = Inr (res, db') \<longrightarrow> db' = db)
    \<and> \<not> eligible cfg locks db r
    \<and> (\<forall>d limit rs db'. recover_expired locks d limit db = Inr (rs, db') \<longrightarrow> run_row_of db' tenant run = Some r)"
proof -
  note R = run_row_of_Some [OF assms(2)]
  have a: "db' = db" if "decide tenant run a decision db = Inr (res, db')" for a decision res db'
    using decide_ok_cases [OF assms(1) that] current_approval_pending assms(2,4) by fastforce
  have b: "run_row_of db' tenant run = Some r" if ok: "recover_expired locks d limit db = Inr (rs, db')" for d limit rs db'
  proof -
    obtain t n where t: "normalize_timestamp d = Inr t" "limit = PyInt n" "1 \<le> n" "n \<le> MAX_RECOVERY_RUNS"
      and times: "\<And>r. r \<in> set (db_runs db) \<Longrightarrow>
        r \<in> set (due_retries locks t n db) \<or> rr_id r \<in> le_run_id ` set (due_leases locks t n db) \<Longrightarrow>
        comparison_start (rr_run r) \<le> t"
      using recover_expired_ok_cases [OF assms(1) ok] by blast
    have runs: "db_runs db' = map (recovery_row locks t n db) (db_runs db)"
      using recover_expired_core [where locks = locks, OF assms(1) t(1,3,4) times] ok t(2) by auto
    have "r \<notin> set (due_retries locks t n db)" using due_retriesD assms(3) by fastforce
    moreover have "rr_id r \<notin> le_run_id ` set (due_leases locks t n db)"
      using due_leasesD mirror_unique [OF assms(1) R(1)] assms(3) by (fastforce simp: mirrors_def)
    ultimately have "recovery_row locks t n db r = r" by (simp add: recovery_row_def)
    then have "r \<in> set (db_runs db')" unfolding runs using R(1) by force
    then show ?thesis using R by (simp add: run_row_of_iff [OF recover_expired_inv [OF assms(1) ok]])
  qed
  show ?thesis using a b assms(3) by (auto simp: eligible_def claimable_def)
qed

text \<open>The approval is decided while the run is still running, and only then the run is suspended.\<close>

definition sample_stranding :: "platform_op list" where
  "sample_stranding = [Decide 1 8 40 sample_decision, Finish sample_lease sample_suspension (utc 100)]"

definition waits_in_vain :: "database \<Rightarrow> bool" where
  "waits_in_vain db \<longleftrightarrow>
     (case run_row_of db 1 8 of None \<Rightarrow> False
      | Some r \<Rightarrow> rr_status r = WAITING_APPROVAL \<and> pending_approvals db 1 8 (run_execution_epoch (rr_run r)) = 0)
   \<and> is_ok (decide 1 8 40 sample_decision db)"

theorem waiting_run_stranded_witness:
  "let db' = run_ops (platform_step sample_env) sample_stranding sample_asking
   in queue_inv sample_asking \<and> list_all admissible sample_stranding
    \<and> (\<exists>r. run_row_of db' 1 8 = Some r \<and> rr_status r = WAITING_APPROVAL)
    \<and> (\<exists>res. decide 1 8 40 sample_decision db' = Inr (res, db'))"
proof -
  let ?db = "run_ops (platform_step sample_env) sample_stranding sample_asking"
  have ops: "list_all admissible sample_stranding"
    by (simp add: sample_stranding_def sample_suspension_def sample_result_def execution_result_valid_def
        execution_result_model_validate_def)
  have "waits_in_vain ?db" by code_simp
  then obtain r res db2 where r: "run_row_of ?db 1 8 = Some r" "rr_status r = WAITING_APPROVAL"
    "pending_approvals ?db 1 8 (run_execution_epoch (rr_run r)) = 0"
    and d: "decide 1 8 40 sample_decision ?db = Inr (res, db2)"
    by (auto simp: waits_in_vain_def is_ok_iff split: option.splits)
  have "queue_inv ?db" by (rule platform.run_inv [OF sample_asking_inv ops])
  from waiting_run_stranded [OF this r] d have "db2 = ?db" by blast
  with r d ops show ?thesis unfolding Let_def by auto
qed

subsection \<open>Rewinding\<close>

definition retained_at :: "int \<Rightarrow> MessageRecord \<Rightarrow> bool" where
  "retained_at n m \<longleftrightarrow>
     (case map_of (pm_metadata (mr_message m)) ''transcript_index'' of Some (FInt i) \<Rightarrow> i \<le> n | _ \<Rightarrow> True)"

lemma retain_messages_filter:
  "retain_messages n seen ms = Inr retained \<Longrightarrow> retained = filter (retained_at n) ms"
  by (induction n seen ms arbitrary: retained rule: retain_messages.induct)
    (auto simp: retained_at_def bindE_eq_Inr split: option.splits FrozenJson.splits if_splits)

lemma seed_messages_nth:
  "k < length ms \<Longrightarrow>
     seed_messages uuid5 tenant run epoch now n ms ! k = seed_message uuid5 tenant run epoch now (n + int k) (ms ! k)"
proof (induction ms arbitrary: n k)
  case (Cons m ms)
  then show ?case by (cases k) (simp_all add: algebra_simps)
qed simp

lemma length_seed_messages [simp]: "length (seed_messages uuid5 tenant run epoch now n ms) = length ms"
  by (induction ms arbitrary: n) simp_all

lemma foldl_max_upper: "x \<in> set xs \<Longrightarrow> (x :: int) \<le> foldl max a xs"
proof (induction xs arbitrary: a)
  case (Cons y ys)
  show ?case
  proof (cases "x \<in> set ys")
    case False
    with Cons.prems have "x \<le> max a y" by simp
    also have "\<dots> \<le> foldl max (max a y) ys" by (rule foldl_max_ge)
    finally show ?thesis by simp
  qed (use Cons.IH in simp)
qed simp

lemma next_message_sequence_above:
  "m \<in> set (db_messages db) \<Longrightarrow> mr_tenant_id m = tenant \<Longrightarrow> pm_session_id (mr_message m) = session \<Longrightarrow>
     pm_sequence (mr_message m) < next_message_sequence tenant session db"
  unfolding next_message_sequence_def
  by (rule zle_add1_eq_le [THEN iffD2], rule foldl_max_upper) auto

lemma approval_epoch:
  assumes inv: "queue_inv db" and ap: "current_approval db tenant i a = Some ap"
    and row: "run_row_of db tenant i = Some row"
  shows "pa_execution_epoch (ap_approval ap) = run_execution_epoch (rr_run row)"
proof -
  obtain r where r: "r \<in> set (db_runs db)" "rr_id r = i"
    "pa_execution_epoch (ap_approval ap) = run_execution_epoch (rr_run r)"
    using current_approval_Some(5) [OF ap] by blast
  note R = run_row_of_Some [OF row]
  have "r = row" using distinct_eq [OF queue_invD(7) [OF inv] r(1) R(1)] r(2) R(3) by simp
  with r(3) show ?thesis by simp
qed

text \<open>
  C14: A committed rewind starts a new branch. The run is queued in the next epoch and
  attempt from the checkpoint, its cancellation and retry cleared; the messages of the
  checkpoint's branch up to the checkpoint's position - all of them, in order, and no later
  ones - are copied with role, content and metadata unchanged into the new epoch, numbered
  consecutively after every message of the session, and no earlier message is lost; and an
  approval of the old epoch can no longer be decided.
\<close>

theorem rewind_branches:
  assumes "queue_inv db" "rewind uuid5 now tenant i c db = Inr (Some run, db')"
  shows "\<exists>row cr row' retained. run_row_of db tenant i = Some row \<and> run_row_of db' tenant i = Some row'
    \<and> rr_run row' = run \<and> run_status run = QUEUED \<and> rr_retry_ready_at row' = None
    \<and> run_execution_epoch run = run_execution_epoch (rr_run row) + 1
    \<and> run_attempt run = run_attempt (rr_run row) + 1
    \<and> run_last_checkpoint_id run = Some c \<and> \<not> run_cancellation_requested run
    \<and> cr \<in> set (db_checkpoints db) \<and> cp_id (cr_checkpoint cr) = c
    \<and> retained = filter (retained_at (cp_message_sequence (cr_checkpoint cr)))
        (sort_key (\<lambda>m. [pm_sequence (mr_message m)])
          (filter (branch_message tenant row (cr_checkpoint cr)) (db_messages db)))
    \<and> (\<exists>seeds. db_messages db' = db_messages db @ seeds \<and> length seeds = length retained
        \<and> (\<forall>k < length retained. \<forall>m s. m = mr_message (retained ! k) \<and> s = mr_message (seeds ! k) \<longrightarrow>
             pm_role s = pm_role m \<and> pm_content s = pm_content m \<and> pm_metadata s = pm_metadata m
             \<and> pm_run_id s = i \<and> pm_execution_epoch s = run_execution_epoch run
             \<and> pm_sequence s = next_message_sequence tenant (run_session_id run) db + int k))
    \<and> (\<forall>m \<in> set (db_messages db). mr_tenant_id m = tenant \<and> pm_session_id (mr_message m) = run_session_id run \<longrightarrow>
         pm_sequence (mr_message m) < next_message_sequence tenant (run_session_id run) db)
    \<and> (\<forall>a. current_approval db tenant i a \<noteq> None \<longrightarrow> current_approval db' tenant i a = None)"
proof -
  obtain row cr s retained where row: "run_row_of db tenant i = Some row"
    and cr: "cr \<in> set (db_checkpoints db)" "cp_id (cr_checkpoint cr) = c"
    and ret: "retain_messages (cp_message_sequence (cr_checkpoint cr)) []
             (branch_rows tenant row (cr_checkpoint cr) db) = Inr retained"
    and run: "run = rewound_run c (rr_run row)"
    and runs: "db_runs db' = put_row rr_id (rewound_row c row) (db_runs db)"
    and msgs: "db_messages db' = db_messages db
             @ seed_messages uuid5 tenant row (run_execution_epoch (rr_run row) + 1) now
                 (next_message_sequence tenant (run_session_id (rr_run row)) db) retained"
    and apps: "db_approvals db' = db_approvals db"
    using rewind_ok_cases [OF assms] by auto
  note R = run_row_of_Some [OF row]
  have inv': "queue_inv db'" using rewind_inv [OF assms] .
  have mem: "rewound_row c row \<in> set (db_runs db')" using R(1) by (auto simp: runs set_put_row image_iff)
  then have row': "run_row_of db' tenant i = Some (rewound_row c row)" using R by (simp add: run_row_of_iff [OF inv'])
  have fields: "rr_run (rewound_row c row) = run" "rr_retry_ready_at (rewound_row c row) = None"
    "run_status run = QUEUED" "run_execution_epoch run = run_execution_epoch (rr_run row) + 1"
    "run_attempt run = run_attempt (rr_run row) + 1" "run_last_checkpoint_id run = Some c"
    "\<not> run_cancellation_requested run" "run_session_id run = run_session_id (rr_run row)"
    by (simp_all add: run rewound_row_def rewound_run_def)
  let ?seeds = "seed_messages uuid5 tenant row (run_execution_epoch (rr_run row) + 1) now
      (next_message_sequence tenant (run_session_id (rr_run row)) db) retained"
  have seeds: "\<forall>k < length retained. \<forall>m s. m = mr_message (retained ! k) \<and> s = mr_message (?seeds ! k) \<longrightarrow>
      pm_role s = pm_role m \<and> pm_content s = pm_content m \<and> pm_metadata s = pm_metadata m
      \<and> pm_run_id s = i \<and> pm_execution_epoch s = run_execution_epoch run
      \<and> pm_sequence s = next_message_sequence tenant (run_session_id run) db + int k"
    by (auto simp: seed_messages_nth seed_message_def fields R)
  have old: "current_approval db' tenant i a = None" if "current_approval db tenant i a = Some ap" for a ap
  proof (rule ccontr)
    assume "current_approval db' tenant i a \<noteq> None"
    then obtain ap' where ap': "current_approval db' tenant i a = Some ap'" by blast
    note A = current_approval_Some [OF that] and B = current_approval_Some [OF ap']
    have "ap = ap'"
      using distinct_eq [OF approvals_distinct [OF assms(1)], of ap ap'] A(1,4) B(1,4) apps by simp
    moreover have "pa_execution_epoch (ap_approval ap) = run_execution_epoch (rr_run row)"
      using approval_epoch [OF assms(1) that row] .
    moreover have "pa_execution_epoch (ap_approval ap') = run_execution_epoch run"
      using approval_epoch [OF inv' ap' row'] fields(1) by simp
    ultimately show False using fields(4) by simp
  qed
  have above: "\<forall>m \<in> set (db_messages db). mr_tenant_id m = tenant \<and> pm_session_id (mr_message m) = run_session_id run \<longrightarrow>
      pm_sequence (mr_message m) < next_message_sequence tenant (run_session_id run) db"
    using next_message_sequence_above by blast
  have new: "\<exists>seeds. db_messages db' = db_messages db @ seeds \<and> length seeds = length retained
      \<and> (\<forall>k < length retained. \<forall>m s. m = mr_message (retained ! k) \<and> s = mr_message (seeds ! k) \<longrightarrow>
           pm_role s = pm_role m \<and> pm_content s = pm_content m \<and> pm_metadata s = pm_metadata m
           \<and> pm_run_id s = i \<and> pm_execution_epoch s = run_execution_epoch run
           \<and> pm_sequence s = next_message_sequence tenant (run_session_id run) db + int k)"
    using msgs seeds by (intro exI [of _ ?seeds] conjI) simp_all
  have gone: "\<forall>a. current_approval db tenant i a \<noteq> None \<longrightarrow> current_approval db' tenant i a = None"
    using old by blast
  show ?thesis
    by (rule exI [of _ row], rule exI [of _ cr], rule exI [of _ "rewound_row c row"], rule exI [of _ retained])
      (intro conjI row row' cr fields new above gone retain_messages_filter [OF ret, unfolded branch_rows_def])
qed

definition sample_checkpoint :: Checkpoint where
  "sample_checkpoint = \<lparr>cp_id = 50, cp_run_id = 7, cp_session_id = 2, cp_execution_epoch = 1,
     cp_tool_call_id = ''call-1'', cp_message_sequence = 1, cp_messages = [],
     cp_workspace_snapshot_uri = ''s3://snapshots/50'', cp_workspace_revision = ''r1'', cp_task_plan = [],
     cp_context_summary = None, cp_created_at = 150\<rparr>"

definition sample_message :: "uuid \<Rightarrow> int \<Rightarrow> int \<Rightarrow> PersistedMessage" where
  "sample_message i n position = \<lparr>pm_id = i, pm_session_id = 2, pm_run_id = 7, pm_execution_epoch = 1,
     pm_sequence = n, pm_role = USER, pm_content = ''hello'',
     pm_metadata = [(''transcript_index'', FInt position)], pm_created_at = 140\<rparr>"

definition sample_failed :: database where
  "sample_failed = sample_db\<lparr>
     db_runs := [sample_row sample_active_run ''key-8'' 1,
       sample_row (sample_run\<lparr>run_status := FAILED, run_started_at := Some 110, run_completed_at := Some 200\<rparr>) ''key-7'' 1],
     db_messages := [\<lparr>mr_tenant_id = 1, mr_message = sample_message 60 1 1\<rparr>,
       \<lparr>mr_tenant_id = 1, mr_message = sample_message 61 2 2\<rparr>],
     db_checkpoints := [\<lparr>cr_tenant_id = 1, cr_checkpoint = sample_checkpoint, cr_completed_snapshot_uri = None,
       cr_completed_revision = None\<rparr>]\<rparr>"

theorem rewind_branches_witness:
  "\<exists>run db'. queue_inv sample_failed \<and> rewind (env_uuid5 sample_env) 300 1 7 50 sample_failed = Inr (Some run, db')
     \<and> run_execution_epoch run = 2 \<and> run_attempt run = 2"
proof -
  have inv: "queue_inv sample_failed" by code_simp
  have "case rewind (env_uuid5 sample_env) 300 1 7 50 sample_failed of Inr (Some run, db') \<Rightarrow> True | _ \<Rightarrow> False"
    by code_simp
  then obtain run db' where r: "rewind (env_uuid5 sample_env) 300 1 7 50 sample_failed = Inr (Some run, db')"
    by (auto split: sum.splits option.splits)
  obtain row where "run_row_of sample_failed 1 7 = Some row"
    "run_execution_epoch run = run_execution_epoch (rr_run row) + 1" "run_attempt run = run_attempt (rr_run row) + 1"
    using rewind_branches [OF inv r] by blast
  then show ?thesis using inv r by (auto simp: sample_failed_def sample_defs run_row_of_def)
qed

end
