(* ===== verification/Execution_Properties.thy ===== *)
theory Execution_Properties
  imports Repository_Properties
begin

section \<open>Properties of the durable execution state\<close>

text \<open>
  The journal of an execution: the transcript is appended idempotently, tool calls move
  forward only, and no operation of the platform rewrites a message or a settled tool call.
\<close>

subsection \<open>Appending to the transcript\<close>

lemma transcript_rows_cover:
  assumes "transcript_rows uuid5 lease t existing n i ms = Inr rows" "k < length ms"
  shows "\<exists>row \<in> set existing \<union> set rows. pm_id (mr_message row) = transcript_identifier uuid5 lease (i + int k)
    \<and> \<not> transcript_row_conflicts lease (i + int k) (ms ! k) row"
  using assms
proof (induction ms arbitrary: n i rows k)
  case (Cons m ms)
  have own: "pm_id (mr_message (transcript_row uuid5 lease t n i m)) = transcript_identifier uuid5 lease i"
    "\<not> transcript_row_conflicts lease i m (transcript_row uuid5 lease t n i m)"
    by (simp_all add: transcript_row_def transcript_row_conflicts_def)
  show ?case
  proof (cases "select_one (\<lambda>r. pm_id (mr_message r) = transcript_identifier uuid5 lease i) existing")
    case None
    then obtain rest where rest: "transcript_rows uuid5 lease t existing (n + 1) (i + 1) ms = Inr rest"
      "rows = transcript_row uuid5 lease t n i m # rest"
      using Cons.prems(1) by (auto simp: bindE_eq_Inr)
    show ?thesis
    proof (cases k)
      case 0
      then show ?thesis using own rest(2) by auto
    next
      case (Suc j)
      then show ?thesis using Cons.IH [OF rest(1), of j] Cons.prems(2) rest(2) by (auto simp: algebra_simps)
    qed
  next
    case (Some row)
    then have ok: "\<not> transcript_row_conflicts lease i m row"
      "transcript_rows uuid5 lease t existing n (i + 1) ms = Inr rows"
      using Cons.prems(1) by (auto split: if_splits)
    show ?thesis
    proof (cases k)
      case 0
      then show ?thesis using ok(1) select_one_Some [OF Some] by auto
    next
      case (Suc j)
      then show ?thesis using Cons.IH [OF ok(2), of j] Cons.prems(2) by (auto simp: algebra_simps)
    qed
  qed
qed simp

lemma transcript_rows_tenant:
  "transcript_rows uuid5 lease t existing n i ms = Inr rows \<Longrightarrow> row \<in> set rows \<Longrightarrow> mr_tenant_id row = rl_tenant_id lease"
  by (induction uuid5 lease t existing n i ms arbitrary: rows rule: transcript_rows.induct)
    (auto simp: bindE_eq_Inr transcript_row_def split: option.splits if_splits)

lemma transcript_rows_replay:
  assumes "\<And>k. k < length ms \<Longrightarrow>
      \<exists>row. select_one (\<lambda>r. pm_id (mr_message r) = transcript_identifier uuid5 lease (i + int k)) existing = Some row
        \<and> \<not> transcript_row_conflicts lease (i + int k) (ms ! k) row"
  shows "transcript_rows uuid5 lease t existing n i ms = Inr []"
  using assms
proof (induction ms arbitrary: n i)
  case (Cons m ms)
  obtain row where "select_one (\<lambda>r. pm_id (mr_message r) = transcript_identifier uuid5 lease i) existing = Some row"
    "\<not> transcript_row_conflicts lease i m row"
    using Cons.prems [of 0] by auto
  moreover have "transcript_rows uuid5 lease t existing n (i + 1) ms = Inr []"
    by (rule Cons.IH) (use Cons.prems [of "Suc _"] in \<open>simp add: algebra_simps\<close>)
  ultimately show ?case by simp
qed simp

lemma append_transcript_ok_cases:
  assumes "append_transcript_fenced uuid5 sz clock lease first ms t db = Inr (u, db')"
  shows "\<exists>n rows. first = PyInt n \<and> 0 \<le> n \<and> ms \<noteq> [] \<and> length ms \<le> MAX_TRANSCRIPT_SUFFIX_MESSAGES
    \<and> sum_list (map sz ms) \<le> MAX_TRANSCRIPT_SUFFIX_BYTES
    \<and> list_ex (\<lambda>s. session_tenant_id s = rl_tenant_id lease \<and> session_id s = rl_session_id lease) (db_sessions db)
    \<and> transcript_rows uuid5 lease t (transcript_existing uuid5 lease n (length ms) db)
        (next_message_sequence (rl_tenant_id lease) (rl_session_id lease) db) (n + 1) ms = Inr rows
    \<and> db' = db\<lparr>db_messages := db_messages db @ rows\<rparr> \<and> constraints_ok db'"
  using assms
  by (cases first) (auto simp: append_transcript_fenced_def bindE_eq_Inr split: if_splits)

lemma messages_distinct: "constraints_ok db \<Longrightarrow> distinct (map (\<lambda>m. pm_id (mr_message m)) (db_messages db))"
  by (simp add: constraints_ok_def execution_unique_ok_def comp_def)

lemma transcript_covered:
  assumes c: "constraints_ok db'" and db': "db' = db\<lparr>db_messages := db_messages db @ rows\<rparr>"
    and rows: "transcript_rows uuid5 lease t (transcript_existing uuid5 lease n (length ms) db) q (n + 1) ms = Inr rows"
    and k: "k < length ms"
  shows "\<exists>row. select_one (\<lambda>r. pm_id (mr_message r) = transcript_identifier uuid5 lease (n + 1 + int k))
        (transcript_existing uuid5 lease n (length ms) db') = Some row
      \<and> \<not> transcript_row_conflicts lease (n + 1 + int k) (ms ! k) row"
proof -
  obtain row where row: "row \<in> set (transcript_existing uuid5 lease n (length ms) db) \<union> set rows"
    "pm_id (mr_message row) = transcript_identifier uuid5 lease (n + 1 + int k)"
    "\<not> transcript_row_conflicts lease (n + 1 + int k) (ms ! k) row"
    using transcript_rows_cover [OF rows k] by blast
  have id: "pm_id (mr_message row)
      \<in> set (map (\<lambda>k. transcript_identifier uuid5 lease (n + int k + 1)) [0..<length ms])"
    using k row(2) by (auto simp: algebra_simps intro!: rev_image_eqI [of k])
  have "row \<in> set (transcript_existing uuid5 lease n (length ms) db')"
    using row(1) id transcript_rows_tenant [OF rows] by (auto simp: transcript_existing_def db')
  moreover have "distinct (map (\<lambda>m. pm_id (mr_message m)) (transcript_existing uuid5 lease n (length ms) db'))"
    unfolding transcript_existing_def using messages_distinct [OF c] by (rule distinct_map_filter)
  ultimately have "select_one (\<lambda>r. pm_id (mr_message r) = transcript_identifier uuid5 lease (n + 1 + int k))
      (transcript_existing uuid5 lease n (length ms) db') = Some row"
    using row(2) by (intro select_one_distinct [where key = "\<lambda>m. pm_id (mr_message m)"]) simp_all
  with row(3) show ?thesis by blast
qed

text \<open>
  C27: Appending to the transcript is idempotent: once a suffix has been appended, a worker
  that repeats the call - after a lost response, at a later time, as long as it still holds
  its lease - succeeds without changing anything, and each position of the suffix has
  its message stored under the position's identifier.
\<close>

theorem append_transcript_idempotent:
  assumes "append_transcript_fenced uuid5 sz clock lease (PyInt n) ms t db = Inr ((), db')"
    and "assert_active_run_lease clock2 lease db' = Inr r"
  shows "append_transcript_fenced uuid5 sz clock2 lease (PyInt n) ms t2 db' = Inr ((), db')
    \<and> (\<forall>k < length ms. \<exists>m \<in> set (db_messages db').
         pm_id (mr_message m) = transcript_identifier uuid5 lease (n + 1 + int k)
         \<and> pm_role (mr_message m) = gm_role (ms ! k) \<and> pm_content (mr_message m) = gm_content (ms ! k))"
proof -
  obtain rows where rows: "transcript_rows uuid5 lease t (transcript_existing uuid5 lease n (length ms) db)
        (next_message_sequence (rl_tenant_id lease) (rl_session_id lease) db) (n + 1) ms = Inr rows"
    and args: "0 \<le> n" "ms \<noteq> []" "length ms \<le> MAX_TRANSCRIPT_SUFFIX_MESSAGES"
      "sum_list (map sz ms) \<le> MAX_TRANSCRIPT_SUFFIX_BYTES"
      "list_ex (\<lambda>s. session_tenant_id s = rl_tenant_id lease \<and> session_id s = rl_session_id lease) (db_sessions db)"
    and db': "db' = db\<lparr>db_messages := db_messages db @ rows\<rparr>" and c: "constraints_ok db'"
    using append_transcript_ok_cases [OF assms(1)] by auto
  note cover = transcript_covered [OF c db' rows]
  have replay: "transcript_rows uuid5 lease t2 (transcript_existing uuid5 lease n (length ms) db') q (n + 1) ms = Inr []" for q
    by (rule transcript_rows_replay) (rule cover)
  have "db_sessions db' = db_sessions db" by (simp add: db')
  with args assms(2) c have "append_transcript_fenced uuid5 sz clock2 lease (PyInt n) ms t2 db' = Inr ((), db')"
    by (simp add: append_transcript_fenced_def replay bindE_eq_Inr)
  moreover have "\<exists>m \<in> set (db_messages db').
      pm_id (mr_message m) = transcript_identifier uuid5 lease (n + 1 + int k)
      \<and> pm_role (mr_message m) = gm_role (ms ! k) \<and> pm_content (mr_message m) = gm_content (ms ! k)"
    if "k < length ms" for k
  proof -
    obtain row where sel: "select_one (\<lambda>r. pm_id (mr_message r) = transcript_identifier uuid5 lease (n + 1 + int k))
        (transcript_existing uuid5 lease n (length ms) db') = Some row"
      and ok: "\<not> transcript_row_conflicts lease (n + 1 + int k) (ms ! k) row"
      using cover [OF \<open>k < length ms\<close>] by blast
    show ?thesis
      using select_one_Some [OF sel] ok
      by (intro bexI [of _ row]) (auto simp: transcript_row_conflicts_def transcript_existing_def)
  qed
  ultimately show ?thesis by blast
qed

definition sample_gateway_message :: GatewayMessage where
  "sample_gateway_message = \<lparr>gm_role = USER, gm_content = ''hello'', gm_tool_call_id = None, gm_tool_calls = []\<rparr>"

theorem append_transcript_idempotent_witness:
  "\<exists>db'. append_transcript_fenced (env_uuid5 sample_env) (\<lambda>_. 0) (100, 100) sample_lease (PyInt 0)
       [sample_gateway_message] 100 sample_db = Inr ((), db')
     \<and> append_transcript_fenced (env_uuid5 sample_env) (\<lambda>_. 0) (110, 110) sample_lease (PyInt 0)
       [sample_gateway_message] 110 db' = Inr ((), db')"
proof -
  let ?u = "env_uuid5 sample_env"
  let ?db = "sample_db\<lparr>db_messages := [transcript_row ?u sample_lease 100 1 1 sample_gateway_message]\<rparr>"
  have "is_ok (assert_active_run_lease (100, 100) sample_lease sample_db)" by code_simp
  then obtain r0 where r0: "assert_active_run_lease (100, 100) sample_lease sample_db = Inr r0"
    by (auto simp: is_ok_iff)
  have "is_ok (assert_active_run_lease (110, 110) sample_lease ?db)" by code_simp
  then obtain r where r: "assert_active_run_lease (110, 110) sample_lease ?db = Inr r" by (auto simp: is_ok_iff)
  have rows: "transcript_rows ?u sample_lease 100 (transcript_existing ?u sample_lease 0 (Suc 0) sample_db)
      (next_message_sequence 1 5 sample_db) 1 [sample_gateway_message]
      = Inr [transcript_row ?u sample_lease 100 1 1 sample_gateway_message]" by code_simp
  have c: "constraints_ok ?db" by code_simp
  have f: "rl_tenant_id sample_lease = 1" "rl_session_id sample_lease = 5" "db_messages sample_db = []"
    "list_ex (\<lambda>s. session_tenant_id s = 1 \<and> session_id s = 5) (db_sessions sample_db)" "length [sample_gateway_message] = 1"
    by (simp_all add: sample_lease_def sample_db_def empty_db_def sample_session_def)
  have a: "append_transcript_fenced ?u (\<lambda>_. 0) (100, 100) sample_lease (PyInt 0)
      [sample_gateway_message] 100 sample_db = Inr ((), ?db)"
    using r0 rows c f
    by (simp add: append_transcript_fenced_def MAX_TRANSCRIPT_SUFFIX_MESSAGES_def bindE_eq_Inr
        del: transcript_rows.simps One_nat_def)
  from append_transcript_idempotent [OF a r] a show ?thesis by blast
qed

subsection \<open>Tool calls\<close>

lemma save_tool_call_ok_cases:
  assumes ok: "save_tool_call hash tenant call db = Inr (c, db')"
  shows "(stored_tool_call tenant call db = None \<and> c = call
        \<and> db' = db\<lparr>db_tool_calls := db_tool_calls db @ [\<lparr>tc_tenant_id = tenant, tc_call = call\<rparr>]\<rparr>)
    \<or> (\<exists>row. stored_tool_call tenant call db = Some row \<and> tool_call_domain hash row = Inr c \<and> db' = db
        \<and> (tool_call_row_matches row call \<or> tool_status call \<in> TOOL_CALL_PREDECESSORS (tool_status (tc_call row))))
    \<or> (\<exists>row. stored_tool_call tenant call db = Some row \<and> c = call
        \<and> tool_status call \<in> TOOL_CALL_TRANSITIONS (tool_status (tc_call row))
        \<and> db' = db\<lparr>db_tool_calls := put_row tool_call_key (updated_tool_call call row) (db_tool_calls db)\<rparr>)"
proof -
  have row: "save_tool_call_row hash tenant call db = Inr (c, db')"
    using ok by (auto simp: save_tool_call_def bindE_eq_Inr)
  show ?thesis
  proof (cases "stored_tool_call tenant call db")
    case None
    with row show ?thesis by (auto simp: save_tool_call_row_def)
  next
    case (Some r)
    let ?old = "tool_call_row_matches r call \<or> tool_status call \<in> TOOL_CALL_PREDECESSORS (tool_status (tc_call r))"
    show ?thesis
    proof (cases ?old)
      case True
      then have "tool_call_domain hash r = Inr c \<and> db' = db"
        using row Some by (simp add: save_tool_call_row_def bindE_eq_Inr split: if_splits)
      with True Some show ?thesis by blast
    next
      case False
      then have "tool_status call \<in> TOOL_CALL_TRANSITIONS (tool_status (tc_call r)) \<and> c = call
          \<and> db' = db\<lparr>db_tool_calls := put_row tool_call_key (updated_tool_call call r) (db_tool_calls db)\<rparr>"
        using row Some by (auto simp: save_tool_call_row_def split: if_splits)
      with Some show ?thesis by blast
    qed
  qed
qed

lemma updated_tool_call_simps [simp]:
  "tool_call_key (updated_tool_call call row) = tool_call_key row"
  "tool_status (tc_call (updated_tool_call call row)) = tool_status call"
  "tool_tool_name (tc_call (updated_tool_call call row)) = tool_tool_name (tc_call row)"
  "tool_arguments (tc_call (updated_tool_call call row)) = tool_arguments (tc_call row)"
  "tool_result (tc_call (updated_tool_call call row)) = tool_result call"
  by (simp_all add: updated_tool_call_def tool_call_key_def)

lemma tool_calls_distinct: "constraints_ok db \<Longrightarrow> distinct (map tool_call_key (db_tool_calls db))"
  by (simp add: constraints_ok_def execution_unique_ok_def)

lemma save_tool_call_constraints: "save_tool_call hash tenant call db = Inr (c, db') \<Longrightarrow> constraints_ok db'"
  by (auto simp: save_tool_call_def bindE_eq_Inr)

text \<open>
  C28: A tool call only moves forward. Saving a call stores it if it is new; otherwise the
  stored call keeps its name and arguments, and it is unchanged or has advanced by one
  allowed transition. A late write of an earlier status is answered with the stored call and
  changes nothing, so a completed call keeps its result.
\<close>

theorem tool_call_moves_forward:
  assumes "constraints_ok db" "save_tool_call hash tenant call db = Inr (c, db')"
  shows "\<exists>row'. stored_tool_call tenant call db' = Some row'
    \<and> (case stored_tool_call tenant call db of
         None \<Rightarrow> tc_call row' = call
       | Some row \<Rightarrow> tool_tool_name (tc_call row') = tool_tool_name (tc_call row)
           \<and> tool_arguments (tc_call row') = tool_arguments (tc_call row)
           \<and> (row' = row \<and> db' = db
              \<or> tool_status (tc_call row') = tool_status call
                \<and> tool_status call \<in> TOOL_CALL_TRANSITIONS (tool_status (tc_call row)))
           \<and> (tool_status call \<in> TOOL_CALL_PREDECESSORS (tool_status (tc_call row)) \<longrightarrow> db' = db)
           \<and> (tool_status (tc_call row) \<in> terminal_tool_statuses \<longrightarrow> db' = db))"
  using save_tool_call_ok_cases [OF assms(2)]
proof (elim disjE exE conjE)
  assume none: "stored_tool_call tenant call db = None"
    and db': "db' = db\<lparr>db_tool_calls := db_tool_calls db @ [\<lparr>tc_tenant_id = tenant, tc_call = call\<rparr>]\<rparr>"
  have "stored_tool_call tenant call db' = Some \<lparr>tc_tenant_id = tenant, tc_call = call\<rparr>"
    using none by (simp add: stored_tool_call_def db' select_one_append tool_call_key_def)
  with none show ?thesis by auto
next
  fix row
  assume row: "stored_tool_call tenant call db = Some row"
    and st: "tool_status call \<in> TOOL_CALL_TRANSITIONS (tool_status (tc_call row))"
    and db': "db' = db\<lparr>db_tool_calls := put_row tool_call_key (updated_tool_call call row) (db_tool_calls db)\<rparr>"
  note mem = select_one_Some [OF row [unfolded stored_tool_call_def]]
  have "updated_tool_call call row \<in> set (db_tool_calls db')"
    using mem by (auto simp: db' set_put_row image_iff intro!: bexI [of _ row])
  then have "stored_tool_call tenant call db' = Some (updated_tool_call call row)"
    unfolding stored_tool_call_def using mem
    by (intro select_one_distinct [OF tool_calls_distinct [OF save_tool_call_constraints [OF assms(2)]]]) simp_all
  moreover have "tool_status call \<notin> TOOL_CALL_PREDECESSORS (tool_status (tc_call row))"
    "tool_status (tc_call row) \<notin> terminal_tool_statuses"
    using st by (cases "tool_status (tc_call row)"; auto simp: terminal_tool_statuses_def)+
  ultimately show ?thesis using row st by auto
qed auto

definition sample_tool_running :: ToolCall where
  "sample_tool_running = sample_tool\<lparr>tool_status := TOOL_RUNNING, tool_started_at := Some 90\<rparr>"

theorem tool_call_moves_forward_witness:
  "\<exists>c db' row'. save_tool_call (env_hash sample_env) 1 sample_tool_running sample_asking = Inr (c, db')
     \<and> stored_tool_call 1 sample_tool_running db' = Some row' \<and> tool_tool_name (tc_call row') = ''write_file''"
proof -
  have "is_ok (save_tool_call (env_hash sample_env) 1 sample_tool_running sample_asking)" by code_simp
  then obtain c db' where s: "save_tool_call (env_hash sample_env) 1 sample_tool_running sample_asking = Inr (c, db')"
    by (auto simp: is_ok_iff)
  have row: "stored_tool_call 1 sample_tool_running sample_asking = Some \<lparr>tc_tenant_id = 1, tc_call = sample_tool\<rparr>"
    by (simp add: stored_tool_call_def sample_asking_def sample_tool_running_def sample_tool_def tool_call_key_def)
  from tool_call_moves_forward [OF queue_invD(1) [OF sample_asking_inv] s] s row show ?thesis
    by (auto simp: sample_tool_def)
qed

subsection \<open>The journal\<close>

text \<open>
  What no operation undoes: messages are appended only, and a settled tool call stays as it
  is. Most operations do not touch the two tables at all.
\<close>

definition journal_same :: "database \<Rightarrow> database \<Rightarrow> bool" where
  "journal_same db db' \<longleftrightarrow> db_messages db' = db_messages db \<and> db_tool_calls db' = db_tool_calls db"

definition journal_kept :: "database \<Rightarrow> database \<Rightarrow> bool" where
  "journal_kept db db' \<longleftrightarrow>
     (\<exists>ms. db_messages db' = db_messages db @ ms)
   \<and> (\<forall>t \<in> set (db_tool_calls db). tool_status (tc_call t) \<in> terminal_tool_statuses \<longrightarrow> t \<in> set (db_tool_calls db'))"

lemma journal_kept_same: "journal_same db db' \<Longrightarrow> journal_kept db db'"
  by (simp add: journal_same_def journal_kept_def)

lemma journal_kept_trans: "journal_kept db db1 \<Longrightarrow> journal_kept db1 db2 \<Longrightarrow> journal_kept db db2"
  by (auto simp: journal_kept_def)

named_theorems journal

lemma journal_queue_tables [simp]:
  "db_messages (put_run r db) = db_messages db" "db_tool_calls (put_run r db) = db_tool_calls db"
  "db_messages (return_worker_slot i db) = db_messages db" "db_tool_calls (return_worker_slot i db) = db_tool_calls db"
  "db_messages (delete_lease l db) = db_messages db" "db_tool_calls (delete_lease l db) = db_tool_calls db"
  "db_messages (release_workspace_for_run l db) = db_messages db"
  "db_tool_calls (release_workspace_for_run l db) = db_tool_calls db"
  "db_messages (enqueue_memory_extraction u r t db) = db_messages db"
  "db_tool_calls (enqueue_memory_extraction u r t db) = db_tool_calls db"
  by (simp_all add: put_run_def return_worker_slot_def delete_lease_def release_workspace_for_run_def
      enqueue_memory_extraction_def Let_def split: option.splits)

lemma journal_workers [journal]:
  "register_worker reg db = Inr (w, db') \<Longrightarrow> journal_same db db'"
  "heartbeat_worker i d n db = Inr (w, db') \<Longrightarrow> journal_same db db'"
  "set_worker_draining i b d db = Inr (w, db') \<Longrightarrow> journal_same db db'"
  subgoal
    by (cases "select_one (\<lambda>w. wr_worker_id w = wr_worker_id reg) (db_workers db)")
      (auto simp: register_worker_def bindE_eq_Inr Let_def journal_same_def split: if_splits)
  subgoal
    by (cases "select_one (\<lambda>w. wr_worker_id w = i) (db_workers db)"; cases n)
      (auto simp: heartbeat_worker_def bindE_eq_Inr Let_def journal_same_def split: if_splits)
  subgoal
    by (cases "select_one (\<lambda>w. wr_worker_id w = i) (db_workers db)")
      (auto simp: set_worker_draining_def bindE_eq_Inr Let_def journal_same_def split: if_splits)
  done

lemma journal_claim:
  assumes "queue_inv db" "quota_ok (qc_default_quota cfg)" "claim cfg locks t1 t2 i d dur db = Inr (res, db')"
  shows "journal_same db db'"
  using claim_ok_cases [OF assms]
  by (auto simp: journal_same_def claims_def claim_touches_def claimed_db_def put_run_def)

lemma journal_lease_holder:
  assumes inv: "queue_inv db"
  shows "start lease d db = Inr (r1, db') \<Longrightarrow> journal_same db db'"
    and "heartbeat lease d dur db = Inr (r2, db') \<Longrightarrow> journal_same db db'"
    and "execution_result_valid result \<Longrightarrow> finish u lease result d db = Inr (r3, db') \<Longrightarrow> journal_same db db'"
  subgoal using start_ok_cases [OF inv] by (fastforce simp: journal_same_def)
  subgoal using heartbeat_ok_cases by (fastforce simp: journal_same_def)
  subgoal using finish_ok_cases [OF inv] by (fastforce simp: journal_same_def finished_db_def)
  done

lemma claim_workspace_journal:
  "claim_workspace locked key db = (w, db') \<Longrightarrow> journal_same db db'"
  by (auto simp: claim_workspace_def journal_same_def Let_def split: option.splits)

lemma journal_acquire [journal]:
  assumes "acquire tok lease d dur db = Inr (r, db')"
  shows "journal_same db db'"
proof -
  obtain w db1 where c: "claim_workspace (\<lambda>_. False) (rl_tenant_id lease, rl_workspace_id lease) db = (w, db1)"
    by fastforce
  have "db' = db1 \<or> (\<exists>w'. db' = put_workspace w' db1)"
    using assms c by (auto simp: acquire_def bindE_eq_Inr Let_def split: option.splits if_splits)
  then show ?thesis using claim_workspace_journal [OF c] by (auto simp: journal_same_def put_workspace_def)
qed

lemma journal_workspace [journal]:
  "workspace_heartbeat wl d dur db = Inr (r2, db') \<Longrightarrow> journal_same db db'"
  "workspace_release wl db = Inr (r3, db') \<Longrightarrow> journal_same db db'"
  subgoal using workspace_heartbeat_ok_cases by (fastforce simp: journal_same_def put_workspace_def)
  subgoal
    by (auto simp: journal_same_def workspace_release_def put_workspace_def bindE_eq_Inr
        split: option.splits if_splits)
  done

lemma journal_recover_retries:
  "recover_retries t rows db = Inr (rs, db') \<Longrightarrow> journal_same db db'"
  by (induction rows arbitrary: db rs) (auto simp: journal_same_def bindE_eq_Inr Let_def)

lemma journal_recover_leases:
  "recover_leases t ls db = Inr (rs, db') \<Longrightarrow> journal_same db db'"
proof (induction ls arbitrary: db rs)
  case (Cons l ls)
  then obtain here db1 rs1 where
    step: "(case select_one (\<lambda>r. rr_tenant_id r = le_tenant_id l \<and> rr_id r = le_run_id l) (db_runs db) of
              None \<Rightarrow> Inr ([], db)
            | Some run_row \<Rightarrow>
                if rr_lease_generation run_row = le_generation l
                   \<and> run_assigned_worker_id (rr_run run_row) = Some (le_worker_id l)
                   \<and> rr_status run_row \<in> {LEASED, RUNNING}
                then bindE (run_domain run_row) (\<lambda>current.
                     bindE (recovered_run t current) (\<lambda>next_run.
                     Inr ([next_run], put_run (apply_run run_row next_run) db)))
                else Inr ([], db)) = Inr (here, db1)"
    and rest: "recover_leases t ls (release_lease l db1) = Inr (rs1, db')"
    by (auto simp: bindE_eq_Inr Let_def)
  have "journal_same db db1"
    using step by (auto simp: journal_same_def bindE_eq_Inr split: option.splits if_splits)
  with Cons.IH [OF rest] show ?case by (simp add: journal_same_def)
qed (simp add: journal_same_def)

lemma journal_recover [journal]:
  "recover_expired locks d limit db = Inr (rs, db') \<Longrightarrow> journal_same db db'"
  by (cases limit)
    (auto simp: recover_expired_def bindE_eq_Inr journal_same_def split: if_splits
      dest!: journal_recover_retries journal_recover_leases)

lemma journal_quotas [journal]:
  "create_session s db = Inr (r1, db') \<Longrightarrow> journal_same db db'"
  "get_quota q d tenant db = Inr (r2, db') \<Longrightarrow> journal_same db db'"
  "set_quota q tenant q' d db = Inr (r2, db') \<Longrightarrow> journal_same db db'"
  by (auto simp: create_session_def get_quota_def set_quota_def bindE_eq_Inr Let_def journal_same_def
      split: if_splits dest: ensure_tenant_quota_db)

lemma journal_runs:
  assumes inv: "queue_inv db"
  shows "\<lbrakk>repository_transition tenant i a b d w x db = Inr (r1, db'); b \<noteq> LEASED\<rbrakk> \<Longrightarrow> journal_same db db'"
    and "request_cancel tenant i d db = Inr (r2, db') \<Longrightarrow> journal_same db db'"
    and "decide tenant i e decision db = Inr (r3, db') \<Longrightarrow> journal_same db db'"
  subgoal using repository_transition_ok_cases [OF inv] by (fastforce simp: journal_same_def)
  subgoal using request_cancel_ok_cases [OF inv] by (fastforce simp: journal_same_def)
  subgoal
    by (drule decide_ok_cases [OF inv]) (auto simp: journal_same_def resumed_db_def put_approval_def)
  done

lemma journal_branches:
  assumes inv: "queue_inv db"
  shows "create_run digest cfg mid pid tenant run key hash sub db = Inr (r1, db') \<Longrightarrow> journal_kept db db'"
    and "rewind uuid5 now tenant i c db = Inr (r2, db') \<Longrightarrow> journal_kept db db'"
  subgoal by (drule create_run_ok_cases [OF inv]) (auto simp: journal_kept_def)
  subgoal by (drule rewind_ok_cases [OF inv]) (auto simp: journal_kept_def)
  done

lemma journal_messages [journal]:
  "append_message tenant m db = Inr (r1, db') \<Longrightarrow> journal_kept db db'"
  "append_transcript_fenced uuid5 sz clock lease first ms t db = Inr (r2, db') \<Longrightarrow> journal_kept db db'"
  subgoal by (auto simp: append_message_def bindE_eq_Inr journal_kept_def)
  subgoal by (drule append_transcript_ok_cases) (auto simp: journal_kept_def)
  done

lemma journal_execution [journal]:
  "save_task_plan tenant p db = Inr (r1, db') \<Longrightarrow> journal_same db db'"
  "create_approval tenant a tool db = Inr (r2, db') \<Longrightarrow> journal_same db db'"
  "create_checkpoint tenant c db = Inr (r3, db') \<Longrightarrow> journal_same db db'"
  "complete_checkpoint_fenced clock lease i u v db = Inr (r4, db') \<Longrightarrow> journal_same db db'"
  "save_model_call tenant m db = Inr (r5, db') \<Longrightarrow> journal_same db db'"
  by (auto simp: save_task_plan_def create_approval_def create_checkpoint_def complete_checkpoint_fenced_def
      save_model_call_def bindE_eq_Inr journal_same_def Let_def split: option.splits if_splits)

lemma journal_fenced [journal]:
  "create_approval_fenced clock lease a tool' db = Inr (r2, db') \<Longrightarrow> journal_same db db'"
  "create_checkpoint_fenced clock lease c db = Inr (r3, db') \<Longrightarrow> journal_same db db'"
  subgoal
    by (auto simp: create_approval_fenced_def bindE_eq_Inr journal_same_def dest!: journal_execution(2)
        split: option.splits if_splits)
  subgoal
    by (auto simp: create_checkpoint_fenced_def bindE_eq_Inr journal_same_def dest!: journal_execution(3)
        split: option.splits if_splits)
  done

lemma journal_tool_call [journal]:
  assumes "save_tool_call hash tenant call db = Inr (c, db')"
  shows "journal_kept db db'"
  using save_tool_call_ok_cases [OF assms]
proof (elim disjE exE conjE)
  fix row
  assume row: "stored_tool_call tenant call db = Some row"
    and st: "tool_status call \<in> TOOL_CALL_TRANSITIONS (tool_status (tc_call row))"
    and db': "db' = db\<lparr>db_tool_calls := put_row tool_call_key (updated_tool_call call row) (db_tool_calls db)\<rparr>"
  have live: "tool_status (tc_call row) \<notin> terminal_tool_statuses"
    using st by (cases "tool_status (tc_call row)") (auto simp: terminal_tool_statuses_def)
  note mem = select_one_Some [OF row [unfolded stored_tool_call_def]]
  have "distinct (map tool_call_key (db_tool_calls db'))"
    using tool_calls_distinct [OF save_tool_call_constraints [OF assms]] .
  then have d: "distinct (map tool_call_key (db_tool_calls db))" by (simp add: db' map_key_put_row)
  have "t \<in> set (db_tool_calls db')"
    if "t \<in> set (db_tool_calls db)" "tool_status (tc_call t) \<in> terminal_tool_statuses" for t
    using that mem live by (auto simp: db' set_put_row_distinct [OF d])
  then show ?thesis by (simp add: journal_kept_def db')
qed (auto simp: journal_kept_def)

lemma journal_tool_call_fenced [journal]:
  "save_tool_call_fenced hash clock lease call db = Inr (c, db') \<Longrightarrow> journal_kept db db'"
  by (auto simp: save_tool_call_fenced_def bindE_eq_Inr split: if_splits intro: journal_tool_call)

lemma perform_journal:
  assumes inv: "queue_inv db" and x: "admissible x" and p: "perform env x db = Some db'"
  shows "journal_kept db db'"
  using p x journal_claim [OF inv] journal_lease_holder [OF inv] journal_runs [OF inv] journal_branches [OF inv]
  by (cases x) (auto simp: active_status_def intro: journal_kept_same dest: journal)

lemma run_journal:
  "queue_inv db \<Longrightarrow> list_all admissible ops \<Longrightarrow> journal_kept db (run_ops (platform_step env) ops db)"
proof (induction ops arbitrary: db)
  case (Cons x ops)
  have "journal_kept db (platform_step env x db)"
    using perform_journal [OF Cons.prems(1)] Cons.prems(2)
    by (auto simp: platform_step_def journal_kept_def split: option.splits)
  moreover have "journal_kept (platform_step env x db) (run_ops (platform_step env) (x # ops) db)"
    using Cons.IH [OF platform_step_inv [OF Cons.prems(1)]] Cons.prems(2) by simp
  ultimately show ?case by (rule journal_kept_trans)
qed (simp add: journal_kept_def)

text \<open>
  C9: Whatever history of admissible operations follows - retries, recoveries, rewinds,
  cancellations, other workers' writes - the transcript is append-only (no message is changed,
  removed or reordered) and a tool call that reached a final status is never altered again, so
  a worker that resumes a run finds every effect that was recorded.
\<close>

theorem journal_append_only:
  assumes "queue_inv db" "list_all admissible ops"
  shows "(\<exists>ms. db_messages (run_ops (platform_step env) ops db) = db_messages db @ ms)
    \<and> (\<forall>t \<in> set (db_tool_calls db). tool_status (tc_call t) \<in> terminal_tool_statuses \<longrightarrow>
          t \<in> set (db_tool_calls (run_ops (platform_step env) ops db)))"
  using run_journal [OF assms] by (simp add: journal_kept_def)

definition sample_settled_call :: ToolCallRecord where
  "sample_settled_call = \<lparr>tc_tenant_id = 1, tc_call = sample_tool\<lparr>tool_status := TOOL_CANCELLED,
     tool_completed_at := Some 90, tool_error := Some \<lparr>err_code = ''cancelled'', err_message = ''denied'',
       err_retryable = False, err_details = []\<rparr>\<rparr>\<rparr>"

definition sample_settled :: database where
  "sample_settled = sample_db\<lparr>
     db_messages := [transcript_row (env_uuid5 sample_env) sample_lease 100 1 1 sample_gateway_message],
     db_tool_calls := [sample_settled_call]\<rparr>"

lemma sample_settled_inv: "queue_inv sample_settled"
  by code_simp

theorem journal_append_only_witness:
  "(\<exists>ms. db_messages (run_ops (platform_step sample_env)
       [SaveToolCall 1 sample_tool, RecoverExpired no_locks (utc 2000) (PyInt 10), Rewind 2100 1 8 9] sample_settled)
     = db_messages sample_settled @ ms)
   \<and> sample_settled_call \<in> set (db_tool_calls (run_ops (platform_step sample_env)
       [SaveToolCall 1 sample_tool, RecoverExpired no_locks (utc 2000) (PyInt 10), Rewind 2100 1 8 9] sample_settled))"
proof -
  have ops: "list_all admissible
      [SaveToolCall 1 sample_tool, RecoverExpired no_locks (utc 2000) (PyInt 10), Rewind 2100 1 8 9]" by simp
  have "sample_settled_call \<in> set (db_tool_calls sample_settled)"
    "tool_status (tc_call sample_settled_call) \<in> terminal_tool_statuses"
    by (simp_all add: sample_settled_def sample_settled_call_def terminal_tool_statuses_def)
  with journal_append_only [OF sample_settled_inv ops, of sample_env] show ?thesis by blast
qed

end
