(* ===== verification/Fencing.thy ===== *)
theory Fencing
  imports Queue_Properties
begin

section \<open>The fencing contract\<close>

text \<open>
  The abstract promise of the run queue: a fencing lock per run. Its state is the number of
  grants so far and the current holder; it grants only a free lock, and every grant takes the
  next number. The control plane - all operations on its tables - is shown to implement it:
  the lock state read off the tables moves by steps of the contract only. What a client may
  rely on is then proved once, on the contract.
\<close>

type_synonym fence = "uuid \<rightharpoonup> int \<times> (string \<times> uuid) option"

inductive fence_step :: "fence \<Rightarrow> fence \<Rightarrow> bool" where
  create: "f i = None \<Longrightarrow> fence_step f (f(i \<mapsto> (0, None)))"
| grant: "f i = Some (g, None) \<Longrightarrow> fence_step f (f(i \<mapsto> (g + 1, Some h)))"
| release: "f i = Some (g, Some h) \<Longrightarrow> fence_step f (f(i \<mapsto> (g, None)))"

inductive_cases fence_stepE: "fence_step f f'"

definition holder_of :: "database \<Rightarrow> uuid \<Rightarrow> (string \<times> uuid) option" where
  "holder_of db i = map_option (\<lambda>l. (le_worker_id l, le_lease_token l))
     (select_one (\<lambda>l. le_run_id l = i) (db_run_leases db))"

definition fence_of :: "database \<Rightarrow> fence" where
  "fence_of db i = map_option (\<lambda>r. (rr_lease_generation r, holder_of db i))
     (select_one (\<lambda>r. rr_id r = i) (db_runs db))"

subsection \<open>What the contract gives a client\<close>

text \<open>Numbers never decrease, and one number has one holder.\<close>

lemma fence_reach:
  assumes "fence_step\<^sup>*\<^sup>* f f'" "f i = Some (g, h)"
  shows "\<exists>g' h'. f' i = Some (g', h') \<and> g \<le> g' \<and> (g' = g \<longrightarrow> h' = None \<or> h' = h)"
  using assms
proof (induction rule: rtranclp_induct)
  case (step f1 f2)
  then obtain g1 h1 where "f1 i = Some (g1, h1)" "g \<le> g1" "g1 = g \<longrightarrow> h1 = None \<or> h1 = h" by blast
  with step.hyps(2) show ?case by (auto elim!: fence_stepE)
qed auto

lemma fence_one_holder:
  "fence_step\<^sup>*\<^sup>* f f' \<Longrightarrow> f i = Some (g, Some h) \<Longrightarrow> f' i = Some (g, Some h') \<Longrightarrow> h' = h"
  using fence_reach by fastforce

subsection \<open>The tables implement the contract\<close>

lemma select_one_cong:
  "list_all2 (\<lambda>x y. p x = q y \<and> f x = g y) xs ys \<Longrightarrow>
     map_option f (select_one p xs) = map_option g (select_one q ys)"
  by (induction rule: list_all2_induct) auto

lemma select_key_None: "k \<notin> key ` set t \<Longrightarrow> select_one (\<lambda>r. key r = k) t = None"
  by (induction t) auto

lemma fence_of_finite: "finite (dom (fence_of db))"
proof (rule finite_subset)
  show "dom (fence_of db) \<subseteq> rr_id ` set (db_runs db)"
    by (auto simp: fence_of_def dest!: select_one_Some)
qed simp

lemma fence_releases:
  assumes fin: "finite {i. f i \<noteq> f' i}"
    and diff: "\<And>i. f i \<noteq> f' i \<Longrightarrow> \<exists>g h. f i = Some (g, Some h) \<and> f' i = Some (g, None)"
  shows "fence_step\<^sup>*\<^sup>* f f'"
  using fin diff
proof (induction "card {i. f i \<noteq> f' i}" arbitrary: f)
  case 0
  then have "f = f'" by auto
  then show ?case by simp
next
  case (Suc n)
  then obtain i where i: "f i \<noteq> f' i" by (metis (mono_tags, lifting) card.empty empty_Collect_eq nat.distinct(1))
  then obtain g h where gh: "f i = Some (g, Some h)" "f' i = Some (g, None)" using Suc.prems(2) by blast
  let ?f = "f(i \<mapsto> (g, None))"
  have eq: "{j. ?f j \<noteq> f' j} = {j. f j \<noteq> f' j} - {i}" using gh by auto
  have "n = card {j. ?f j \<noteq> f' j}" using Suc.hyps(2) Suc.prems(1) i unfolding eq by simp
  moreover have "finite {j. ?f j \<noteq> f' j}" using Suc.prems(1) unfolding eq by simp
  moreover have "\<exists>g h. ?f j = Some (g, Some h) \<and> f' j = Some (g, None)" if "?f j \<noteq> f' j" for j
    using Suc.prems(2) [of j] that gh by (auto split: if_splits)
  ultimately have "fence_step\<^sup>*\<^sup>* ?f f'" by (rule Suc.hyps(1))
  moreover have "fence_step f ?f" using gh(1) by (rule release)
  ultimately show ?case by (blast intro: converse_rtranclp_into_rtranclp)
qed

lemma keeps_fence:
  assumes inv: "queue_inv db" "queue_inv db'" and k: "keeps db db'"
  shows "fence_step\<^sup>*\<^sup>* (fence_of db) (fence_of db')"
proof (rule fence_releases)
  have runs: "map_option rr_lease_generation (select_one (\<lambda>r. rr_id r = i) (db_runs db')) =
      map_option rr_lease_generation (select_one (\<lambda>r. rr_id r = i) (db_runs db))" for i
    using k by (intro select_one_cong [symmetric]) (auto simp: keeps_def run_kept_def elim!: list_all2_mono)
  have holder: "holder_of db' i = None \<or> holder_of db' i = holder_of db i" for i
  proof (cases "select_one (\<lambda>l. le_run_id l = i) (db_run_leases db')")
    case (Some l')
    note l' = select_one_Some [OF Some]
    obtain l where l: "l \<in> set (db_run_leases db)" "same_lease l l'" using k l' by (auto simp: keeps_def)
    have "select_one (\<lambda>l. le_run_id l = i) (db_run_leases db) = Some l"
      using select_one_distinct [OF queue_invD(8) [OF inv(1)] l(1)] l(2) l' by (simp add: same_lease_def)
    with Some l(2) show ?thesis by (simp add: holder_of_def same_lease_def)
  qed (simp add: holder_of_def)
  have shape: "fence_of d i = map_option (\<lambda>g. (g, holder_of d i))
      (map_option rr_lease_generation (select_one (\<lambda>r. rr_id r = i) (db_runs d)))" for d i
    by (simp add: fence_of_def option.map_comp comp_def)
  show diff: "\<exists>g h. fence_of db i = Some (g, Some h) \<and> fence_of db' i = Some (g, None)"
    if "fence_of db i \<noteq> fence_of db' i" for i
    using that holder [of i] unfolding shape [of db'] runs shape [of db]
    by (cases "holder_of db i"; cases "select_one (\<lambda>r. rr_id r = i) (db_runs db)") auto
  show "finite {i. fence_of db i \<noteq> fence_of db' i}"
    by (rule finite_subset [OF _ fence_of_finite [of db]]) (auto dest: diff)
qed

lemma creates_fence:
  assumes inv: "queue_inv db" "queue_inv db'" and c: "creates db db'"
  shows "fence_step\<^sup>*\<^sup>* (fence_of db) (fence_of db')"
proof -
  obtain row where row: "db_runs db' = db_runs db @ [row]" "rr_lease_generation row = 0"
    and leases: "db_run_leases db' = db_run_leases db"
    using c by (auto simp: creates_def)
  have new: "rr_id row \<notin> rr_id ` set (db_runs db)" using queue_invD(7) [OF inv(2)] row(1) by simp
  then have none: "select_one (\<lambda>r. rr_id r = rr_id row) (db_runs db) = None"
    by (rule select_key_None)
  have free: "holder_of db (rr_id row) = None"
  proof -
    have "le_run_id l \<noteq> rr_id row" if l: "l \<in> set (db_run_leases db)" for l
    proof -
      obtain r where "r \<in> set (db_runs db)" "mirrors r l" using lease_mirror [OF inv(1) l] by blast
      then show ?thesis using new imageI [of r _ rr_id] by (auto simp: mirrors_def)
    qed
    then have "select_one (\<lambda>l. le_run_id l = rr_id row) (db_run_leases db) = None"
      by (simp add: select_one_None)
    then show ?thesis by (simp add: holder_of_def)
  qed
  have app: "select_one p (xs @ [x]) = (case select_one p xs of None \<Rightarrow> if p x then Some x else None | Some y \<Rightarrow> Some y)"
    for p and xs :: "RunRecord list" and x by (induction xs) auto
  have step: "fence_of db' = (fence_of db)(rr_id row \<mapsto> (0, None))"
    using none free row
    by (auto simp: fence_of_def app leases holder_of_def split: option.splits)
  have "fence_of db (rr_id row) = None" using none by (simp add: fence_of_def)
  from create [of "fence_of db", OF this] show ?thesis unfolding step by (rule r_into_rtranclp [of fence_step])
qed

lemma grants_fence:
  assumes inv: "queue_inv db" and g: "grants row row' l db db'"
  shows "fence_step\<^sup>*\<^sup>* (fence_of db) (fence_of db')"
proof -
  let ?i = "rr_id row" and ?g = "rr_lease_generation row"
  have row: "select_one (\<lambda>r. rr_id r = ?i) (db_runs db) = Some row"
    using g select_one_distinct [OF queue_invD(7) [OF inv], of row] by (simp add: grants_def)
  have free: "select_one (\<lambda>k. le_run_id k = ?i) (db_run_leases db) = None"
    using g by (intro select_key_None) (simp add: grants_def)
  have run: "map_option rr_lease_generation (select_one (\<lambda>r. rr_id r = i) (put_row rr_id row' xs)) =
      (if i = rr_id row' then map_option (\<lambda>_. rr_lease_generation row') (select_one (\<lambda>r. rr_id r = i) xs)
       else map_option rr_lease_generation (select_one (\<lambda>r. rr_id r = i) xs))" for i xs
    by (induction xs) (auto simp: put_row_def)
  have app: "select_one p (xs @ [x]) = (case select_one p xs of None \<Rightarrow> if p x then Some x else None | Some y \<Rightarrow> Some y)"
    for p and xs :: "RunLeaseRecord list" and x by (induction xs) auto
  have shape: "fence_of d i = map_option (\<lambda>g. (g, holder_of d i))
      (map_option rr_lease_generation (select_one (\<lambda>r. rr_id r = i) (db_runs d)))" for d i
    by (simp add: fence_of_def option.map_comp comp_def)
  have step: "fence_of db' = (fence_of db)(?i \<mapsto> (?g + 1, Some (le_worker_id l, le_lease_token l)))"
  proof
    fix i
    show "fence_of db' i = ((fence_of db)(?i \<mapsto> (?g + 1, Some (le_worker_id l, le_lease_token l)))) i"
      using g row free
      by (auto simp: shape run app grants_def holder_of_def split: option.splits)
  qed
  have "fence_of db ?i = Some (?g, None)" using row free by (simp add: fence_of_def holder_of_def)
  then show ?thesis unfolding step by (intro r_into_rtranclp [of fence_step] grant)
qed

lemma platform_step_fence:
  assumes "queue_inv db" "admissible x"
  shows "fence_step\<^sup>*\<^sup>* (fence_of db) (fence_of (platform_step env x db))"
  using platform_step_fences [OF assms, of env]
proof (elim disjE exE)
  show ?thesis if "keeps db (platform_step env x db)"
    using keeps_fence [OF assms(1) platform_step_inv [OF assms] that] .
  show ?thesis if "creates db (platform_step env x db)"
    using creates_fence [OF assms(1) platform_step_inv [OF assms] that] .
  show ?thesis if "grants row row' l db (platform_step env x db)" for row row' l
    using grants_fence [OF assms(1) that] .
qed

text \<open>The contract as a locale over any machine whose operations move its lock by steps of it.\<close>

locale fencing_lock = invariant_machine +
  fixes lock :: "'b \<Rightarrow> fence"
  assumes step_lock: "inv s \<Longrightarrow> admissible x \<Longrightarrow> fence_step\<^sup>*\<^sup>* (lock s) (lock (step x s))"
begin

lemma run_lock: "inv s \<Longrightarrow> list_all admissible xs \<Longrightarrow> fence_step\<^sup>*\<^sup>* (lock s) (lock (run_ops step xs s))"
proof (induction xs arbitrary: s)
  case (Cons x xs)
  have "fence_step\<^sup>*\<^sup>* (lock s) (lock (step x s))" using Cons.prems by (intro step_lock) simp_all
  also have "fence_step\<^sup>*\<^sup>* (lock (step x s)) (lock (run_ops step xs (step x s)))"
    using Cons.prems by (intro Cons.IH step_inv) simp_all
  finally show ?case by simp
qed simp

lemma one_holder:
  assumes "inv s" "list_all admissible xs" "lock s i = Some (g, Some h)"
    "lock (run_ops step xs s) i = Some (g, Some h')"
  shows "h' = h"
  using fence_one_holder [OF run_lock [OF assms(1,2)] assms(3,4)] .

end

interpretation lease_lock: fencing_lock "platform_step env" admissible queue_inv fence_of for env
  by unfold_locales (rule platform_step_fence)

lemma accepted_lease:
  assumes inv: "queue_inv db" and L: "locked_lease_state db lease = Inr (l, r, route)"
  shows "fence_of db (rl_run_id lease) =
    Some (rl_generation lease, Some (rl_worker_id lease, rl_lease_token lease))"
proof -
  note D = locked_lease_stateD [OF L]
  have "select_one (\<lambda>r. rr_id r = rl_run_id lease) (db_runs db) = Some r"
    using select_one_distinct [OF queue_invD(7) [OF inv] D(3)] D(5) by simp
  moreover have "select_one (\<lambda>l. le_run_id l = rl_run_id lease) (db_run_leases db) = Some l"
    using select_one_distinct [OF queue_invD(8) [OF inv] D(1)] D(5,7) by simp
  ultimately show ?thesis using D(2,6) by (simp add: fence_of_def holder_of_def lease_matches_def)
qed

text \<open>
  C4: The control plane implements the fencing contract. Over every history of admissible
  operations the lock state read off the run and lease tables moves by create, grant and
  release steps of the contract only - a lease is granted only for a run that has none, and
  with exactly the next generation - and the lease check that guards start, heartbeat and
  finish accepts a lease only if it names the current number and holder of the lock.
\<close>

theorem platform_implements_fencing:
  assumes "queue_inv db" "list_all admissible ops"
  shows "fence_step\<^sup>*\<^sup>* (fence_of db) (fence_of (run_ops (platform_step env) ops db))
    \<and> (\<forall>lease. is_ok (locked_lease_state (run_ops (platform_step env) ops db) lease) \<longrightarrow>
         fence_of (run_ops (platform_step env) ops db) (rl_run_id lease) =
           Some (rl_generation lease, Some (rl_worker_id lease, rl_lease_token lease)))"
  using lease_lock.run_lock [OF assms] accepted_lease [OF platform.run_inv [OF assms]]
  by (auto simp: is_ok_iff)

theorem platform_implements_fencing_witness:
  "fence_step\<^sup>*\<^sup>* (fence_of sample_db) (fence_of (run_ops (platform_step sample_env)
     [Claim sample_config no_locks (Some 70) (Some 71) ''worker-1'' (utc 200) 1000] sample_db))"
proof -
  have "list_all admissible [Claim sample_config no_locks (Some 70) (Some 71) ''worker-1'' (utc 200) 1000]"
    by (simp add: sample_config_def sample_quota_def quota_ok_def)
  with platform_implements_fencing [OF sample_inv] show ?thesis by blast
qed

text \<open>
  C5: A lease generation names one holder for all time. If a lease is accepted now and, after
  any further history, a lease of the same run and generation is accepted, both name the same
  worker and the same token: no history hands one generation to two workers, so the generation
  is usable as a fencing token by the systems it is passed to.
\<close>

theorem generation_has_one_holder:
  assumes "queue_inv db" "list_all admissible ops"
    and "is_ok (locked_lease_state db lease)"
    and "is_ok (locked_lease_state (run_ops (platform_step env) ops db) lease')"
    and "rl_run_id lease' = rl_run_id lease" "rl_generation lease' = rl_generation lease"
  shows "rl_worker_id lease' = rl_worker_id lease \<and> rl_lease_token lease' = rl_lease_token lease"
proof -
  let ?db = "run_ops (platform_step env) ops db"
  have a: "fence_of db (rl_run_id lease) = Some (rl_generation lease, Some (rl_worker_id lease, rl_lease_token lease))"
    using accepted_lease [OF assms(1)] assms(3) by (auto simp: is_ok_iff)
  have b: "fence_of ?db (rl_run_id lease) =
      Some (rl_generation lease, Some (rl_worker_id lease', rl_lease_token lease'))"
    using accepted_lease [OF platform.run_inv [OF assms(1,2)], of env lease'] assms(4,5,6) by (auto simp: is_ok_iff)
  show ?thesis using lease_lock.one_holder [OF assms(1,2) a b] by simp
qed

theorem generation_has_one_holder_witness:
  "is_ok (locked_lease_state (run_ops (platform_step sample_env) [Heartbeat sample_lease (utc 200) 1000] sample_db)
     (sample_lease\<lparr>rl_expires_at := 1200\<rparr>))
   \<and> rl_worker_id (sample_lease\<lparr>rl_expires_at := 1200\<rparr>) = rl_worker_id sample_lease"
proof -
  let ?ops = "[Heartbeat sample_lease (utc 200) 1000]" and ?l = "sample_lease\<lparr>rl_expires_at := 1200\<rparr>"
  have "is_ok (locked_lease_state sample_db sample_lease)" by code_simp
  moreover have "is_ok (locked_lease_state (run_ops (platform_step sample_env) ?ops sample_db) ?l)" by code_simp
  ultimately show ?thesis
    using generation_has_one_holder [OF sample_inv, of ?ops sample_lease sample_env ?l] by simp
qed

end
