(* ===== verification/Gateway_Requests.thy ===== *)
theory Gateway_Requests
  imports Contracts "HOL-Library.AList"
begin

section \<open>Idempotent gateway requests\<close>

text \<open>
  \<open>GatewayRequestClaim\<close> and the protocol \<open>GatewayRequestStore\<close> of
  \<open>agent_core/gateway_reliability.py\<close> with its two implementations: the process-local
  \<open>InMemoryGatewayRequestStore\<close> of \<open>gateway_client/reliability.py\<close> and the durable
  \<open>PostgresGatewayRequestStore\<close> of \<open>platform_persistence/gateway_store.py\<close>.

  An operation of the local store returns its result and the state it leaves, also when it
  raises: nothing rolls a dictionary back. An operation of the durable store is a transaction.
  The locale \<open>request_store\<close> is the protocol: what its operations promise about a ledger with
  one entry per logical request, and what a client may conclude.
\<close>

subsection \<open>Claims\<close>

datatype GatewayRequestClaimStatus =
    CLAIM_EXECUTE | CLAIM_IN_PROGRESS | CLAIM_COMPLETED | CLAIM_FAILED | CLAIM_CONFLICT

record GatewayRequestClaim =
  gc_status :: GatewayRequestClaimStatus
  gc_request_hash :: string
  gc_events :: "GatewayEvent list"
  gc_error :: "ErrorDetail option"

definition terminal_positions :: "GatewayEvent list \<Rightarrow> nat list" where
  "terminal_positions events = filter (\<lambda>i. is_response_completed (events ! i)) [0..<length events]"

definition claim_post_init :: "GatewayRequestClaim \<Rightarrow> unit result" where
  "claim_post_init c =
     bindE (if gc_status c = CLAIM_COMPLETED then
              if gc_events c = [] \<or> gc_error c \<noteq> None
              then Inl (ValueError ''completed claim requires events and no error'')
              else if terminal_positions (gc_events c) \<noteq> [length (gc_events c) - 1]
              then Inl (ValueError ''completed claim requires exactly one final response-completed event'')
              else Inr ()
            else if gc_events c \<noteq> []
            then Inl (ValueError ''non-completed claim may not contain events'')
            else Inr ()) (\<lambda>_.
     if gc_status c = CLAIM_FAILED then
       if gc_error c = None then Inl (ValueError ''failed claim requires an error'') else Inr ()
     else if gc_error c \<noteq> None then Inl (ValueError ''only a failed claim may contain an error'')
     else Inr ())"

definition claim_validate :: "GatewayRequestClaim \<Rightarrow> GatewayRequestClaim result" where
  "claim_validate c =
     bindE (Sha256Hex ''request_hash'' (gc_request_hash c)) (\<lambda>_.
     bindE (claim_post_init c) (\<lambda>_. Inr c))"

abbreviation claim_of ::
    "GatewayRequestClaimStatus \<Rightarrow> string \<Rightarrow> GatewayEvent list \<Rightarrow> ErrorDetail option \<Rightarrow> GatewayRequestClaim result"
where
  "claim_of st hash events err \<equiv>
     claim_validate \<lparr>gc_status = st, gc_request_hash = hash, gc_events = events, gc_error = err\<rparr>"

type_synonym request_key = "uuid \<times> string"

subsection \<open>The process-local store\<close>

record StoredRequest =
  sr_request_hash :: string
  sr_status :: GatewayRequestClaimStatus
  sr_events :: "GatewayEvent list"
  sr_error :: "ErrorDetail option"

type_synonym mem_requests = "(request_key \<times> StoredRequest) list"

definition MAX_LOCAL_POLICY_KEYS :: int where
  "MAX_LOCAL_POLICY_KEYS = 100000"

definition mem_requests_init :: "pyval \<Rightarrow> nat result" where
  "mem_requests_init max_requests =
     (case max_requests of
        PyInt n \<Rightarrow> if 1 \<le> n \<and> n \<le> MAX_LOCAL_POLICY_KEYS then Inr (nat n)
                   else Inl (ValueError ''max_requests must be in [1, 100000]'')
      | _ \<Rightarrow> Inl (ValueError ''max_requests must be in [1, 100000]''))"

definition mem_request_claim ::
    "nat \<Rightarrow> request_key \<Rightarrow> string \<Rightarrow> mem_requests \<Rightarrow> GatewayRequestClaim result \<times> mem_requests" where
  "mem_request_claim max_requests key hash s =
     (case map_of s key of
        None \<Rightarrow>
          if length s \<ge> max_requests
          then (Inl (RuntimeError ''in-memory gateway request store reached capacity''), s)
          else (claim_of CLAIM_EXECUTE hash [] None,
                AList.update key \<lparr>sr_request_hash = hash, sr_status = CLAIM_IN_PROGRESS,
                                   sr_events = [], sr_error = None\<rparr> s)
      | Some stored \<Rightarrow>
          if sr_request_hash stored \<noteq> hash
          then (claim_of CLAIM_CONFLICT (sr_request_hash stored) [] None, s)
          else (claim_of (sr_status stored) (sr_request_hash stored) (sr_events stored) (sr_error stored), s))"

definition require_owned :: "request_key \<Rightarrow> string \<Rightarrow> mem_requests \<Rightarrow> StoredRequest result" where
  "require_owned key hash s =
     (case map_of s key of
        None \<Rightarrow> Inl (ValueError ''gateway request claim is missing or belongs to another payload'')
      | Some stored \<Rightarrow>
          if sr_request_hash stored \<noteq> hash
          then Inl (ValueError ''gateway request claim is missing or belongs to another payload'')
          else Inr stored)"

definition mem_request_complete ::
    "request_key \<Rightarrow> string \<Rightarrow> GatewayEvent list \<Rightarrow> mem_requests \<Rightarrow> unit result \<times> mem_requests" where
  "mem_request_complete key hash events s =
     (case bindE (claim_of CLAIM_COMPLETED hash events None) (\<lambda>_. require_owned key hash s) of
        Inl e \<Rightarrow> (Inl e, s)
      | Inr stored \<Rightarrow>
          if sr_status stored \<noteq> CLAIM_IN_PROGRESS
          then (Inl (ValueError ''gateway request is not in progress''), s)
          else (Inr (), AList.update key (stored\<lparr>sr_status := CLAIM_COMPLETED, sr_events := events\<rparr>) s))"

definition mem_request_fail ::
    "request_key \<Rightarrow> string \<Rightarrow> ErrorDetail \<Rightarrow> mem_requests \<Rightarrow> unit result \<times> mem_requests" where
  "mem_request_fail key hash err s =
     (case require_owned key hash s of
        Inl e \<Rightarrow> (Inl e, s)
      | Inr stored \<Rightarrow>
          if sr_status stored \<noteq> CLAIM_IN_PROGRESS then (Inr (), s)
          else (Inr (), AList.update key (stored\<lparr>sr_status := CLAIM_FAILED, sr_error := Some err\<rparr>) s))"

definition mem_request_release ::
    "request_key \<Rightarrow> string \<Rightarrow> mem_requests \<Rightarrow> unit result \<times> mem_requests" where
  "mem_request_release key hash s =
     (case map_of s key of
        Some stored \<Rightarrow>
          if sr_request_hash stored = hash \<and> sr_status stored = CLAIM_IN_PROGRESS
          then (Inr (), AList.delete key s)
          else (Inl (ValueError ''gateway request claim is missing or belongs to another payload''), s)
      | None \<Rightarrow> (Inl (ValueError ''gateway request claim is missing or belongs to another payload''), s))"

subsection \<open>The durable store\<close>

text \<open>
  The table \<open>gateway_requests\<close>. The JSON columns hold the typed values that
  \<open>model_dump\<close> writes and \<open>parse_gateway_event\<close> reads. \<open>now\<close> is the time of the transaction.
\<close>

record GatewayRequestRecord =
  gq_key :: request_key
  gq_request_hash :: string
  gq_status :: GatewayRequestClaimStatus
  gq_events :: "GatewayEvent list"
  gq_error :: "ErrorDetail option"
  gq_created_at :: timestamp
  gq_updated_at :: timestamp

type_synonym pg_requests = "GatewayRequestRecord list"

definition request_row_ok :: "GatewayRequestRecord \<Rightarrow> bool" where
  "request_row_ok r \<longleftrightarrow>
     gq_status r \<in> {CLAIM_IN_PROGRESS, CLAIM_COMPLETED, CLAIM_FAILED}
   \<and> (gq_status r = CLAIM_IN_PROGRESS \<and> gq_events r = [] \<and> gq_error r = None
      \<or> gq_status r = CLAIM_COMPLETED \<and> gq_events r \<noteq> [] \<and> gq_error r = None
      \<or> gq_status r = CLAIM_FAILED \<and> gq_events r = [] \<and> gq_error r \<noteq> None)
   \<and> is_ok (Sha256Hex ''request_hash'' (gq_request_hash r))
   \<and> gq_created_at r \<le> gq_updated_at r"

definition requests_flush :: "pg_requests \<Rightarrow> pg_requests result" where
  "requests_flush t =
     (if list_all request_row_ok t then Inr t else Inl (IntegrityError ''gateway_requests''))"

definition request_identity :: "string \<Rightarrow> string \<Rightarrow> unit result" where
  "request_identity request hash =
     (if is_ok (GatewayRequestIdentifier ''request_id'' request) \<and> is_ok (Sha256Hex ''request_hash'' hash)
      then Inr () else Inl (ValueError ''gateway request identity is invalid''))"

definition claim_from_record :: "GatewayRequestRecord \<Rightarrow> GatewayRequestClaim result" where
  "claim_from_record r = claim_of (gq_status r) (gq_request_hash r) (gq_events r) (gq_error r)"

definition pg_request_claim ::
    "timestamp \<Rightarrow> request_key \<Rightarrow> string \<Rightarrow> pg_requests \<Rightarrow> (GatewayRequestClaim \<times> pg_requests) result" where
  "pg_request_claim now key hash t =
     bindE (request_identity (snd key) hash) (\<lambda>_.
     case select_one (\<lambda>r. gq_key r = key) t of
       None \<Rightarrow>
         bindE (requests_flush (t @ [\<lparr>gq_key = key, gq_request_hash = hash, gq_status = CLAIM_IN_PROGRESS,
             gq_events = [], gq_error = None, gq_created_at = now, gq_updated_at = now\<rparr>])) (\<lambda>t'.
         bindE (claim_of CLAIM_EXECUTE hash [] None) (\<lambda>c. Inr (c, t')))
     | Some row \<Rightarrow>
         bindE (if gq_request_hash row \<noteq> hash then claim_of CLAIM_CONFLICT (gq_request_hash row) [] None
                else claim_from_record row) (\<lambda>c. Inr (c, t)))"

text \<open>The row that \<open>complete\<close>, \<open>fail\<close> and \<open>release\<close> address: in progress, of the same payload.\<close>

definition claimed_row :: "request_key \<Rightarrow> string \<Rightarrow> GatewayRequestRecord \<Rightarrow> bool" where
  "claimed_row key hash r \<longleftrightarrow>
     gq_key r = key \<and> gq_request_hash r = hash \<and> gq_status r = CLAIM_IN_PROGRESS"

definition pg_request_complete ::
    "timestamp \<Rightarrow> request_key \<Rightarrow> string \<Rightarrow> GatewayEvent list \<Rightarrow> pg_requests \<Rightarrow> (unit \<times> pg_requests) result" where
  "pg_request_complete now key hash events t =
     bindE (request_identity (snd key) hash) (\<lambda>_.
     bindE (claim_of CLAIM_COMPLETED hash events None) (\<lambda>validated.
     if list_ex (claimed_row key hash) t
     then bindE (requests_flush (update_where (claimed_row key hash)
             (\<lambda>r. r\<lparr>gq_status := CLAIM_COMPLETED, gq_events := gc_events validated, gq_error := None,
                    gq_updated_at := now\<rparr>) t)) (\<lambda>t'. Inr ((), t'))
     else Inl (RuntimeError ''gateway request completion lost its claim'')))"

definition pg_request_fail ::
    "timestamp \<Rightarrow> request_key \<Rightarrow> string \<Rightarrow> ErrorDetail \<Rightarrow> pg_requests \<Rightarrow> (unit \<times> pg_requests) result" where
  "pg_request_fail now key hash err t =
     bindE (request_identity (snd key) hash) (\<lambda>_.
     if list_ex (claimed_row key hash) t
     then bindE (requests_flush (update_where (claimed_row key hash)
             (\<lambda>r. r\<lparr>gq_status := CLAIM_FAILED, gq_error := Some err, gq_updated_at := now\<rparr>) t))
            (\<lambda>t'. Inr ((), t'))
     else Inl (RuntimeError ''gateway request failure lost its claim''))"

definition pg_request_release ::
    "request_key \<Rightarrow> string \<Rightarrow> pg_requests \<Rightarrow> (unit \<times> pg_requests) result" where
  "pg_request_release key hash t =
     bindE (request_identity (snd key) hash) (\<lambda>_.
     if list_ex (claimed_row key hash) t
     then bindE (requests_flush (delete_where (claimed_row key hash) t)) (\<lambda>t'. Inr ((), t'))
     else Inl (RuntimeError ''gateway request release lost its claim''))"

text \<open>A transaction that raises leaves the tables as they were.\<close>

definition rolled_back :: "('s \<Rightarrow> ('a \<times> 's) result) \<Rightarrow> 's \<Rightarrow> 'a result \<times> 's" where
  "rolled_back tx s = (case tx s of Inl e \<Rightarrow> (Inl e, s) | Inr (x, s') \<Rightarrow> (Inr x, s'))"

subsection \<open>The protocol\<close>

text \<open>
  A ledger with one entry per logical request. A claim of an unknown request enters it as
  executing and tells the caller to execute; a claim of a known one is answered from the
  entry. Only the claim of the same payload settles or releases an executing entry.
\<close>

datatype ledger_entry =
    Executing string
  | Completed_with string "GatewayEvent list"
  | Failed_with string ErrorDetail

fun entry_hash :: "ledger_entry \<Rightarrow> string" where
  "entry_hash (Executing h) = h"
| "entry_hash (Completed_with h ev) = h"
| "entry_hash (Failed_with h e) = h"

fun settled_entry :: "ledger_entry \<Rightarrow> bool" where
  "settled_entry (Executing h) \<longleftrightarrow> False"
| "settled_entry (Completed_with h ev) \<longleftrightarrow> True"
| "settled_entry (Failed_with h e) \<longleftrightarrow> True"

fun entry_claim :: "ledger_entry \<Rightarrow> GatewayRequestClaim" where
  "entry_claim (Executing h) =
     \<lparr>gc_status = CLAIM_IN_PROGRESS, gc_request_hash = h, gc_events = [], gc_error = None\<rparr>"
| "entry_claim (Completed_with h ev) =
     \<lparr>gc_status = CLAIM_COMPLETED, gc_request_hash = h, gc_events = ev, gc_error = None\<rparr>"
| "entry_claim (Failed_with h e) =
     \<lparr>gc_status = CLAIM_FAILED, gc_request_hash = h, gc_events = [], gc_error = Some e\<rparr>"

definition ledger_answer :: "string \<Rightarrow> ledger_entry \<Rightarrow> GatewayRequestClaim" where
  "ledger_answer hash e =
     (if entry_hash e \<noteq> hash
      then \<lparr>gc_status = CLAIM_CONFLICT, gc_request_hash = entry_hash e, gc_events = [], gc_error = None\<rparr>
      else entry_claim e)"

lemma ledger_answer_not_execute: "gc_status (ledger_answer h e) \<noteq> CLAIM_EXECUTE"
  by (cases e) (simp_all add: ledger_answer_def)

datatype 'c request_op =
    ClaimRequest 'c request_key string
  | CompleteRequest 'c request_key string "GatewayEvent list"
  | FailRequest 'c request_key string ErrorDetail
  | ReleaseRequest 'c request_key string

fun releases :: "request_key \<Rightarrow> 'c request_op \<Rightarrow> bool" where
  "releases k (ReleaseRequest c k' h) \<longleftrightarrow> k' = k"
| "releases k _ \<longleftrightarrow> False"

fun hashed :: "'c request_op \<Rightarrow> bool" where
  "hashed (ClaimRequest c k h) \<longleftrightarrow> is_ok (Sha256Hex ''request_hash'' h)"
| "hashed _ \<longleftrightarrow> True"

fun request_step ::
    "('c \<Rightarrow> request_key \<Rightarrow> string \<Rightarrow> 's \<Rightarrow> GatewayRequestClaim result \<times> 's) \<Rightarrow>
     ('c \<Rightarrow> request_key \<Rightarrow> string \<Rightarrow> GatewayEvent list \<Rightarrow> 's \<Rightarrow> unit result \<times> 's) \<Rightarrow>
     ('c \<Rightarrow> request_key \<Rightarrow> string \<Rightarrow> ErrorDetail \<Rightarrow> 's \<Rightarrow> unit result \<times> 's) \<Rightarrow>
     ('c \<Rightarrow> request_key \<Rightarrow> string \<Rightarrow> 's \<Rightarrow> unit result \<times> 's) \<Rightarrow> 'c request_op \<Rightarrow> 's \<Rightarrow> 's"
where
  "request_step f1 f2 f3 f4 (ClaimRequest c k h) s = snd (f1 c k h s)"
| "request_step f1 f2 f3 f4 (CompleteRequest c k h ev) s = snd (f2 c k h ev s)"
| "request_step f1 f2 f3 f4 (FailRequest c k h e) s = snd (f3 c k h e s)"
| "request_step f1 f2 f3 f4 (ReleaseRequest c k h) s = snd (f4 c k h s)"

locale request_store =
  fixes claim_op :: "'c \<Rightarrow> request_key \<Rightarrow> string \<Rightarrow> 's \<Rightarrow> GatewayRequestClaim result \<times> 's"
    and complete_op :: "'c \<Rightarrow> request_key \<Rightarrow> string \<Rightarrow> GatewayEvent list \<Rightarrow> 's \<Rightarrow> unit result \<times> 's"
    and fail_op :: "'c \<Rightarrow> request_key \<Rightarrow> string \<Rightarrow> ErrorDetail \<Rightarrow> 's \<Rightarrow> unit result \<times> 's"
    and release_op :: "'c \<Rightarrow> request_key \<Rightarrow> string \<Rightarrow> 's \<Rightarrow> unit result \<times> 's"
    and ledger :: "'s \<Rightarrow> request_key \<Rightarrow> ledger_entry option"
    and wf :: "'s \<Rightarrow> bool"
  assumes claim_law:
      "\<lbrakk>wf s; is_ok (Sha256Hex ''request_hash'' h); claim_op c k h s = (r, s')\<rbrakk> \<Longrightarrow>
        wf s' \<and> (case r of
            Inl e \<Rightarrow> s' = s
          | Inr a \<Rightarrow> (case ledger s k of
                None \<Rightarrow> gc_status a = CLAIM_EXECUTE \<and> ledger s' = (ledger s)(k \<mapsto> Executing h)
              | Some e \<Rightarrow> a = ledger_answer h e \<and> s' = s))"
    and complete_law:
      "\<lbrakk>wf s; complete_op c k h ev s = (u, s')\<rbrakk> \<Longrightarrow>
        wf s' \<and> (case u of
            Inl e \<Rightarrow> s' = s
          | Inr _ \<Rightarrow> ledger s k = Some (Executing h) \<and> ledger s' = (ledger s)(k \<mapsto> Completed_with h ev))"
    and fail_law:
      "\<lbrakk>wf s; fail_op c k h err s = (u, s')\<rbrakk> \<Longrightarrow>
        wf s' \<and> (case u of
            Inl e \<Rightarrow> s' = s
          | Inr _ \<Rightarrow>
              (ledger s k = Some (Executing h) \<and> ledger s' = (ledger s)(k \<mapsto> Failed_with h err))
              \<or> ((\<exists>e. ledger s k = Some e \<and> settled_entry e) \<and> s' = s))"
    and release_law:
      "\<lbrakk>wf s; release_op c k h s = (u, s')\<rbrakk> \<Longrightarrow>
        wf s' \<and> (case u of
            Inl e \<Rightarrow> s' = s
          | Inr _ \<Rightarrow> ledger s k = Some (Executing h) \<and> ledger s' = (ledger s)(k := None))"
begin

abbreviation step_op :: "'c request_op \<Rightarrow> 's \<Rightarrow> 's" where
  "step_op \<equiv> request_step claim_op complete_op fail_op release_op"

lemma step_wf: "wf s \<Longrightarrow> hashed x \<Longrightarrow> wf (step_op x s)"
  by (cases x)
    (auto dest: claim_law [OF _ _ surjective_pairing] complete_law [OF _ surjective_pairing]
      fail_law [OF _ surjective_pairing] release_law [OF _ surjective_pairing])

lemma step_entry:
  assumes s: "wf s" "hashed x" and e: "ledger s k = Some e" and k: "\<not> releases k x"
  shows "\<exists>e'. ledger (step_op x s) k = Some e' \<and> (settled_entry e \<longrightarrow> e' = e)"
proof (cases x)
  case (ClaimRequest c k' h)
  with claim_law [OF s(1) _ surjective_pairing, of h c k'] s(2) e show ?thesis
    by (auto split: sum.splits option.splits)
next
  case (CompleteRequest c k' h ev)
  with complete_law [OF s(1) surjective_pairing, of c k' h ev] e show ?thesis
    by (auto split: sum.splits)
next
  case (FailRequest c k' h err)
  with fail_law [OF s(1) surjective_pairing, of c k' h err] e show ?thesis
    by (auto split: sum.splits)
next
  case (ReleaseRequest c k' h)
  with release_law [OF s(1) surjective_pairing, of c k' h] e k show ?thesis
    by (auto split: sum.splits)
qed

lemma step_settled:
  assumes s: "wf s" "hashed x" and e: "ledger s k = Some e" "settled_entry e"
  shows "ledger (step_op x s) k = Some e"
proof (cases "releases k x")
  case True
  then obtain c h where x: "x = ReleaseRequest c k h" by (cases x) auto
  from release_law [OF s(1) surjective_pairing, of c k h] e show ?thesis
    by (auto simp: x split: sum.splits)
next
  case False
  with step_entry [OF s e(1)] e(2) show ?thesis by blast
qed

lemma run_wf: "wf s \<Longrightarrow> list_all hashed xs \<Longrightarrow> wf (run_ops step_op xs s)"
  by (induction xs arbitrary: s) (simp_all add: step_wf)

lemma run_entry:
  "\<lbrakk>wf s; list_all hashed xs; ledger s k = Some e; \<not> list_ex (releases k) xs\<rbrakk>
    \<Longrightarrow> \<exists>e'. ledger (run_ops step_op xs s) k = Some e'"
proof (induction xs arbitrary: s e)
  case (Cons x xs)
  then obtain e' where "ledger (step_op x s) k = Some e'" using step_entry [of s x k e] by auto
  with Cons.IH [of "step_op x s"] Cons.prems step_wf show ?case by auto
qed simp

lemma run_settled:
  "\<lbrakk>wf s; list_all hashed xs; ledger s k = Some e; settled_entry e\<rbrakk>
    \<Longrightarrow> ledger (run_ops step_op xs s) k = Some e"
  by (induction xs arbitrary: s) (simp_all add: step_wf step_settled)

text \<open>Who was told to execute is the only one, until the claim is released.\<close>

lemma executes_once:
  assumes s: "wf s" "is_ok (Sha256Hex ''request_hash'' h)" "is_ok (Sha256Hex ''request_hash'' h')"
    and first: "claim_op c k h s = (Inr a, s1)" "gc_status a = CLAIM_EXECUTE"
    and ops: "list_all hashed xs" "\<not> list_ex (releases k) xs"
    and second: "claim_op c' k h' (run_ops step_op xs s1) = (Inr a', s2)"
  shows "gc_status a' \<noteq> CLAIM_EXECUTE"
proof -
  from claim_law [OF s(1,2) first(1)] first(2) ledger_answer_not_execute
  have s1: "wf s1" "ledger s1 k = Some (Executing h)" by (auto split: option.splits)
  obtain e where e: "ledger (run_ops step_op xs s1) k = Some e"
    using run_entry [OF s1(1) ops(1) s1(2) ops(2)] by blast
  from claim_law [OF run_wf [OF s1(1) ops(1)] s(3) second] e
  show ?thesis by (simp add: ledger_answer_not_execute)
qed

text \<open>A committed response is what every later claim of the request is answered with.\<close>

lemma completed_replays:
  assumes s: "wf s" "is_ok (Sha256Hex ''request_hash'' h')"
    and commit: "complete_op c k h ev s = (Inr u, s1)"
    and ops: "list_all hashed xs"
    and second: "claim_op c' k h' (run_ops step_op xs s1) = (Inr a, s2)"
  shows "a = ledger_answer h' (Completed_with h ev)"
proof -
  from complete_law [OF s(1) commit] have s1: "wf s1" "ledger s1 k = Some (Completed_with h ev)" by auto
  have "ledger (run_ops step_op xs s1) k = Some (Completed_with h ev)"
    using run_settled [OF s1(1) ops s1(2)] by simp
  with claim_law [OF run_wf [OF s1(1) ops] s(2) second] show ?thesis by simp
qed

end

subsection \<open>Both stores implement it\<close>

definition payload_entry ::
    "GatewayRequestClaimStatus \<Rightarrow> string \<Rightarrow> GatewayEvent list \<Rightarrow> ErrorDetail option \<Rightarrow> ledger_entry" where
  "payload_entry st h ev err =
     (case (st, err) of
        (CLAIM_COMPLETED, _) \<Rightarrow> Completed_with h ev
      | (CLAIM_FAILED, Some e) \<Rightarrow> Failed_with h e
      | _ \<Rightarrow> Executing h)"

definition payload_ok ::
    "GatewayRequestClaimStatus \<Rightarrow> string \<Rightarrow> GatewayEvent list \<Rightarrow> ErrorDetail option \<Rightarrow> bool" where
  "payload_ok st h ev err \<longleftrightarrow>
     st \<in> {CLAIM_IN_PROGRESS, CLAIM_COMPLETED, CLAIM_FAILED} \<and> is_ok (claim_of st h ev err)"

lemma claim_validate_ok: "claim_validate c = Inr d \<longleftrightarrow> d = c \<and> is_ok (claim_validate c)"
  by (auto simp: claim_validate_def bindE_eq_Inr is_ok_iff)

lemma is_ok_claim_of:
  "is_ok (claim_of st h ev err) \<longleftrightarrow>
     is_ok (Sha256Hex ''request_hash'' h)
   \<and> (if st = CLAIM_COMPLETED then ev \<noteq> [] \<and> err = None \<and> terminal_positions ev = [length ev - 1]
      else ev = [] \<and> (st = CLAIM_FAILED \<longleftrightarrow> err \<noteq> None))"
  by (auto simp: claim_validate_def claim_post_init_def is_ok_iff bindE_eq_Inr)

lemma payload_answer:
  assumes "payload_ok st h ev err"
  shows "claim_of st h ev err = Inr (entry_claim (payload_entry st h ev err))"
    and "claim_of CLAIM_CONFLICT h [] None = Inr \<lparr>gc_status = CLAIM_CONFLICT, gc_request_hash = h,
           gc_events = [], gc_error = None\<rparr>"
    and "entry_hash (payload_entry st h ev err) = h"
    and "settled_entry (payload_entry st h ev err) \<longleftrightarrow> st \<noteq> CLAIM_IN_PROGRESS"
    and "payload_entry st h ev err = Executing h' \<longleftrightarrow> st = CLAIM_IN_PROGRESS \<and> h = h'"
proof -
  have "is_ok (Sha256Hex ''request_hash'' h)" using assms by (simp add: payload_ok_def is_ok_claim_of)
  then show "claim_of CLAIM_CONFLICT h [] None = Inr \<lparr>gc_status = CLAIM_CONFLICT, gc_request_hash = h,
           gc_events = [], gc_error = None\<rparr>" by (simp add: claim_validate_ok is_ok_claim_of)
  show "claim_of st h ev err = Inr (entry_claim (payload_entry st h ev err))"
    using assms by (auto simp: payload_ok_def claim_validate_ok is_ok_claim_of payload_entry_def split: option.splits)
qed (use assms in \<open>auto simp: payload_ok_def is_ok_claim_of payload_entry_def split: option.splits\<close>)

definition mem_ledger :: "mem_requests \<Rightarrow> request_key \<Rightarrow> ledger_entry option" where
  "mem_ledger s k =
     map_option (\<lambda>r. payload_entry (sr_status r) (sr_request_hash r) (sr_events r) (sr_error r)) (map_of s k)"

definition mem_requests_wf :: "mem_requests \<Rightarrow> bool" where
  "mem_requests_wf s \<longleftrightarrow>
     distinct (map fst s)
   \<and> (\<forall>k r. map_of s k = Some r \<longrightarrow> payload_ok (sr_status r) (sr_request_hash r) (sr_events r) (sr_error r))"

lemma mem_ledger_update:
  "mem_ledger (AList.update k r s) =
     (mem_ledger s)(k \<mapsto> payload_entry (sr_status r) (sr_request_hash r) (sr_events r) (sr_error r))"
  by (rule ext) (simp add: mem_ledger_def AList.update_conv')

lemma mem_wf_update:
  "mem_requests_wf s \<Longrightarrow> payload_ok (sr_status r) (sr_request_hash r) (sr_events r) (sr_error r) \<Longrightarrow>
     mem_requests_wf (AList.update k r s)"
  by (auto simp: mem_requests_wf_def AList.update_conv' AList.distinct_update)

lemma mem_wf_stored:
  "mem_requests_wf s \<Longrightarrow> map_of s k = Some r \<Longrightarrow>
     payload_ok (sr_status r) (sr_request_hash r) (sr_events r) (sr_error r)"
  unfolding mem_requests_wf_def by blast

lemma require_owned_Inr:
  "require_owned k h s = Inr r \<longleftrightarrow> map_of s k = Some r \<and> sr_request_hash r = h"
  by (auto simp: require_owned_def split: option.splits)

lemma new_claim:
  assumes "is_ok (Sha256Hex ''request_hash'' h)"
  shows "payload_ok CLAIM_IN_PROGRESS h [] None"
    and "claim_of CLAIM_EXECUTE h [] None =
      Inr \<lparr>gc_status = CLAIM_EXECUTE, gc_request_hash = h, gc_events = [], gc_error = None\<rparr>"
  using assms by (simp_all add: payload_ok_def claim_validate_ok is_ok_claim_of)

lemma mem_claim_law:
  assumes wf: "mem_requests_wf s" and h: "is_ok (Sha256Hex ''request_hash'' h)"
    and op: "mem_request_claim n k h s = (r, s')"
  shows "mem_requests_wf s' \<and> (case r of Inl e \<Rightarrow> s' = s
      | Inr a \<Rightarrow> (case mem_ledger s k of
            None \<Rightarrow> gc_status a = CLAIM_EXECUTE \<and> mem_ledger s' = (mem_ledger s)(k \<mapsto> Executing h)
          | Some e \<Rightarrow> a = ledger_answer h e \<and> s' = s))"
proof (cases "map_of s k")
  case None
  then have "mem_ledger s k = None" by (simp add: mem_ledger_def)
  show ?thesis
  proof (cases "n \<le> length s")
    case True
    then show ?thesis using None op wf by (auto simp: mem_request_claim_def)
  next
    case False
    let ?r = "\<lparr>sr_request_hash = h, sr_status = CLAIM_IN_PROGRESS, sr_events = [], sr_error = None\<rparr>"
    have s': "s' = AList.update k ?r s" and r: "r = Inr \<lparr>gc_status = CLAIM_EXECUTE, gc_request_hash = h,
        gc_events = [], gc_error = None\<rparr>"
      using False None op unfolding mem_request_claim_def new_claim(2) [OF h] by simp_all
    have "mem_requests_wf s'" unfolding s' by (rule mem_wf_update) (use wf new_claim(1) [OF h] in simp_all)
    moreover have "mem_ledger s' = (mem_ledger s)(k \<mapsto> Executing h)"
      unfolding s' mem_ledger_update by (simp add: payload_entry_def)
    ultimately show ?thesis using \<open>mem_ledger s k = None\<close> by (simp add: r)
  qed
next
  case (Some stored)
  note p = payload_answer [OF mem_wf_stored [OF wf Some]]
  show ?thesis
    using Some op wf
    by (cases "sr_request_hash stored = h")
      (auto simp: mem_request_claim_def mem_ledger_def ledger_answer_def p(1,2,3))
qed

lemma mem_complete_law:
  assumes wf: "mem_requests_wf s" and op: "mem_request_complete k h ev s = (u, s')"
  shows "mem_requests_wf s' \<and> (case u of Inl e \<Rightarrow> s' = s
      | Inr _ \<Rightarrow> mem_ledger s k = Some (Executing h) \<and> mem_ledger s' = (mem_ledger s)(k \<mapsto> Completed_with h ev))"
proof (cases u)
  case (Inl e)
  with op wf show ?thesis by (auto simp: mem_request_complete_def split: sum.splits if_splits)
next
  case (Inr v)
  with op obtain stored where stored: "map_of s k = Some stored" "sr_request_hash stored = h"
      "sr_status stored = CLAIM_IN_PROGRESS"
    and ok: "is_ok (claim_of CLAIM_COMPLETED h ev None)"
    and s': "s' = AList.update k (stored\<lparr>sr_status := CLAIM_COMPLETED, sr_events := ev\<rparr>) s"
    by (auto simp: mem_request_complete_def bindE_eq_Inr claim_validate_ok require_owned_Inr
        split: sum.splits if_splits)
  have err: "sr_error stored = None"
    using mem_wf_stored [OF wf stored(1)] stored(3) by (simp add: payload_ok_def is_ok_claim_of)
  then have "payload_ok CLAIM_COMPLETED h ev None" using ok by (simp add: payload_ok_def)
  with wf stored s' Inr err show ?thesis
    by (simp add: mem_ledger_update mem_wf_update payload_entry_def) (simp add: mem_ledger_def payload_entry_def)
qed

lemma mem_fail_law:
  assumes wf: "mem_requests_wf s" and op: "mem_request_fail k h err s = (u, s')"
  shows "mem_requests_wf s' \<and> (case u of Inl e \<Rightarrow> s' = s
      | Inr _ \<Rightarrow> (mem_ledger s k = Some (Executing h) \<and> mem_ledger s' = (mem_ledger s)(k \<mapsto> Failed_with h err))
          \<or> (\<exists>e. mem_ledger s k = Some e \<and> settled_entry e) \<and> s' = s)"
proof (cases u)
  case (Inl e)
  with op wf show ?thesis by (auto simp: mem_request_fail_def split: sum.splits if_splits)
next
  case (Inr v)
  with op obtain stored where stored: "map_of s k = Some stored" "sr_request_hash stored = h"
    and s': "s' = (if sr_status stored \<noteq> CLAIM_IN_PROGRESS then s
      else AList.update k (stored\<lparr>sr_status := CLAIM_FAILED, sr_error := Some err\<rparr>) s)"
    by (auto simp: mem_request_fail_def require_owned_Inr split: sum.splits if_splits)
  note p = mem_wf_stored [OF wf stored(1)]
  show ?thesis
  proof (cases "sr_status stored = CLAIM_IN_PROGRESS")
    case True
    then have "payload_ok CLAIM_FAILED h (sr_events stored) (Some err)"
      using p stored(2) by (simp add: payload_ok_def is_ok_claim_of)
    with wf stored s' Inr True show ?thesis
      by (simp add: mem_ledger_update mem_wf_update payload_entry_def) (simp add: mem_ledger_def payload_entry_def)
  next
    case False
    with payload_answer(4) [OF p] wf stored s' Inr show ?thesis by (simp add: mem_ledger_def)
  qed
qed

lemma mem_release_law:
  assumes wf: "mem_requests_wf s" and op: "mem_request_release k h s = (u, s')"
  shows "mem_requests_wf s' \<and> (case u of Inl e \<Rightarrow> s' = s
      | Inr _ \<Rightarrow> mem_ledger s k = Some (Executing h) \<and> mem_ledger s' = (mem_ledger s)(k := None))"
proof (cases u)
  case (Inl e)
  with op wf show ?thesis by (auto simp: mem_request_release_def split: option.splits if_splits)
next
  case (Inr v)
  with op obtain stored where stored: "map_of s k = Some stored" "sr_request_hash stored = h"
      "sr_status stored = CLAIM_IN_PROGRESS" and s': "s' = AList.delete k s"
    by (auto simp: mem_request_release_def split: option.splits if_splits)
  have "mem_requests_wf s'"
    using wf by (auto simp: s' mem_requests_wf_def AList.delete_conv' AList.distinct_delete)
  moreover have "mem_ledger s' = (mem_ledger s)(k := None)"
    by (rule ext) (simp add: s' mem_ledger_def AList.delete_conv')
  ultimately show ?thesis using stored Inr by (simp add: mem_ledger_def payload_entry_def)
qed

interpretation local_requests: request_store
  "\<lambda>_::unit. mem_request_claim n" "\<lambda>_. mem_request_complete" "\<lambda>_. mem_request_fail"
  "\<lambda>_. mem_request_release" mem_ledger mem_requests_wf for n
  by unfold_locales (rule mem_claim_law mem_complete_law mem_fail_law mem_release_law; assumption)+

text \<open>The durable store: the table's rows satisfy the constraints and every payload reads back.\<close>

definition pg_ledger :: "pg_requests \<Rightarrow> request_key \<Rightarrow> ledger_entry option" where
  "pg_ledger t k =
     map_option (\<lambda>r. payload_entry (gq_status r) (gq_request_hash r) (gq_events r) (gq_error r))
       (select_one (\<lambda>r. gq_key r = k) t)"

definition pg_requests_wf :: "pg_requests \<Rightarrow> bool" where
  "pg_requests_wf t \<longleftrightarrow>
     distinct (map gq_key t)
   \<and> (\<forall>r \<in> set t. payload_ok (gq_status r) (gq_request_hash r) (gq_events r) (gq_error r))"

lemma rolled_back_cases:
  "rolled_back tx s = (r, s') \<longleftrightarrow> (case r of Inl e \<Rightarrow> tx s = Inl e \<and> s' = s | Inr x \<Rightarrow> tx s = Inr (x, s'))"
  by (auto simp: rolled_back_def split: sum.splits)

lemma requests_flush_Inr [simp]: "requests_flush t = Inr t' \<longleftrightarrow> t' = t \<and> list_all request_row_ok t"
  by (auto simp: requests_flush_def)

lemma select_one_append_key:
  "select_one (\<lambda>r. key r = k) (t @ [x]) =
     (case select_one (\<lambda>r. key r = k) t of None \<Rightarrow> if key x = k then Some x else None | Some y \<Rightarrow> Some y)"
  by (induction t) auto

lemma pg_ledger_None: "pg_ledger t k = None \<longleftrightarrow> select_one (\<lambda>r. gq_key r = k) t = None"
  by (simp add: pg_ledger_def)

lemma pg_claim_law:
  assumes wf: "pg_requests_wf t" and h: "is_ok (Sha256Hex ''request_hash'' h)"
    and op: "rolled_back (pg_request_claim now k h) t = (r, t')"
  shows "pg_requests_wf t' \<and> (case r of Inl e \<Rightarrow> t' = t
      | Inr a \<Rightarrow> (case pg_ledger t k of
            None \<Rightarrow> gc_status a = CLAIM_EXECUTE \<and> pg_ledger t' = (pg_ledger t)(k \<mapsto> Executing h)
          | Some e \<Rightarrow> a = ledger_answer h e \<and> t' = t))"
proof (cases r)
  case (Inl e)
  with op wf show ?thesis by (simp add: rolled_back_cases)
next
  case (Inr a)
  with op have tx: "pg_request_claim now k h t = Inr (a, t')" by (simp add: rolled_back_cases)
  show ?thesis
  proof (cases "select_one (\<lambda>r. gq_key r = k) t")
    case None
    let ?row = "\<lparr>gq_key = k, gq_request_hash = h, gq_status = CLAIM_IN_PROGRESS, gq_events = [],
      gq_error = None, gq_created_at = now, gq_updated_at = now\<rparr>"
    from tx None have t': "t' = t @ [?row]" and a: "gc_status a = CLAIM_EXECUTE"
      by (auto simp: pg_request_claim_def bindE_eq_Inr new_claim(2) [OF h])
    have "k \<notin> gq_key ` set t" using None by (auto simp: select_one_None)
    then have "pg_requests_wf t'" using wf new_claim(1) [OF h] by (simp add: t' pg_requests_wf_def)
    moreover have "pg_ledger t' = (pg_ledger t)(k \<mapsto> Executing h)"
      by (rule ext) (auto simp: t' pg_ledger_def select_one_append_key None payload_entry_def split: option.splits)
    ultimately show ?thesis using Inr None a by (simp add: pg_ledger_def)
  next
    case (Some row)
    have p: "payload_ok (gq_status row) (gq_request_hash row) (gq_events row) (gq_error row)"
      using wf select_one_Some [OF Some] by (simp add: pg_requests_wf_def)
    show ?thesis
      using Some tx Inr wf
      by (cases "gq_request_hash row = h")
        (auto simp: pg_request_claim_def bindE_eq_Inr claim_from_record_def pg_ledger_def ledger_answer_def
          payload_answer(1,2,3) [OF p])
  qed
qed

text \<open>The update of a claimed row, as \<open>complete\<close> and \<open>fail\<close> perform it.\<close>

lemma claimed_row_update:
  assumes wf: "pg_requests_wf t" and ex: "list_ex (claimed_row k h) t"
    and f: "\<And>r. claimed_row k h r \<Longrightarrow> gq_key (f r) = k
      \<and> payload_ok (gq_status (f r)) (gq_request_hash (f r)) (gq_events (f r)) (gq_error (f r))
      \<and> payload_entry (gq_status (f r)) (gq_request_hash (f r)) (gq_events (f r)) (gq_error (f r)) = e"
  shows "pg_requests_wf (update_where (claimed_row k h) f t)
    \<and> pg_ledger t k = Some (Executing h)
    \<and> pg_ledger (update_where (claimed_row k h) f t) = (pg_ledger t)(k \<mapsto> e)"
proof -
  obtain r where r: "r \<in> set t" "claimed_row k h r" using ex by (auto simp: list_ex_iff)
  have d: "distinct (map gq_key t)" using wf by (simp add: pg_requests_wf_def)
  have sel: "select_one (\<lambda>r. gq_key r = k) t = Some r"
    using d r by (induction t) (auto simp: claimed_row_def)
  have uniq: "claimed_row k h x \<longleftrightarrow> x = r" if "x \<in> set t" for x
    using that r d by (auto simp: claimed_row_def distinct_map inj_on_def)
  have keys: "map gq_key (update_where (claimed_row k h) f t) = map gq_key t"
    using f by (auto simp: update_where_def claimed_row_def)
  have pok: "payload_ok (gq_status x) (gq_request_hash x) (gq_events x) (gq_error x)"
    if "x \<in> set (update_where (claimed_row k h) f t)" for x
    using that wf f by (auto simp: update_where_def pg_requests_wf_def split: if_splits)
  have led: "select_one (\<lambda>r. gq_key r = j) (update_where (claimed_row k h) f xs) =
      map_option (\<lambda>x. if claimed_row k h x then f x else x) (select_one (\<lambda>r. gq_key r = j) xs)" for j xs
    using f by (induction xs) (auto simp: update_where_def claimed_row_def)
  have "pg_ledger (update_where (claimed_row k h) f t) = (pg_ledger t)(k \<mapsto> e)"
  proof
    fix j
    show "pg_ledger (update_where (claimed_row k h) f t) j = ((pg_ledger t)(k \<mapsto> e)) j"
    proof (cases "j = k")
      case True
      then show ?thesis using sel r f by (simp add: pg_ledger_def led)
    next
      case False
      then show ?thesis
        by (cases "select_one (\<lambda>r. gq_key r = j) t")
          (auto simp: pg_ledger_def led claimed_row_def dest: select_one_Some)
    qed
  qed
  moreover have "pg_ledger t k = Some (Executing h)"
    using sel r(2) by (simp add: pg_ledger_def claimed_row_def payload_entry_def)
  ultimately show ?thesis using d keys pok by (simp add: pg_requests_wf_def)
qed

lemma claimed_row_payload:
  assumes "pg_requests_wf t" "r \<in> set t" "claimed_row k h r"
  shows "payload_ok CLAIM_IN_PROGRESS h (gq_events r) (gq_error r)"
  using assms by (auto simp: pg_requests_wf_def claimed_row_def)

lemma pg_complete_law:
  assumes wf: "pg_requests_wf t" and op: "rolled_back (pg_request_complete now k h ev) t = (u, t')"
  shows "pg_requests_wf t' \<and> (case u of Inl e \<Rightarrow> t' = t
      | Inr _ \<Rightarrow> pg_ledger t k = Some (Executing h) \<and> pg_ledger t' = (pg_ledger t)(k \<mapsto> Completed_with h ev))"
proof (cases u)
  case (Inl e)
  with op wf show ?thesis by (simp add: rolled_back_cases)
next
  case (Inr v)
  let ?f = "\<lambda>r. r\<lparr>gq_status := CLAIM_COMPLETED, gq_events := ev, gq_error := None, gq_updated_at := now\<rparr>"
  from Inr op have ex: "list_ex (claimed_row k h) t" and ok: "is_ok (claim_of CLAIM_COMPLETED h ev None)"
    and t': "t' = update_where (claimed_row k h) ?f t"
    by (auto simp: rolled_back_cases pg_request_complete_def bindE_eq_Inr claim_validate_ok split: if_splits)
  have "payload_ok CLAIM_COMPLETED h ev None" using ok by (simp add: payload_ok_def)
  then show ?thesis
    using claimed_row_update [OF wf ex, of ?f "Completed_with h ev"] Inr
    by (simp add: t' claimed_row_def payload_entry_def)
qed

lemma pg_fail_law:
  assumes wf: "pg_requests_wf t" and op: "rolled_back (pg_request_fail now k h err) t = (u, t')"
  shows "pg_requests_wf t' \<and> (case u of Inl e \<Rightarrow> t' = t
      | Inr _ \<Rightarrow> (pg_ledger t k = Some (Executing h) \<and> pg_ledger t' = (pg_ledger t)(k \<mapsto> Failed_with h err))
          \<or> (\<exists>e. pg_ledger t k = Some e \<and> settled_entry e) \<and> t' = t)"
proof (cases u)
  case (Inl e)
  with op wf show ?thesis by (simp add: rolled_back_cases)
next
  case (Inr v)
  let ?f = "\<lambda>r. r\<lparr>gq_status := CLAIM_FAILED, gq_error := Some err, gq_updated_at := now\<rparr>"
  let ?g = "\<lambda>r. r\<lparr>gq_status := CLAIM_FAILED, gq_events := [], gq_error := Some err, gq_updated_at := now\<rparr>"
  from Inr op have ex: "list_ex (claimed_row k h) t" and t': "t' = update_where (claimed_row k h) ?f t"
    by (auto simp: rolled_back_cases pg_request_fail_def bindE_eq_Inr split: if_splits)
  have ev: "gq_events r = []" and hash: "is_ok (Sha256Hex ''request_hash'' h)"
    if "r \<in> set t" "claimed_row k h r" for r
    using claimed_row_payload [OF wf that] by (simp_all add: payload_ok_def is_ok_claim_of)
  have "t' = update_where (claimed_row k h) ?g t"
    unfolding t' update_where_def by (rule map_cong [OF refl]) (simp add: ev)
  moreover have "payload_ok CLAIM_FAILED h [] (Some err)"
    using ex hash by (auto simp: list_ex_iff payload_ok_def is_ok_claim_of)
  ultimately show ?thesis
    using claimed_row_update [OF wf ex, of ?g "Failed_with h err"] Inr
    by (simp add: claimed_row_def payload_entry_def)
qed

lemma pg_release_law:
  assumes wf: "pg_requests_wf t" and op: "rolled_back (pg_request_release k h) t = (u, t')"
  shows "pg_requests_wf t' \<and> (case u of Inl e \<Rightarrow> t' = t
      | Inr _ \<Rightarrow> pg_ledger t k = Some (Executing h) \<and> pg_ledger t' = (pg_ledger t)(k := None))"
proof (cases u)
  case (Inl e)
  with op wf show ?thesis by (simp add: rolled_back_cases)
next
  case (Inr v)
  from Inr op have ex: "list_ex (claimed_row k h) t" and t': "t' = delete_where (claimed_row k h) t"
    by (auto simp: rolled_back_cases pg_request_release_def bindE_eq_Inr split: if_splits)
  obtain r where r: "r \<in> set t" "claimed_row k h r" using ex by (auto simp: list_ex_iff)
  have d: "distinct (map gq_key t)" using wf by (simp add: pg_requests_wf_def)
  have sel: "select_one (\<lambda>r. gq_key r = k) t = Some r"
    using d r by (induction t) (auto simp: claimed_row_def)
  have gone: "delete_where (claimed_row k h) t = filter (\<lambda>x. gq_key x \<noteq> k) t"
    unfolding delete_where_def
    by (rule filter_cong [OF refl]) (use r d in \<open>auto simp: claimed_row_def distinct_map inj_on_def\<close>)
  have fil: "select_one (\<lambda>r. gq_key r = j) (filter (\<lambda>x. gq_key x \<noteq> k) xs) =
      (if j = k then None else select_one (\<lambda>r. gq_key r = j) xs)" for j xs
    by (induction xs) auto
  have "pg_ledger t' = (pg_ledger t)(k := None)"
    by (rule ext) (simp add: t' gone pg_ledger_def fil)
  moreover have "pg_ledger t k = Some (Executing h)"
    using sel r(2) by (simp add: pg_ledger_def claimed_row_def payload_entry_def)
  moreover have "pg_requests_wf t'"
    using wf by (auto simp: t' gone pg_requests_wf_def distinct_map inj_on_def)
  ultimately show ?thesis using Inr by simp
qed

interpretation durable_requests: request_store
  "\<lambda>now k h. rolled_back (pg_request_claim now k h)" "\<lambda>now k h ev. rolled_back (pg_request_complete now k h ev)"
  "\<lambda>now k h err. rolled_back (pg_request_fail now k h err)" "\<lambda>_ k h. rolled_back (pg_request_release k h)"
  pg_ledger pg_requests_wf
  by unfold_locales (rule pg_claim_law pg_complete_law pg_fail_law pg_release_law; assumption)+

abbreviation pg_request_step :: "timestamp request_op \<Rightarrow> pg_requests \<Rightarrow> pg_requests" where
  "pg_request_step \<equiv> request_step (\<lambda>now k h. rolled_back (pg_request_claim now k h))
     (\<lambda>now k h ev. rolled_back (pg_request_complete now k h ev))
     (\<lambda>now k h err. rolled_back (pg_request_fail now k h err)) (\<lambda>_ k h. rolled_back (pg_request_release k h))"

subsection \<open>One execution, one response\<close>

lemma pg_claim_known:
  assumes wf: "pg_requests_wf t" and e: "pg_ledger t k = Some e" and id: "request_identity (snd k) h = Inr ()"
  shows "pg_request_claim now k h t = Inr (ledger_answer h e, t)"
proof -
  from e obtain row where row: "select_one (\<lambda>r. gq_key r = k) t = Some row"
    and e': "e = payload_entry (gq_status row) (gq_request_hash row) (gq_events row) (gq_error row)"
    by (auto simp: pg_ledger_def)
  have p: "payload_ok (gq_status row) (gq_request_hash row) (gq_events row) (gq_error row)"
    using wf select_one_Some [OF row] by (simp add: pg_requests_wf_def)
  show ?thesis
    using row id
    by (auto simp: pg_request_claim_def claim_from_record_def ledger_answer_def e' payload_answer(1,2,3) [OF p])
qed

text \<open>
  C11: A logical model request is executed once. If a claim is answered with \<open>execute\<close>, then
  through any further history of claims, completions, failures and releases of other requests -
  of any worker, with the same or another payload - no second claim of the request is answered
  with \<open>execute\<close>, as long as the request itself is not released.
\<close>

theorem gateway_request_executes_once:
  assumes "pg_requests_wf t" "pg_request_claim now k h t = Inr (a, t1)" "gc_status a = CLAIM_EXECUTE"
    and "list_all hashed ops" "\<not> list_ex (releases k) ops"
    and "pg_request_claim now' k h' (run_ops pg_request_step ops t1) = Inr (a', t2)"
  shows "gc_status a' \<noteq> CLAIM_EXECUTE"
proof -
  have id: "request_identity (snd k) g = Inr u \<Longrightarrow> is_ok (Sha256Hex ''request_hash'' g)" for g u
    by (auto simp: request_identity_def split: if_splits)
  have h: "is_ok (Sha256Hex ''request_hash'' h)" "is_ok (Sha256Hex ''request_hash'' h')"
    using assms(2,6) by (auto simp: pg_request_claim_def bindE_eq_Inr dest: id)
  show ?thesis
    using durable_requests.executes_once [OF assms(1) h _ assms(3-5), of now t1 now' a' t2] assms(2,6)
    by (simp add: rolled_back_cases)
qed

definition sample_hash :: "char \<Rightarrow> string" where
  "sample_hash c = replicate 64 c"

theorem gateway_request_executes_once_witness:
  "\<exists>a t1 a' t2. pg_request_claim 10 (1, ''request-1'') (sample_hash CHR ''a'') [] = Inr (a, t1)
     \<and> gc_status a = CLAIM_EXECUTE
     \<and> pg_request_claim 12 (1, ''request-1'') (sample_hash CHR ''a'')
         (run_ops pg_request_step [ClaimRequest 11 (1, ''request-2'') (sample_hash CHR ''b'')] t1) = Inr (a', t2)
     \<and> gc_status a' \<noteq> CLAIM_EXECUTE"
proof -
  let ?k = "(1, ''request-1'') :: request_key" and ?h = "sample_hash CHR ''a''"
  let ?ops = "[ClaimRequest 11 (1, ''request-2'') (sample_hash CHR ''b'')] :: timestamp request_op list"
  let ?t = "[\<lparr>gq_key = ?k, gq_request_hash = ?h, gq_status = CLAIM_IN_PROGRESS, gq_events = [],
      gq_error = None, gq_created_at = 10, gq_updated_at = 10\<rparr>]"
  let ?a = "\<lparr>gc_status = CLAIM_EXECUTE, gc_request_hash = ?h, gc_events = [], gc_error = None\<rparr>"
  have a: "pg_request_claim 10 ?k ?h [] = Inr (?a, ?t)" by code_simp
  have "is_ok (pg_request_claim 12 ?k ?h (run_ops pg_request_step ?ops ?t))" by code_simp
  then obtain a' t2 where b: "pg_request_claim 12 ?k ?h (run_ops pg_request_step ?ops ?t) = Inr (a', t2)"
    by (auto simp: is_ok_iff)
  have "list_all hashed ?ops" "\<not> list_ex (releases ?k) ?ops" by code_simp+
  then have "gc_status a' \<noteq> CLAIM_EXECUTE"
    using gateway_request_executes_once [OF _ a _ _ _ b] by (simp add: pg_requests_wf_def)
  with a b show ?thesis
    by (intro exI [of _ ?a] exI [of _ ?t] exI [of _ a'] exI [of _ t2]) simp
qed

text \<open>
  C25: A committed response is final. Once \<open>complete\<close> has stored the events of a request, then
  after any further history every claim of the request with the same payload is answered with
  exactly these events, and a claim with another payload with a conflict; neither changes the
  table.
\<close>

theorem gateway_response_replays:
  assumes "pg_requests_wf t" "pg_request_complete now k h events t = Inr ((), t1)" "list_all hashed ops"
    and "request_identity (snd k) h' = Inr ()"
  shows "pg_request_claim now' k h' (run_ops pg_request_step ops t1) =
    Inr (\<lparr>gc_status = (if h' = h then CLAIM_COMPLETED else CLAIM_CONFLICT), gc_request_hash = h,
           gc_events = (if h' = h then events else []), gc_error = None\<rparr>, run_ops pg_request_step ops t1)"
proof -
  have op: "rolled_back (pg_request_complete now k h events) t = (Inr (), t1)"
    using assms(2) by (simp add: rolled_back_cases)
  note t1 = durable_requests.complete_law [OF assms(1) op]
  have "pg_ledger (run_ops pg_request_step ops t1) k = Some (Completed_with h events)"
    using durable_requests.run_settled [of t1 ops k] t1 assms(3) by simp
  from pg_claim_known [OF durable_requests.run_wf this assms(4)] t1 assms(3) show ?thesis
    by (simp add: ledger_answer_def)
qed

definition sample_events :: "GatewayEvent list" where
  "sample_events = [GatewayTextDelta ''hi'', GatewayResponseCompletedEvent \<lparr>rc_finish_reason = STOP,
     rc_input_tokens = 1, rc_output_tokens = 1, rc_cached_tokens = 0, rc_estimated_cost_usd = None,
     rc_provider = None, rc_model = None\<rparr>]"

theorem gateway_response_replays_witness:
  "\<exists>t1. pg_request_complete 12 (1, ''request-1'') (sample_hash CHR ''a'') sample_events
       [\<lparr>gq_key = (1, ''request-1''), gq_request_hash = sample_hash CHR ''a'', gq_status = CLAIM_IN_PROGRESS,
         gq_events = [], gq_error = None, gq_created_at = 10, gq_updated_at = 10\<rparr>] = Inr ((), t1)
     \<and> pg_request_claim 14 (1, ''request-1'') (sample_hash CHR ''a'')
         (run_ops pg_request_step [ReleaseRequest 13 (1, ''request-1'') (sample_hash CHR ''a'')] t1)
       = Inr (\<lparr>gc_status = CLAIM_COMPLETED, gc_request_hash = sample_hash CHR ''a'', gc_events = sample_events,
               gc_error = None\<rparr>,
              run_ops pg_request_step [ReleaseRequest 13 (1, ''request-1'') (sample_hash CHR ''a'')] t1)"
proof -
  let ?k = "(1, ''request-1'') :: request_key" and ?h = "sample_hash CHR ''a''"
  let ?r = "\<lparr>gq_key = ?k, gq_request_hash = ?h, gq_status = CLAIM_IN_PROGRESS, gq_events = [],
      gq_error = None, gq_created_at = 10, gq_updated_at = 10\<rparr>"
  have c: "pg_request_complete 12 ?k ?h sample_events [?r] =
      Inr ((), [?r\<lparr>gq_status := CLAIM_COMPLETED, gq_events := sample_events, gq_updated_at := 12\<rparr>])"
    by code_simp
  have id: "request_identity (snd ?k) ?h = Inr ()" by code_simp
  have "payload_ok CLAIM_IN_PROGRESS ?h [] None" by code_simp
  then have wf: "pg_requests_wf [?r]" by (simp add: pg_requests_wf_def)
  show ?thesis
    using c gateway_response_replays [OF wf c _ id, of "[ReleaseRequest 13 ?k ?h]" 14] by auto
qed

end
