(* ===== verification/Gateway_Policies.thy ===== *)
theory Gateway_Policies
  imports Gateway_Requests Run_Queue
begin

section \<open>Rate limits and circuits of the gateway\<close>

text \<open>
  The protocols \<open>GatewayRateLimiter\<close> and \<open>GatewayCircuitBreaker\<close> of
  \<open>agent_core/gateway_reliability.py\<close> with their implementations: process-local dictionaries in
  \<open>gateway_client/reliability.py\<close>, whose clock is a float of seconds, and the shared tables of
  \<open>platform_persistence/gateway_policies.py\<close>, whose clock is a datetime.

  The locale \<open>circuit_breaker\<close> is the contract of a circuit: each operation acts on one route
  as the circuit automaton does. The limiters differ: the local one admits at most its limit in
  every window of time, the shared one counts in consecutive windows and admits up to twice
  the limit in a window that straddles two of them.
\<close>

subsection \<open>Settings and clocks\<close>

definition MAX_POLICY_SECONDS :: rat where
  "MAX_POLICY_SECONDS = 3600"

definition MAX_LOCAL_CIRCUIT_ROUTES :: int where
  "MAX_LOCAL_CIRCUIT_ROUTES = 1000"

definition MAX_RATE_LIMIT_REQUESTS :: int where
  "MAX_RATE_LIMIT_REQUESTS = 1000000"

definition MAX_CIRCUIT_FAILURE_THRESHOLD :: int where
  "MAX_CIRCUIT_FAILURE_THRESHOLD = 100"

text \<open>\<open>type(value) is int and 1 <= value <= maximum\<close>, else \<open>ValueError(message)\<close>.\<close>

fun policy_integer :: "string \<Rightarrow> int \<Rightarrow> pyval \<Rightarrow> nat result" where
  "policy_integer message maximum (PyInt n) =
     (if 1 \<le> n \<and> n \<le> maximum then Inr (nat n) else Inl (ValueError message))"
| "policy_integer message maximum _ = Inl (ValueError message)"

text \<open>A number that is not a bool, finite and in \<open>(0, 3600]\<close>, else \<open>ValueError(message)\<close>.\<close>

fun policy_seconds :: "string \<Rightarrow> pyval \<Rightarrow> rat result" where
  "policy_seconds message (PyInt n) =
     (if 0 < n \<and> of_int n \<le> MAX_POLICY_SECONDS then Inr (of_int n) else Inl (ValueError message))"
| "policy_seconds message (PyFloat (Fin q)) =
     (if 0 < q \<and> q \<le> MAX_POLICY_SECONDS then Inr q else Inl (ValueError message))"
| "policy_seconds message _ = Inl (ValueError message)"


lemma policy_seconds_Inr:
  "policy_seconds m v = Inr q \<Longrightarrow> 0 < q \<and> q \<le> MAX_POLICY_SECONDS"
  by (cases "(m, v)" rule: policy_seconds.cases) (auto split: if_splits)

fun finite_clock_value :: "pyval \<Rightarrow> rat result" where
  "finite_clock_value (PyInt n) = Inr (of_int n)"
| "finite_clock_value (PyFloat (Fin q)) = Inr q"
| "finite_clock_value _ = Inl (ValueError ''gateway policy clock must return a finite number'')"

fun aware_utc :: "datetime \<Rightarrow> timestamp result" where
  "aware_utc (Naive w) = Inl (ValueError ''gateway policy clock must return an aware timestamp'')"
| "aware_utc (Aware w offset) = Inr (w - offset)"

text \<open>The pattern \<open>^[a-z][a-z0-9-]*$\<close> with 1 to 100 characters; nothing is stripped.\<close>

definition policy_route_name :: "string \<Rightarrow> bool" where
  "policy_route_name s \<longleftrightarrow>
     (case s of [] \<Rightarrow> False
      | c # cs \<Rightarrow> lower_letter c \<and> list_all (\<lambda>d. lower_letter d \<or> digit_char d \<or> d = CHR ''-'') cs)
   \<and> length s \<le> 100"

definition validated_route_name :: "string \<Rightarrow> string result" where
  "validated_route_name s =
     (if policy_route_name s then Inr s else Inl (ValueError ''gateway route name is invalid''))"


subsection \<open>The sliding window of one process\<close>

record rate_settings =
  rs_limit :: nat
  rs_window :: rat
  rs_max_keys :: nat


definition mem_limiter_init :: "pyval \<Rightarrow> pyval \<Rightarrow> pyval \<Rightarrow> rate_settings result" where
  "mem_limiter_init requests_per_window window_seconds max_keys =
     bindE (policy_integer ''requests_per_window must be in [1, 1000000]'' MAX_RATE_LIMIT_REQUESTS
              requests_per_window) (\<lambda>limit.
     bindE (policy_seconds ''window_seconds must be in (0, 3600]'' window_seconds) (\<lambda>window.
     bindE (policy_integer ''max_keys must be in [1, 100000]'' MAX_LOCAL_POLICY_KEYS max_keys) (\<lambda>keys.
     Inr \<lparr>rs_limit = limit, rs_window = window, rs_max_keys = keys\<rparr>)))"



subsection \<open>The shared fixed window\<close>





text \<open>\<open>INSERT ... ON CONFLICT DO NOTHING\<close> on a table with the given key.\<close>

definition insert_missing :: "('r \<Rightarrow> 'k) \<Rightarrow> 'r \<Rightarrow> 'r list \<Rightarrow> 'r list" where
  "insert_missing key row t = (if list_ex (\<lambda>r. key r = key row) t then t else t @ [row])"


subsection \<open>Circuits of one process\<close>

record circuit_settings =
  cs_threshold :: nat
  cs_recovery :: rat
  cs_max_routes :: nat

record CircuitState =
  ct_failures :: int
  ct_opened_at :: "rat option"
  ct_probe_in_flight :: bool
  ct_probe_started_at :: "rat option"

definition new_circuit_state :: CircuitState where
  "new_circuit_state = \<lparr>ct_failures = 0, ct_opened_at = None, ct_probe_in_flight = False, ct_probe_started_at = None\<rparr>"

type_synonym mem_circuits = "(string \<times> CircuitState) list"

definition mem_breaker_init :: "pyval \<Rightarrow> pyval \<Rightarrow> pyval \<Rightarrow> circuit_settings result" where
  "mem_breaker_init failure_threshold recovery_seconds max_routes =
     bindE (policy_integer ''failure_threshold must be in [1, 100]'' MAX_CIRCUIT_FAILURE_THRESHOLD
              failure_threshold) (\<lambda>threshold.
     bindE (policy_seconds ''recovery_seconds must be in (0, 3600]'' recovery_seconds) (\<lambda>recovery.
     bindE (policy_integer ''max_routes must be in [1, 1000]'' MAX_LOCAL_CIRCUIT_ROUTES max_routes) (\<lambda>routes.
     Inr \<lparr>cs_threshold = threshold, cs_recovery = recovery, cs_max_routes = routes\<rparr>)))"

text \<open>
  \<open>self._states.setdefault(route_name, _CircuitState())\<close> behind the guard on the number of
  routes, which the three operations share.
\<close>

definition mem_circuit :: "circuit_settings \<Rightarrow> string \<Rightarrow> mem_circuits \<Rightarrow> CircuitState result" where
  "mem_circuit cfg route s =
     (case map_of s route of
        Some state \<Rightarrow> Inr state
      | None \<Rightarrow>
          if length s \<ge> cs_max_routes cfg
          then Inl (RuntimeError ''in-memory gateway circuit breaker reached capacity'')
          else Inr new_circuit_state)"

definition mem_circuit_allow ::
    "circuit_settings \<Rightarrow> pyval \<Rightarrow> string \<Rightarrow> mem_circuits \<Rightarrow> bool result \<times> mem_circuits" where
  "mem_circuit_allow cfg clock route s =
     (case bindE (finite_clock_value clock) (\<lambda>now. bindE (mem_circuit cfg route s) (\<lambda>state. Inr (now, state))) of
        Inl e \<Rightarrow> (Inl e, s)
      | Inr (now, state) \<Rightarrow>
          let kept = AList.update route state s;
              probing = AList.update route (state\<lparr>ct_probe_in_flight := True, ct_probe_started_at := Some now\<rparr>) s
          in case ct_opened_at state of
               None \<Rightarrow> (Inr True, kept)
             | Some opened_at \<Rightarrow>
                 if now - opened_at < cs_recovery cfg then (Inr False, kept)
                 else if ct_probe_in_flight state then
                   (case ct_probe_started_at state of
                      Some started \<Rightarrow> if now - started < cs_recovery cfg then (Inr False, kept) else (Inr True, probing)
                    | None \<Rightarrow> (Inr True, probing))
                 else (Inr True, probing))"

definition mem_circuit_success ::
    "circuit_settings \<Rightarrow> pyval \<Rightarrow> string \<Rightarrow> mem_circuits \<Rightarrow> unit result \<times> mem_circuits" where
  "mem_circuit_success cfg clock route s =
     (case mem_circuit cfg route s of
        Inl e \<Rightarrow> (Inl e, s)
      | Inr _ \<Rightarrow> (Inr (), AList.update route new_circuit_state s))"

definition mem_circuit_failure ::
    "circuit_settings \<Rightarrow> pyval \<Rightarrow> string \<Rightarrow> mem_circuits \<Rightarrow> unit result \<times> mem_circuits" where
  "mem_circuit_failure cfg clock route s =
     (case bindE (finite_clock_value clock) (\<lambda>now. bindE (mem_circuit cfg route s) (\<lambda>state. Inr (now, state))) of
        Inl e \<Rightarrow> (Inl e, s)
      | Inr (now, state) \<Rightarrow>
          let failures = ct_failures state + 1
          in (Inr (), AList.update route
                (state\<lparr>ct_probe_in_flight := False, ct_probe_started_at := None, ct_failures := failures,
                       ct_opened_at := (if failures \<ge> int (cs_threshold cfg) then Some now else ct_opened_at state)\<rparr>) s))"

subsection \<open>Shared circuits\<close>

record GatewayCircuitRecord =
  cr_route_name :: string
  cr_failure_count :: int
  cr_opened_at :: "timestamp option"
  cr_probe_started_at :: "timestamp option"
  cr_probe_in_flight :: bool
  cr_updated_at :: timestamp

type_synonym pg_circuits = "GatewayCircuitRecord list"

definition pg_breaker_init :: "pyval \<Rightarrow> pyval \<Rightarrow> (nat \<times> timedelta) result" where
  "pg_breaker_init failure_threshold recovery_seconds =
     bindE (policy_integer ''failure_threshold must be in [1, 100]'' MAX_CIRCUIT_FAILURE_THRESHOLD
              failure_threshold) (\<lambda>threshold.
     bindE (policy_seconds ''recovery_seconds must be in (0, 3600]'' recovery_seconds) (\<lambda>recovery.
     Inr (threshold, timedelta_seconds recovery)))"

text \<open>The CHECK constraints of \<open>gateway_circuits\<close> and the range of an \<open>Integer\<close> column.\<close>

definition circuit_row_ok :: "GatewayCircuitRecord \<Rightarrow> bool" where
  "circuit_row_ok r \<longleftrightarrow>
     0 \<le> cr_failure_count r \<and> cr_failure_count r < 2 ^ 31
   \<and> (cr_probe_in_flight r \<and> cr_probe_started_at r \<noteq> None
      \<or> \<not> cr_probe_in_flight r \<and> cr_probe_started_at r = None)"

definition circuits_flush :: "pg_circuits \<Rightarrow> pg_circuits result" where
  "circuits_flush t =
     (if list_all circuit_row_ok t then Inr t else Inl (IntegrityError ''gateway_circuits''))"

definition new_circuit_row :: "string \<Rightarrow> timestamp \<Rightarrow> GatewayCircuitRecord" where
  "new_circuit_row route now =
     \<lparr>cr_route_name = route, cr_failure_count = 0, cr_opened_at = None, cr_probe_started_at = None,
      cr_probe_in_flight = False, cr_updated_at = now\<rparr>"

definition locked_circuit_row ::
    "string \<Rightarrow> timestamp \<Rightarrow> pg_circuits \<Rightarrow> (GatewayCircuitRecord \<times> pg_circuits) result" where
  "locked_circuit_row route now t =
     (let t0 = insert_missing cr_route_name (new_circuit_row route now) t
      in case select_one (\<lambda>r. cr_route_name r = route) t0 of
           None \<Rightarrow> Inl (RuntimeError ''gateway circuit row disappeared'')
         | Some row \<Rightarrow> Inr (row, t0))"

text \<open>The frame of the three operations: validate the name, read the clock, lock the row, flush.\<close>

definition on_circuit_row ::
    "datetime \<Rightarrow> string \<Rightarrow> (timestamp \<Rightarrow> GatewayCircuitRecord \<Rightarrow> 'a \<times> GatewayCircuitRecord) \<Rightarrow>
     pg_circuits \<Rightarrow> ('a \<times> pg_circuits) result" where
  "on_circuit_row clock route body t =
     bindE (validated_route_name route) (\<lambda>_.
     bindE (aware_utc clock) (\<lambda>now.
     bindE (locked_circuit_row route now t) (\<lambda>(row, t0).
     let (x, row') = body now row
     in bindE (circuits_flush (put_row cr_route_name row' t0)) (\<lambda>t'. Inr (x, t')))))"

definition allow_row :: "timedelta \<Rightarrow> timestamp \<Rightarrow> GatewayCircuitRecord \<Rightarrow> bool \<times> GatewayCircuitRecord" where
  "allow_row recovery now row =
     (let probing = row\<lparr>cr_probe_in_flight := True, cr_probe_started_at := Some now, cr_updated_at := now\<rparr>
      in case cr_opened_at row of
           None \<Rightarrow> (True, row)
         | Some opened_at \<Rightarrow>
             if now - opened_at < recovery then (False, row)
             else if cr_probe_in_flight row then
               (case cr_probe_started_at row of
                  Some started \<Rightarrow> if now - started < recovery then (False, row) else (True, probing)
                | None \<Rightarrow> (True, probing))
             else (True, probing))"

definition pg_circuit_allow ::
    "nat \<times> timedelta \<Rightarrow> datetime \<Rightarrow> string \<Rightarrow> pg_circuits \<Rightarrow> (bool \<times> pg_circuits) result" where
  "pg_circuit_allow cfg clock route = on_circuit_row clock route (allow_row (snd cfg))"

definition pg_circuit_success ::
    "nat \<times> timedelta \<Rightarrow> datetime \<Rightarrow> string \<Rightarrow> pg_circuits \<Rightarrow> (unit \<times> pg_circuits) result" where
  "pg_circuit_success cfg clock route = on_circuit_row clock route (\<lambda>now row.
     ((), row\<lparr>cr_failure_count := 0, cr_opened_at := None, cr_probe_in_flight := False,
              cr_probe_started_at := None, cr_updated_at := now\<rparr>))"

definition failed_row :: "nat \<Rightarrow> timestamp \<Rightarrow> GatewayCircuitRecord \<Rightarrow> unit \<times> GatewayCircuitRecord" where
  "failed_row threshold now row =
     (let failures = cr_failure_count row + 1
      in ((), row\<lparr>cr_failure_count := failures, cr_probe_in_flight := False, cr_probe_started_at := None,
                  cr_opened_at := (if failures \<ge> int threshold then Some now else cr_opened_at row),
                  cr_updated_at := now\<rparr>))"

definition pg_circuit_failure ::
    "nat \<times> timedelta \<Rightarrow> datetime \<Rightarrow> string \<Rightarrow> pg_circuits \<Rightarrow> (unit \<times> pg_circuits) result" where
  "pg_circuit_failure cfg clock route = on_circuit_row clock route (failed_row (fst cfg))"

subsection \<open>The circuit automaton\<close>

text \<open>
  The contract: a circuit has a count of failures since its last success; it is closed or was
  opened at some time; an open circuit may have a probe under way.
\<close>

record 't circuit =
  ci_failures :: int
  ci_opened :: "'t option"
  ci_probe :: "'t option"

definition closed_circuit :: "'t circuit" where
  "closed_circuit = \<lparr>ci_failures = 0, ci_opened = None, ci_probe = None\<rparr>"

definition circuit_admits :: "'t::linordered_idom \<Rightarrow> 't \<Rightarrow> 't circuit \<Rightarrow> bool" where
  "circuit_admits recovery now c \<longleftrightarrow>
     (case ci_opened c of None \<Rightarrow> True | Some t \<Rightarrow> t + recovery \<le> now)
   \<and> (ci_opened c \<noteq> None \<longrightarrow> (case ci_probe c of None \<Rightarrow> True | Some t \<Rightarrow> t + recovery \<le> now))"

definition circuit_after_allow :: "'t::linordered_idom \<Rightarrow> 't \<Rightarrow> 't circuit \<Rightarrow> 't circuit" where
  "circuit_after_allow recovery now c =
     (if ci_opened c \<noteq> None \<and> circuit_admits recovery now c then c\<lparr>ci_probe := Some now\<rparr> else c)"

definition circuit_after_failure :: "nat \<Rightarrow> 't \<Rightarrow> 't circuit \<Rightarrow> 't circuit" where
  "circuit_after_failure threshold now c =
     c\<lparr>ci_failures := ci_failures c + 1, ci_probe := None,
       ci_opened := (if ci_failures c + 1 \<ge> int threshold then Some now else ci_opened c)\<rparr>"

datatype 'c circuit_op = Allow 'c string | RecordSuccess 'c string | RecordFailure 'c string

fun circuit_step ::
    "('c \<Rightarrow> string \<Rightarrow> 's \<Rightarrow> bool result \<times> 's) \<Rightarrow> ('c \<Rightarrow> string \<Rightarrow> 's \<Rightarrow> unit result \<times> 's) \<Rightarrow>
     ('c \<Rightarrow> string \<Rightarrow> 's \<Rightarrow> unit result \<times> 's) \<Rightarrow> 'c circuit_op \<Rightarrow> 's \<Rightarrow> 's"
where
  "circuit_step f1 f2 f3 (Allow c r) s = snd (f1 c r s)"
| "circuit_step f1 f2 f3 (RecordSuccess c r) s = snd (f2 c r s)"
| "circuit_step f1 f2 f3 (RecordFailure c r) s = snd (f3 c r s)"

fun op_clock :: "'c circuit_op \<Rightarrow> 'c" where
  "op_clock (Allow c r) = c"
| "op_clock (RecordSuccess c r) = c"
| "op_clock (RecordFailure c r) = c"

fun succeeds_on :: "string \<Rightarrow> 'c circuit_op \<Rightarrow> bool" where
  "succeeds_on r (RecordSuccess c r') \<longleftrightarrow> r' = r"
| "succeeds_on r _ \<longleftrightarrow> False"

fun fails_on :: "string \<Rightarrow> 'c circuit_op \<Rightarrow> bool" where
  "fails_on r (RecordFailure c r') \<longleftrightarrow> r' = r"
| "fails_on r _ \<longleftrightarrow> False"

text \<open>Every clock of the history that can be read shows \<open>t\<close> or later.\<close>

definition not_before :: "('c \<Rightarrow> 't::linordered_idom result) \<Rightarrow> 't \<Rightarrow> 'c circuit_op \<Rightarrow> bool" where
  "not_before reading t x \<longleftrightarrow> (case reading (op_clock x) of Inl e \<Rightarrow> True | Inr t' \<Rightarrow> t \<le> t')"

locale circuit_breaker =
  fixes allow_op :: "'c \<Rightarrow> string \<Rightarrow> 's \<Rightarrow> bool result \<times> 's"
    and success_op :: "'c \<Rightarrow> string \<Rightarrow> 's \<Rightarrow> unit result \<times> 's"
    and failure_op :: "'c \<Rightarrow> string \<Rightarrow> 's \<Rightarrow> unit result \<times> 's"
    and reading :: "'c \<Rightarrow> 't::linordered_idom result"
    and threshold :: nat
    and recovery :: 't
    and circuit :: "'s \<Rightarrow> string \<Rightarrow> 't circuit"
    and wf :: "'s \<Rightarrow> bool"
  assumes allow_law:
      "\<lbrakk>wf s; allow_op c r s = (x, s')\<rbrakk> \<Longrightarrow> wf s' \<and> (case x of Inl e \<Rightarrow> circuit s' = circuit s
        | Inr b \<Rightarrow> \<exists>t. reading c = Inr t \<and> b = circuit_admits recovery t (circuit s r)
            \<and> circuit s' = (circuit s)(r := circuit_after_allow recovery t (circuit s r)))"
    and success_law:
      "\<lbrakk>wf s; success_op c r s = (y, s')\<rbrakk> \<Longrightarrow> wf s' \<and> (case y of Inl e \<Rightarrow> circuit s' = circuit s
        | Inr _ \<Rightarrow> circuit s' = (circuit s)(r := closed_circuit))"
    and failure_law:
      "\<lbrakk>wf s; failure_op c r s = (y, s')\<rbrakk> \<Longrightarrow> wf s' \<and> (case y of Inl e \<Rightarrow> circuit s' = circuit s
        | Inr _ \<Rightarrow> \<exists>t. reading c = Inr t
            \<and> circuit s' = (circuit s)(r := circuit_after_failure threshold t (circuit s r)))"
begin

abbreviation step where
  "step \<equiv> circuit_step allow_op success_op failure_op"

lemma step_cases:
  assumes "wf s"
  shows "wf (step x s) \<and> (circuit (step x s) = circuit s
    \<or> (\<exists>c r t. x = Allow c r \<and> reading c = Inr t
         \<and> circuit (step x s) = (circuit s)(r := circuit_after_allow recovery t (circuit s r)))
    \<or> (\<exists>c r. x = RecordSuccess c r \<and> circuit (step x s) = (circuit s)(r := closed_circuit))
    \<or> (\<exists>c r t. x = RecordFailure c r \<and> reading c = Inr t
         \<and> circuit (step x s) = (circuit s)(r := circuit_after_failure threshold t (circuit s r))))"
proof (cases x)
  case (Allow c r)
  obtain y s' where e: "allow_op c r s = (y, s')" by fastforce
  show ?thesis using allow_law [OF assms e] by (cases y) (auto simp: Allow e)
next
  case (RecordSuccess c r)
  obtain y s' where e: "success_op c r s = (y, s')" by fastforce
  show ?thesis using success_law [OF assms e] by (cases y) (auto simp: RecordSuccess e)
next
  case (RecordFailure c r)
  obtain y s' where e: "failure_op c r s = (y, s')" by fastforce
  show ?thesis using failure_law [OF assms e] by (cases y) (auto simp: RecordFailure e)
qed

lemma run_keeps:
  assumes step: "\<And>s x. \<lbrakk>wf s; P (circuit s r); q x\<rbrakk> \<Longrightarrow> P (circuit (step x s) r)"
  shows "\<lbrakk>wf s; P (circuit s r); list_all q xs\<rbrakk> \<Longrightarrow>
    wf (run_ops step xs s) \<and> P (circuit (run_ops step xs s) r)"
proof (induction xs arbitrary: s)
  case (Cons x xs)
  then show ?case using step [of s x] step_cases [of s x] by simp
qed simp

lemma run_open:
  assumes "wf s" "ci_opened (circuit s r) = Some t1" "t0 \<le> t1"
    and "list_all (\<lambda>x. not_before reading t0 x \<and> \<not> succeeds_on r x) xs"
  shows "wf (run_ops step xs s) \<and> (\<exists>t. ci_opened (circuit (run_ops step xs s) r) = Some t \<and> t0 \<le> t)"
proof (rule run_keeps [where P = "\<lambda>c. \<exists>t. ci_opened c = Some t \<and> t0 \<le> t", OF _ _ _ assms(4)])
  fix s x assume s: "wf s" "\<exists>t. ci_opened (circuit s r) = Some t \<and> t0 \<le> t"
    and x: "not_before reading t0 x \<and> \<not> succeeds_on r x"
  from step_cases [OF s(1), of x] s(2) x show "\<exists>t. ci_opened (circuit (step x s) r) = Some t \<and> t0 \<le> t"
    by (auto simp: circuit_after_allow_def circuit_after_failure_def not_before_def)
qed (use assms in auto)

lemma open_refuses:
  assumes "wf s" "ci_opened (circuit s r) = Some t1" "t0 \<le> t1"
    and "list_all (\<lambda>x. not_before reading t0 x \<and> \<not> succeeds_on r x) xs"
    and "allow_op c r (run_ops step xs s) = (Inr b, s')" "reading c = Inr t" "t < t0 + recovery"
  shows "\<not> b"
proof -
  obtain t2 where "wf (run_ops step xs s)" "ci_opened (circuit (run_ops step xs s) r) = Some t2" "t0 \<le> t2"
    using run_open [OF assms(1-4)] by blast
  then show ?thesis
    using allow_law [OF _ assms(5)] assms(6,7) by (auto simp: circuit_admits_def)
qed

lemma run_probing:
  assumes "wf s" "ci_opened (circuit s r) \<noteq> None" "ci_probe (circuit s r) = Some t1" "t0 \<le> t1"
    and "list_all (\<lambda>x. not_before reading t0 x \<and> \<not> succeeds_on r x \<and> \<not> fails_on r x) xs"
  shows "wf (run_ops step xs s) \<and> ci_opened (circuit (run_ops step xs s) r) \<noteq> None
    \<and> (\<exists>t. ci_probe (circuit (run_ops step xs s) r) = Some t \<and> t0 \<le> t)"
proof (rule run_keeps [where P = "\<lambda>c. ci_opened c \<noteq> None \<and> (\<exists>t. ci_probe c = Some t \<and> t0 \<le> t)", OF _ _ _ assms(5)])
  fix s x assume s: "wf s" "ci_opened (circuit s r) \<noteq> None \<and> (\<exists>t. ci_probe (circuit s r) = Some t \<and> t0 \<le> t)"
    and x: "not_before reading t0 x \<and> \<not> succeeds_on r x \<and> \<not> fails_on r x"
  from step_cases [OF s(1), of x] s(2) x
  show "ci_opened (circuit (step x s) r) \<noteq> None \<and> (\<exists>t. ci_probe (circuit (step x s) r) = Some t \<and> t0 \<le> t)"
    by (auto simp: circuit_after_allow_def not_before_def)
qed (use assms in auto)

lemma single_probe:
  assumes "wf s" "ci_opened (circuit s r) \<noteq> None" "allow_op c0 r s = (Inr True, s1)" "reading c0 = Inr t0"
    and "list_all (\<lambda>x. not_before reading t0 x \<and> \<not> succeeds_on r x \<and> \<not> fails_on r x) xs"
    and "allow_op c r (run_ops step xs s1) = (Inr b, s')" "reading c = Inr t" "t < t0 + recovery"
  shows "\<not> b"
proof -
  from allow_law [OF assms(1,3)] assms(2,4)
  have "wf s1" "ci_opened (circuit s1 r) \<noteq> None" "ci_probe (circuit s1 r) = Some t0"
    by (auto simp: circuit_after_allow_def)
  from run_probing [OF this order_refl assms(5)] allow_law [OF _ assms(6)] assms(7,8) show ?thesis
    by (auto simp: circuit_admits_def)
qed

lemma run_below_threshold:
  "\<lbrakk>wf s; ci_opened (circuit s r) = None; 0 \<le> ci_failures (circuit s r);
    ci_failures (circuit s r) + int (count_where (fails_on r) xs) < int threshold\<rbrakk> \<Longrightarrow>
   wf (run_ops step xs s) \<and> ci_opened (circuit (run_ops step xs s) r) = None"
proof (induction xs arbitrary: s)
  case (Cons x xs)
  from step_cases [OF Cons.prems(1), of x] Cons.prems
  have "wf (step x s) \<and> ci_opened (circuit (step x s) r) = None \<and> 0 \<le> ci_failures (circuit (step x s) r)
    \<and> ci_failures (circuit (step x s) r) + int (count_where (fails_on r) xs) < int threshold"
    by (auto simp: circuit_after_allow_def circuit_after_failure_def closed_circuit_def split: if_splits)
  with Cons.IH show ?case by simp
qed simp

end

subsection \<open>The local circuits meet the contract\<close>

definition state_circuit :: "CircuitState \<Rightarrow> rat circuit" where
  "state_circuit st = \<lparr>ci_failures = ct_failures st, ci_opened = ct_opened_at st, ci_probe = ct_probe_started_at st\<rparr>"

definition mem_circuit_view :: "mem_circuits \<Rightarrow> string \<Rightarrow> rat circuit" where
  "mem_circuit_view s r = (case map_of s r of None \<Rightarrow> closed_circuit | Some st \<Rightarrow> state_circuit st)"

definition probe_state_ok :: "CircuitState \<Rightarrow> bool" where
  "probe_state_ok st \<longleftrightarrow> (ct_probe_in_flight st \<longleftrightarrow> ct_probe_started_at st \<noteq> None)"

definition mem_circuits_wf :: "mem_circuits \<Rightarrow> bool" where
  "mem_circuits_wf s \<longleftrightarrow> (\<forall>r st. map_of s r = Some st \<longrightarrow> probe_state_ok st)"

lemma new_circuit_simps [simp]:
  "probe_state_ok new_circuit_state" "state_circuit new_circuit_state = closed_circuit"
  by (simp_all add: probe_state_ok_def state_circuit_def new_circuit_state_def closed_circuit_def)

lemma mem_circuit_Inr:
  "mem_circuits_wf s \<Longrightarrow> mem_circuit cfg r s = Inr st \<Longrightarrow>
     probe_state_ok st \<and> mem_circuit_view s r = state_circuit st"
  by (auto simp: mem_circuit_def mem_circuits_wf_def mem_circuit_view_def split: option.splits if_splits)

lemma mem_circuit_update:
  assumes "mem_circuits_wf s" "probe_state_ok st"
  shows "mem_circuits_wf (AList.update r st s)
    \<and> mem_circuit_view (AList.update r st s) = (mem_circuit_view s)(r := state_circuit st)"
  using assms by (auto simp: mem_circuits_wf_def mem_circuit_view_def update_conv' fun_eq_iff)

lemma mem_allow_law:
  assumes "mem_circuits_wf s" "mem_circuit_allow cfg c r s = (x, s')"
  shows "mem_circuits_wf s' \<and> (case x of Inl e \<Rightarrow> mem_circuit_view s' = mem_circuit_view s
    | Inr b \<Rightarrow> \<exists>t. finite_clock_value c = Inr t \<and> b = circuit_admits (cs_recovery cfg) t (mem_circuit_view s r)
        \<and> mem_circuit_view s' = (mem_circuit_view s)(r := circuit_after_allow (cs_recovery cfg) t (mem_circuit_view s r)))"
proof (cases "bindE (finite_clock_value c) (\<lambda>now. bindE (mem_circuit cfg r s) (\<lambda>state. Inr (now, state)))")
  case (Inl e)
  then show ?thesis using assms by (auto simp: mem_circuit_allow_def)
next
  case (Inr p)
  obtain t st where p: "p = (t, st)" by fastforce
  with Inr have t: "finite_clock_value c = Inr t" and st: "mem_circuit cfg r s = Inr st"
    by (auto simp: bindE_eq_Inr)
  note st' = mem_circuit_Inr [OF assms(1) st]
  let ?probing = "st\<lparr>ct_probe_in_flight := True, ct_probe_started_at := Some t\<rparr>"
  have probing: "probe_state_ok ?probing" by (simp add: probe_state_ok_def)
  note upd = mem_circuit_update [OF assms(1) conjunct1 [OF st'], of r] mem_circuit_update [OF assms(1) probing, of r]
  show ?thesis
    using assms(2) st'
    by (auto simp: mem_circuit_allow_def t st Let_def upd circuit_admits_def circuit_after_allow_def
        state_circuit_def probe_state_ok_def split: option.splits if_splits)
qed

lemma mem_success_law:
  assumes "mem_circuits_wf s" "mem_circuit_success cfg c r s = (y, s')"
  shows "mem_circuits_wf s' \<and> (case y of Inl e \<Rightarrow> mem_circuit_view s' = mem_circuit_view s
    | Inr _ \<Rightarrow> mem_circuit_view s' = (mem_circuit_view s)(r := closed_circuit))"
  using assms by (auto simp: mem_circuit_success_def mem_circuit_update split: sum.splits)

lemma mem_failure_law:
  assumes "mem_circuits_wf s" "mem_circuit_failure cfg c r s = (y, s')"
  shows "mem_circuits_wf s' \<and> (case y of Inl e \<Rightarrow> mem_circuit_view s' = mem_circuit_view s
    | Inr _ \<Rightarrow> \<exists>t. finite_clock_value c = Inr t
        \<and> mem_circuit_view s' = (mem_circuit_view s)(r := circuit_after_failure (cs_threshold cfg) t (mem_circuit_view s r)))"
proof (cases "bindE (finite_clock_value c) (\<lambda>now. bindE (mem_circuit cfg r s) (\<lambda>state. Inr (now, state)))")
  case (Inl e)
  then show ?thesis using assms by (auto simp: mem_circuit_failure_def)
next
  case (Inr p)
  obtain t st where p: "p = (t, st)" by fastforce
  with Inr have t: "finite_clock_value c = Inr t" and st: "mem_circuit cfg r s = Inr st"
    by (auto simp: bindE_eq_Inr)
  let ?failed = "st\<lparr>ct_probe_in_flight := False, ct_probe_started_at := None, ct_failures := ct_failures st + 1,
    ct_opened_at := (if ct_failures st + 1 \<ge> int (cs_threshold cfg) then Some t else ct_opened_at st)\<rparr>"
  have failed: "probe_state_ok ?failed" by (simp add: probe_state_ok_def)
  have "y = Inr ()" "s' = AList.update r ?failed s"
    using assms(2) by (simp_all add: mem_circuit_failure_def t st Let_def)
  then show ?thesis
    using mem_circuit_update [OF assms(1) failed, of r] mem_circuit_Inr [OF assms(1) st] t
    by (simp add: circuit_after_failure_def state_circuit_def)
qed

interpretation local_circuits: circuit_breaker
  "mem_circuit_allow cfg" "mem_circuit_success cfg" "mem_circuit_failure cfg" finite_clock_value
  "cs_threshold cfg" "cs_recovery cfg" mem_circuit_view mem_circuits_wf for cfg
  by unfold_locales (rule mem_allow_law mem_success_law mem_failure_law; assumption)+

subsection \<open>The shared circuits meet the contract\<close>

lemma select_put_row:
  "select_one (\<lambda>r. key r = k) (put_row key row t) =
     (if key row = k \<and> k \<in> key ` set t then Some row else select_one (\<lambda>r. key r = k) t)"
  by (induction t) (auto simp: put_row_def)

lemma select_insert_missing:
  "select_one (\<lambda>r. key r = k) (insert_missing key row t) =
     (case select_one (\<lambda>r. key r = k) t of Some r \<Rightarrow> Some r | None \<Rightarrow> if key row = k then Some row else None)"
proof (cases "list_ex (\<lambda>r. key r = key row) t")
  case True
  then have "key row = k \<Longrightarrow> select_one (\<lambda>r. key r = k) t \<noteq> None"
    by (auto simp: select_one_None list_ex_iff)
  with True show ?thesis by (auto simp: insert_missing_def split: option.splits)
next
  case False
  then show ?thesis by (simp add: insert_missing_def select_one_append_key)
qed

lemma set_insert_missing: "set (insert_missing key row t) \<subseteq> insert row (set t)"
  by (auto simp: insert_missing_def)


definition row_circuit :: "GatewayCircuitRecord \<Rightarrow> timestamp circuit" where
  "row_circuit r = \<lparr>ci_failures = cr_failure_count r, ci_opened = cr_opened_at r, ci_probe = cr_probe_started_at r\<rparr>"

definition pg_circuit_view :: "pg_circuits \<Rightarrow> string \<Rightarrow> timestamp circuit" where
  "pg_circuit_view t r = (case select_one (\<lambda>x. cr_route_name x = r) t of None \<Rightarrow> closed_circuit | Some row \<Rightarrow> row_circuit row)"

definition pg_circuits_wf :: "pg_circuits \<Rightarrow> bool" where
  "pg_circuits_wf t \<longleftrightarrow> list_all circuit_row_ok t"

text \<open>What a committed operation on a row does to the table; the row comes from the view.\<close>

lemma on_circuit_row_ok:
  assumes ok: "on_circuit_row clock route body t = Inr (x, t')" and wf: "pg_circuits_wf t"
    and name: "\<And>now row. cr_route_name (snd (body now row)) = cr_route_name row"
  obtains now row where "aware_utc clock = Inr now" "circuit_row_ok row"
    "pg_circuit_view t route = row_circuit row" "x = fst (body now row)" "pg_circuits_wf t'"
    "pg_circuit_view t' = (pg_circuit_view t)(route := row_circuit (snd (body now row)))"
proof -
  from ok obtain now where now: "aware_utc clock = Inr now"
    by (auto simp: on_circuit_row_def bindE_eq_Inr)
  let ?t0 = "insert_missing cr_route_name (new_circuit_row route now) t"
  have new: "cr_route_name (new_circuit_row route now) = route"
    "row_circuit (new_circuit_row route now) = closed_circuit" "circuit_row_ok (new_circuit_row route now)"
    by (simp_all add: new_circuit_row_def row_circuit_def closed_circuit_def circuit_row_ok_def)
  obtain row where row: "select_one (\<lambda>r. cr_route_name r = route) ?t0 = Some row"
    by (cases "select_one (\<lambda>r. cr_route_name r = route) t") (simp_all add: select_insert_missing new(1))
  from ok now row have x: "x = fst (body now row)"
    and t': "circuits_flush (put_row cr_route_name (snd (body now row)) ?t0) = Inr t'"
    by (auto simp: on_circuit_row_def locked_circuit_row_def bindE_eq_Inr Let_def split: prod.splits)
  then have wf': "pg_circuits_wf t'" "t' = put_row cr_route_name (snd (body now row)) ?t0"
    by (auto simp: circuits_flush_def pg_circuits_wf_def split: if_splits)
  have r: "row \<in> set ?t0" "cr_route_name row = route" using select_one_Some [OF row] by simp_all
  then have "circuit_row_ok row"
    using set_insert_missing [of cr_route_name "new_circuit_row route now" t] wf new(3)
    by (auto simp: pg_circuits_wf_def list_all_iff)
  moreover have "pg_circuit_view t route = row_circuit row"
    using row by (cases "select_one (\<lambda>r. cr_route_name r = route) t")
      (auto simp: pg_circuit_view_def select_insert_missing new(1,2))
  moreover have "pg_circuit_view t' = (pg_circuit_view t)(route := row_circuit (snd (body now row)))"
  proof
    fix q
    have "route \<in> cr_route_name ` set ?t0" using r by auto
    then show "pg_circuit_view t' q = ((pg_circuit_view t)(route := row_circuit (snd (body now row)))) q"
      by (cases "select_one (\<lambda>r. cr_route_name r = q) t")
        (simp_all add: wf'(2) pg_circuit_view_def select_put_row name r(2) select_insert_missing new(1))
  qed
  ultimately show thesis using that now x wf'(1) by blast
qed

lemma allow_row_name: "cr_route_name (snd (allow_row d now row)) = cr_route_name row"
  by (auto simp: allow_row_def Let_def split: option.splits)

lemma allow_row_circuit:
  "circuit_row_ok row \<Longrightarrow> fst (allow_row d now row) = circuit_admits d now (row_circuit row)
     \<and> row_circuit (snd (allow_row d now row)) = circuit_after_allow d now (row_circuit row)"
  by (auto simp: allow_row_def circuit_row_ok_def circuit_admits_def circuit_after_allow_def row_circuit_def Let_def
      split: option.splits)

lemma pg_allow_law:
  assumes "pg_circuits_wf s" "rolled_back (pg_circuit_allow cfg c r) s = (x, s')"
  shows "pg_circuits_wf s' \<and> (case x of Inl e \<Rightarrow> pg_circuit_view s' = pg_circuit_view s
    | Inr b \<Rightarrow> \<exists>t. aware_utc c = Inr t \<and> b = circuit_admits (snd cfg) t (pg_circuit_view s r)
        \<and> pg_circuit_view s' = (pg_circuit_view s)(r := circuit_after_allow (snd cfg) t (pg_circuit_view s r)))"
proof (cases x)
  case (Inl e)
  then show ?thesis using assms by (simp add: rolled_back_cases)
next
  case (Inr b)
  then have "on_circuit_row c r (allow_row (snd cfg)) s = Inr (b, s')"
    using assms(2) by (simp add: rolled_back_cases pg_circuit_allow_def)
  from on_circuit_row_ok [OF this assms(1) allow_row_name] obtain now row where
    "aware_utc c = Inr now" "circuit_row_ok row" "pg_circuit_view s r = row_circuit row"
    "b = fst (allow_row (snd cfg) now row)" "pg_circuits_wf s'"
    "pg_circuit_view s' = (pg_circuit_view s)(r := row_circuit (snd (allow_row (snd cfg) now row)))" .
  then show ?thesis by (simp add: Inr allow_row_circuit)
qed

lemma pg_success_law:
  assumes "pg_circuits_wf s" "rolled_back (pg_circuit_success cfg c r) s = (y, s')"
  shows "pg_circuits_wf s' \<and> (case y of Inl e \<Rightarrow> pg_circuit_view s' = pg_circuit_view s
    | Inr _ \<Rightarrow> pg_circuit_view s' = (pg_circuit_view s)(r := closed_circuit))"
proof (cases y)
  case (Inl e)
  then show ?thesis using assms by (simp add: rolled_back_cases)
next
  case (Inr u)
  with assms(2) have "pg_circuit_success cfg c r s = Inr (u, s')" by (simp add: rolled_back_cases)
  from on_circuit_row_ok [OF this [unfolded pg_circuit_success_def] assms(1)] show ?thesis
    by (auto simp: Inr row_circuit_def closed_circuit_def)
qed

lemma failed_row_circuit:
  "cr_route_name (snd (failed_row n now row)) = cr_route_name row"
  "row_circuit (snd (failed_row n now row)) = circuit_after_failure n now (row_circuit row)"
  by (simp_all add: failed_row_def row_circuit_def circuit_after_failure_def Let_def)

lemma pg_failure_law:
  assumes "pg_circuits_wf s" "rolled_back (pg_circuit_failure cfg c r) s = (y, s')"
  shows "pg_circuits_wf s' \<and> (case y of Inl e \<Rightarrow> pg_circuit_view s' = pg_circuit_view s
    | Inr _ \<Rightarrow> \<exists>t. aware_utc c = Inr t
        \<and> pg_circuit_view s' = (pg_circuit_view s)(r := circuit_after_failure (fst cfg) t (pg_circuit_view s r)))"
proof (cases y)
  case (Inl e)
  then show ?thesis using assms by (simp add: rolled_back_cases)
next
  case (Inr u)
  then have "on_circuit_row c r (failed_row (fst cfg)) s = Inr (u, s')"
    using assms(2) by (simp add: rolled_back_cases pg_circuit_failure_def)
  from on_circuit_row_ok [OF this assms(1) failed_row_circuit(1)] obtain now row where
    "aware_utc c = Inr now" "pg_circuit_view s r = row_circuit row" "pg_circuits_wf s'"
    "pg_circuit_view s' = (pg_circuit_view s)(r := row_circuit (snd (failed_row (fst cfg) now row)))" .
  then show ?thesis by (simp add: Inr failed_row_circuit(2))
qed

interpretation shared_circuits: circuit_breaker
  "\<lambda>c r. rolled_back (pg_circuit_allow cfg c r)" "\<lambda>c r. rolled_back (pg_circuit_success cfg c r)"
  "\<lambda>c r. rolled_back (pg_circuit_failure cfg c r)" aware_utc
  "fst cfg" "snd cfg" pg_circuit_view pg_circuits_wf for cfg
  by unfold_locales (rule pg_allow_law pg_success_law pg_failure_law; assumption)+

abbreviation pg_circuit_step :: "nat \<times> timedelta \<Rightarrow> datetime circuit_op \<Rightarrow> pg_circuits \<Rightarrow> pg_circuits" where
  "pg_circuit_step cfg \<equiv> circuit_step (\<lambda>c r. rolled_back (pg_circuit_allow cfg c r))
     (\<lambda>c r. rolled_back (pg_circuit_success cfg c r)) (\<lambda>c r. rolled_back (pg_circuit_failure cfg c r))"

text \<open>
  C21: An open circuit protects the provider. Once a failure has brought a route to its failure
  threshold, then through any history of operations of all workers whose clocks are not earlier
  and in which no success of the route is recorded, every attempt on the route within the
  recovery time is refused - also when further failures are recorded meanwhile.
\<close>

theorem circuit_open_refuses:
  assumes "pg_circuits_wf t" "pg_circuit_failure cfg c0 r t = Inr ((), t1)" "aware_utc c0 = Inr t0"
    and "int (fst cfg) \<le> ci_failures (pg_circuit_view t r) + 1"
    and "list_all (\<lambda>x. not_before aware_utc t0 x \<and> \<not> succeeds_on r x) ops"
    and "pg_circuit_allow cfg c r (run_ops (pg_circuit_step cfg) ops t1) = Inr (b, t2)"
    and "aware_utc c = Inr now" "now < t0 + snd cfg"
  shows "\<not> b"
proof -
  have "rolled_back (pg_circuit_failure cfg c0 r) t = (Inr (), t1)"
    "rolled_back (pg_circuit_allow cfg c r) (run_ops (pg_circuit_step cfg) ops t1) = (Inr b, t2)"
    using assms(2,6) by (simp_all add: rolled_back_cases)
  note op = this
  from shared_circuits.failure_law [OF assms(1) op(1)] assms(3,4)
  have "pg_circuits_wf t1" "ci_opened (pg_circuit_view t1 r) = Some t0"
    by (auto simp: circuit_after_failure_def)
  from shared_circuits.open_refuses [OF this order_refl assms(5) op(2) assms(7,8)] show ?thesis .
qed

theorem circuit_open_refuses_witness:
  "\<exists>t1 t2. pg_circuit_failure (1, 1000) (utc 5) ''coding'' [] = Inr ((), t1)
     \<and> pg_circuit_allow (1, 1000) (utc 1004) ''coding''
         (run_ops (pg_circuit_step (1, 1000)) [Allow (utc 6) ''coding''] t1) = Inr (False, t2)"
proof -
  let ?t1 = "[\<lparr>cr_route_name = ''coding'', cr_failure_count = 1, cr_opened_at = Some 5, cr_probe_started_at = None,
    cr_probe_in_flight = False, cr_updated_at = 5\<rparr>]"
  let ?ops = "[Allow (utc 6) ''coding''] :: datetime circuit_op list"
  have a: "pg_circuit_failure (1, 1000) (utc 5) ''coding'' [] = Inr ((), ?t1)" by code_simp
  have "is_ok (pg_circuit_allow (1, 1000) (utc 1004) ''coding'' (run_ops (pg_circuit_step (1, 1000)) ?ops ?t1))"
    by code_simp
  then obtain b t2 where b:
    "pg_circuit_allow (1, 1000) (utc 1004) ''coding'' (run_ops (pg_circuit_step (1, 1000)) ?ops ?t1) = Inr (b, t2)"
    by (auto simp: is_ok_iff)
  have "\<not> b"
    using circuit_open_refuses [OF _ a _ _ _ b]
    by (simp add: pg_circuits_wf_def pg_circuit_view_def closed_circuit_def not_before_def)
  with a b show ?thesis by (intro exI [of _ ?t1] exI [of _ t2]) simp
qed

text \<open>
  C22: A half-open circuit lets one probe through. When an attempt is admitted on an open
  circuit, then until its outcome is recorded every other attempt of any worker on the route
  is refused for the recovery time, after which the probe counts as lost.
\<close>

theorem circuit_single_probe:
  assumes "pg_circuits_wf t" "ci_opened (pg_circuit_view t r) \<noteq> None"
    and "pg_circuit_allow cfg c0 r t = Inr (True, t1)" "aware_utc c0 = Inr t0"
    and "list_all (\<lambda>x. not_before aware_utc t0 x \<and> \<not> succeeds_on r x \<and> \<not> fails_on r x) ops"
    and "pg_circuit_allow cfg c r (run_ops (pg_circuit_step cfg) ops t1) = Inr (b, t2)"
    and "aware_utc c = Inr now" "now < t0 + snd cfg"
  shows "\<not> b"
proof -
  have "rolled_back (pg_circuit_allow cfg c0 r) t = (Inr True, t1)"
    "rolled_back (pg_circuit_allow cfg c r) (run_ops (pg_circuit_step cfg) ops t1) = (Inr b, t2)"
    using assms(3,6) by (simp_all add: rolled_back_cases)
  from shared_circuits.single_probe [OF assms(1,2) this(1) assms(4,5) this(2) assms(7,8)] show ?thesis .
qed

theorem circuit_single_probe_witness:
  "\<exists>t1 t2. pg_circuit_allow (1, 1000) (utc 2000) ''coding''
       [\<lparr>cr_route_name = ''coding'', cr_failure_count = 1, cr_opened_at = Some 5, cr_probe_started_at = None,
         cr_probe_in_flight = False, cr_updated_at = 5\<rparr>] = Inr (True, t1)
     \<and> pg_circuit_allow (1, 1000) (utc 2100) ''coding''
         (run_ops (pg_circuit_step (1, 1000)) [Allow (utc 2050) ''other''] t1) = Inr (False, t2)"
proof -
  let ?row = "\<lparr>cr_route_name = ''coding'', cr_failure_count = 1, cr_opened_at = Some 5, cr_probe_started_at = None,
    cr_probe_in_flight = False, cr_updated_at = 5\<rparr>"
  let ?t1 = "[?row\<lparr>cr_probe_in_flight := True, cr_probe_started_at := Some 2000, cr_updated_at := 2000\<rparr>]"
  let ?ops = "[Allow (utc 2050) ''other''] :: datetime circuit_op list"
  have a: "pg_circuit_allow (1, 1000) (utc 2000) ''coding'' [?row] = Inr (True, ?t1)" by code_simp
  have "is_ok (pg_circuit_allow (1, 1000) (utc 2100) ''coding'' (run_ops (pg_circuit_step (1, 1000)) ?ops ?t1))"
    by code_simp
  then obtain b t2 where b:
    "pg_circuit_allow (1, 1000) (utc 2100) ''coding'' (run_ops (pg_circuit_step (1, 1000)) ?ops ?t1) = Inr (b, t2)"
    by (auto simp: is_ok_iff)
  have "\<not> b"
    using circuit_single_probe [OF _ _ a _ _ b]
    by (simp add: pg_circuits_wf_def pg_circuit_view_def row_circuit_def circuit_row_ok_def not_before_def)
  with a b show ?thesis by (intro exI [of _ ?t1] exI [of _ t2]) simp
qed

subsection \<open>How many requests a limiter admits\<close>






















subsection \<open>The fixed windows of the shared limiter\<close>













end
