(* ===== verification/Gateway_Capacity.thy ===== *)
theory Gateway_Capacity
  imports Gateway_Policies Platform_Samples
begin

section \<open>Gateway capacity leases\<close>

text \<open>
  The capacity values of \<open>agent_core/capacity.py\<close> and the protocol \<open>GatewayCapacityStore\<close>, with
  the process-local store of \<open>gateway_client/reliability.py\<close> and the shared one of
  \<open>platform_persistence/capacity.py\<close>. A lease stands for a request in flight: it takes a slot of
  its tenant, a slot of its route and a number of tokens of the route's token window.

  The locale \<open>capacity_store\<close> is the contract. It speaks of the leases that are live at a time,
  so that it does not matter when a store removes the expired ones.
\<close>

subsection \<open>Values\<close>

definition MAX_PROVIDER_TOKENS :: int where
  "MAX_PROVIDER_TOKENS = 1000000000"

definition MAX_CONCURRENT_REQUESTS :: int where
  "MAX_CONCURRENT_REQUESTS = 10000"

record GatewayCapacityLease =
  gl_id :: uuid
  gl_tenant_id :: uuid
  gl_route_name :: string
  gl_request_id :: string
  gl_reserved_tokens :: int
  gl_acquired_at :: timestamp
  gl_expires_at :: timestamp

definition capacity_lease_validate :: "GatewayCapacityLease \<Rightarrow> GatewayCapacityLease result" where
  "capacity_lease_validate l =
     bindE (IdentifierString ''route_name'' (gl_route_name l)) (\<lambda>r.
     bindE (GatewayRequestIdentifier ''request_id'' (gl_request_id l)) (\<lambda>q.
     bindE (check (1 \<le> gl_reserved_tokens l \<and> gl_reserved_tokens l \<le> MAX_PROVIDER_TOKENS) ''reserved_tokens'') (\<lambda>_.
     if gl_expires_at l \<le> gl_acquired_at l
     then Inl (ValidationError ''gateway capacity expiry must follow acquisition'')
     else Inr (l\<lparr>gl_route_name := r, gl_request_id := q\<rparr>))))"

record CapacityRejection =
  cj_scope :: CapacityScope
  cj_retry_after_seconds :: rat

definition capacity_rejection_validate :: "CapacityRejection \<Rightarrow> CapacityRejection result" where
  "capacity_rejection_validate j =
     (if 0 < cj_retry_after_seconds j \<and> cj_retry_after_seconds j \<le> 3600 then Inr j
      else Inl (ValidationError ''retry_after_seconds''))"

text \<open>A claim has exactly one of a lease and a rejection.\<close>

datatype GatewayCapacityClaim = Granted GatewayCapacityLease | Rejected CapacityRejection

definition rejected :: "CapacityScope \<Rightarrow> rat \<Rightarrow> GatewayCapacityClaim result" where
  "rejected scope seconds =
     bindE (capacity_rejection_validate \<lparr>cj_scope = scope, cj_retry_after_seconds = seconds\<rparr>) (\<lambda>j. Inr (Rejected j))"

definition total_seconds :: "timedelta \<Rightarrow> rat" where
  "total_seconds d = of_int d / of_int microseconds_per_second"

text \<open>\<open>_bounded_integer\<close> and \<open>_bounded_seconds\<close>, the same in both modules.\<close>

definition bounded_integer :: "string \<Rightarrow> pyval \<Rightarrow> int \<Rightarrow> nat result" where
  "bounded_integer name v maximum =
     policy_integer (name @ '' must be in [1, '' @ int_str maximum @ '']'') maximum v"

definition bounded_seconds :: "string \<Rightarrow> pyval \<Rightarrow> rat result" where
  "bounded_seconds name v = policy_seconds (name @ '' must be in (0, 3600]'') v"

text \<open>\<open>type(consumed_tokens) is int and 0 <= consumed_tokens <= 1000000000\<close>.\<close>

fun bounded_consumption :: "pyval \<Rightarrow> int result" where
  "bounded_consumption (PyInt n) =
     (if 0 \<le> n \<and> n \<le> MAX_PROVIDER_TOKENS then Inr n else Inl (ValueError ''consumed_tokens must be in [0, 1000000000]''))"
| "bounded_consumption _ = Inl (ValueError ''consumed_tokens must be in [0, 1000000000]'')"

fun capacity_clock :: "string \<Rightarrow> datetime \<Rightarrow> timestamp result" where
  "capacity_clock message (Naive w) = Inl (ValueError message)"
| "capacity_clock message (Aware w offset) = Inr (w - offset)"

text \<open>The arguments of an acquisition, and what the two factories return for it.\<close>

record capacity_request =
  cq_tenant_id :: uuid
  cq_route_name :: string
  cq_request_id :: string
  cq_reserved_tokens :: pyval
  cq_lease_duration :: timedelta

record factories =
  fa_clock :: datetime
  fa_id :: "uuid option"

definition earliest_expiry :: "GatewayCapacityLease list \<Rightarrow> timestamp" where
  "earliest_expiry ls = Min (gl_expires_at ` set ls)"

subsection \<open>The process-local store\<close>

record capacity_settings =
  cp_tenant_limit :: nat
  cp_provider_limit :: nat
  cp_token_limit :: nat
  cp_window :: rat

record CapacityLeaseState =
  ls_lease :: GatewayCapacityLease
  ls_token_window_started_at :: timestamp

record TokenWindow =
  tw_started_at :: timestamp
  tw_tokens :: int

record mem_capacity =
  cm_leases :: "(uuid \<times> CapacityLeaseState) list"
  cm_requests :: "((uuid \<times> string) \<times> uuid) list"
  cm_tokens :: "(string \<times> TokenWindow) list"

definition mem_capacity_init :: "pyval \<Rightarrow> pyval \<Rightarrow> pyval \<Rightarrow> pyval \<Rightarrow> capacity_settings result" where
  "mem_capacity_init tenant_request_limit provider_request_limit provider_token_limit token_window_seconds =
     bindE (bounded_integer ''tenant_request_limit'' tenant_request_limit MAX_CONCURRENT_REQUESTS) (\<lambda>a.
     bindE (bounded_integer ''provider_request_limit'' provider_request_limit MAX_CONCURRENT_REQUESTS) (\<lambda>b.
     bindE (bounded_integer ''provider_token_limit'' provider_token_limit MAX_PROVIDER_TOKENS) (\<lambda>c.
     bindE (bounded_seconds ''token_window_seconds'' token_window_seconds) (\<lambda>w.
     Inr \<lparr>cp_tenant_limit = a, cp_provider_limit = b, cp_token_limit = c, cp_window = w\<rparr>))))"

abbreviation mem_clock :: "datetime \<Rightarrow> timestamp result" where
  "mem_clock \<equiv> capacity_clock ''gateway capacity clock must return an aware datetime''"

definition lease_request :: "GatewayCapacityLease \<Rightarrow> uuid \<times> string" where
  "lease_request l = (gl_tenant_id l, gl_request_id l)"

definition mem_prune :: "timestamp \<Rightarrow> mem_capacity \<Rightarrow> mem_capacity" where
  "mem_prune now s =
     (let expired = filter (\<lambda>(i, st). gl_expires_at (ls_lease st) \<le> now) (cm_leases s)
      in s\<lparr>cm_leases := filter (\<lambda>(i, st). \<not> gl_expires_at (ls_lease st) \<le> now) (cm_leases s),
           cm_requests := fold (\<lambda>(i, st). AList.delete (lease_request (ls_lease st))) expired (cm_requests s)\<rparr>)"

definition mem_token_window :: "capacity_settings \<Rightarrow> string \<Rightarrow> timestamp \<Rightarrow> mem_capacity \<Rightarrow> TokenWindow \<times> mem_capacity" where
  "mem_token_window cfg route now s =
     (let fresh = \<lparr>tw_started_at = now, tw_tokens = 0\<rparr>;
          renewed = (fresh, s\<lparr>cm_tokens := AList.update route fresh (cm_tokens s)\<rparr>)
      in case map_of (cm_tokens s) route of
           None \<Rightarrow> renewed
         | Some w \<Rightarrow> if total_seconds (now - tw_started_at w) \<ge> cp_window cfg then renewed else (w, s))"

definition mem_held :: "mem_capacity \<Rightarrow> GatewayCapacityLease list" where
  "mem_held s = map (ls_lease \<circ> snd) (cm_leases s)"

definition mem_retry_after :: "GatewayCapacityLease list \<Rightarrow> timestamp \<Rightarrow> rat" where
  "mem_retry_after ls now = max (1 / 1000) (total_seconds (earliest_expiry ls - now))"

text \<open>\<open>acquire\<close> once its arguments are checked and the expired leases are removed.\<close>

definition mem_admit ::
    "capacity_settings \<Rightarrow> uuid option \<Rightarrow> capacity_request \<Rightarrow> int \<Rightarrow> rat \<Rightarrow> timestamp \<Rightarrow> mem_capacity \<Rightarrow>
     GatewayCapacityClaim result \<times> mem_capacity" where
  "mem_admit cfg lease_id q tokens duration now s =
     (let key = (cq_tenant_id q, cq_request_id q); route = cq_route_name q
      in case map_of (cm_requests s) key of
           Some existing \<Rightarrow>
             (case map_of (cm_leases s) existing of
                None \<Rightarrow> (Inl KeyError, s)
              | Some st \<Rightarrow>
                  if gl_route_name (ls_lease st) \<noteq> route \<or> gl_reserved_tokens (ls_lease st) \<noteq> tokens
                  then (Inl (ValueError ''gateway capacity request identity is already in use''), s)
                  else (Inr (Granted (ls_lease st)), s))
         | None \<Rightarrow>
             let tenant_leases = filter (\<lambda>l. gl_tenant_id l = cq_tenant_id q) (mem_held s);
                 route_leases = filter (\<lambda>l. gl_route_name l = route) (mem_held s)
             in if length tenant_leases \<ge> cp_tenant_limit cfg
                then (rejected TENANT_GATEWAY_REQUESTS (mem_retry_after tenant_leases now), s)
                else if length route_leases \<ge> cp_provider_limit cfg
                then (rejected PROVIDER_REQUESTS (mem_retry_after route_leases now), s)
                else case mem_token_window cfg route now s of (w, s1) \<Rightarrow>
                  if tw_tokens w + tokens > int (cp_token_limit cfg)
                  then (rejected PROVIDER_TOKENS
                          (max (1 / 1000) (cp_window cfg - total_seconds (now - tw_started_at w))), s1)
                  else case lease_id of
                         None \<Rightarrow> (Inl (TypeError ''capacity id_factory must return UUID values''), s1)
                       | Some i \<Rightarrow>
                           (case capacity_lease_validate
                                   \<lparr>gl_id = i, gl_tenant_id = cq_tenant_id q, gl_route_name = route,
                                    gl_request_id = cq_request_id q, gl_reserved_tokens = tokens,
                                    gl_acquired_at = now, gl_expires_at = now + timedelta_seconds duration\<rparr> of
                              Inl e \<Rightarrow> (Inl e, s1)
                            | Inr lease \<Rightarrow>
                                (Inr (Granted lease),
                                 s1\<lparr>cm_tokens := AList.update route (w\<lparr>tw_tokens := tw_tokens w + tokens\<rparr>) (cm_tokens s1),
                                    cm_leases := AList.update (gl_id lease)
                                      \<lparr>ls_lease = lease, ls_token_window_started_at = tw_started_at w\<rparr> (cm_leases s1),
                                    cm_requests := AList.update key (gl_id lease) (cm_requests s1)\<rparr>)))"

definition mem_capacity_acquire ::
    "capacity_settings \<Rightarrow> factories \<Rightarrow> capacity_request \<Rightarrow> mem_capacity \<Rightarrow> GatewayCapacityClaim result \<times> mem_capacity" where
  "mem_capacity_acquire cfg fa q s =
     (case bindE (bounded_integer ''reserved_tokens'' (cq_reserved_tokens q) MAX_PROVIDER_TOKENS) (\<lambda>tokens.
           bindE (bounded_seconds ''lease_duration'' (PyFloat (Fin (total_seconds (cq_lease_duration q))))) (\<lambda>duration.
           bindE (mem_clock (fa_clock fa)) (\<lambda>now. Inr (int tokens, duration, now)))) of
        Inl e \<Rightarrow> (Inl e, s)
      | Inr (tokens, duration, now) \<Rightarrow> mem_admit cfg (fa_id fa) q tokens duration now (mem_prune now s))"

definition mem_capacity_release ::
    "capacity_settings \<Rightarrow> factories \<Rightarrow> GatewayCapacityLease \<Rightarrow> pyval \<Rightarrow> mem_capacity \<Rightarrow> unit result \<times> mem_capacity" where
  "mem_capacity_release cfg fa lease consumed_tokens s =
     (case bindE (bounded_consumption consumed_tokens) (\<lambda>consumed.
           bindE (mem_clock (fa_clock fa)) (\<lambda>now. Inr (consumed, now))) of
        Inl e \<Rightarrow> (Inl e, s)
      | Inr (consumed, now) \<Rightarrow>
          (case map_of (cm_leases s) (gl_id lease) of
             None \<Rightarrow> (Inr (), s)
           | Some st \<Rightarrow>
               let popped = AList.delete (gl_id lease) (cm_leases s)
               in if ls_lease st \<noteq> lease
                  then (Inl (ValueError ''gateway capacity lease does not match durable ownership''),
                        s\<lparr>cm_leases := AList.update (gl_id lease) st popped\<rparr>)
                  else
                    case mem_token_window cfg (gl_route_name lease) now
                           (s\<lparr>cm_leases := popped, cm_requests := AList.delete (lease_request lease) (cm_requests s)\<rparr>) of
                      (w, s1) \<Rightarrow>
                        (Inr (),
                         if tw_started_at w = ls_token_window_started_at st
                         then s1\<lparr>cm_tokens := AList.update (gl_route_name lease)
                                (w\<lparr>tw_tokens := max 0 (tw_tokens w - gl_reserved_tokens lease + consumed)\<rparr>) (cm_tokens s1)\<rparr>
                         else s1)))"

definition capacity_lease_lost :: py_error where
  "capacity_lease_lost =
     domain_error ''gateway_capacity_lease_lost'' ''the gateway capacity lease is no longer owned'' True []"

definition mem_capacity_renew ::
    "factories \<Rightarrow> GatewayCapacityLease \<Rightarrow> timedelta \<Rightarrow> mem_capacity \<Rightarrow> GatewayCapacityLease result \<times> mem_capacity" where
  "mem_capacity_renew fa lease lease_duration s =
     (case bindE (bounded_seconds ''lease_duration'' (PyFloat (Fin (total_seconds lease_duration)))) (\<lambda>duration.
           bindE (mem_clock (fa_clock fa)) (\<lambda>now. Inr (duration, now))) of
        Inl e \<Rightarrow> (Inl e, s)
      | Inr (duration, now) \<Rightarrow>
          let s1 = mem_prune now s
          in case map_of (cm_leases s1) (gl_id lease) of
               None \<Rightarrow> (Inl capacity_lease_lost, s1)
             | Some st \<Rightarrow>
                 if ls_lease st \<noteq> lease then (Inl capacity_lease_lost, s1)
                 else case capacity_lease_validate (lease\<lparr>gl_expires_at := now + timedelta_seconds duration\<rparr>) of
                        Inl e \<Rightarrow> (Inl e, s1)
                      | Inr renewed \<Rightarrow>
                          (Inr renewed, s1\<lparr>cm_leases := AList.update (gl_id lease) (st\<lparr>ls_lease := renewed\<rparr>) (cm_leases s1)\<rparr>))"

subsection \<open>The shared store\<close>

record GatewayProviderCapacityRecord =
  pr_route_name :: string
  pr_request_limit :: int
  pr_token_limit :: int
  pr_token_window_seconds :: rat
  pr_token_window_started_at :: timestamp
  pr_accounted_tokens :: int
  pr_updated_at :: timestamp

record GatewayCapacityLeaseRecord =
  gcr_lease :: GatewayCapacityLease
  gcr_token_window_started_at :: timestamp

record pg_capacity =
  pc_database :: database
  pc_routes :: "GatewayProviderCapacityRecord list"
  pc_leases :: "GatewayCapacityLeaseRecord list"

record provider_settings =
  ps_default_quota :: TenantQuota
  ps_request_limit :: nat
  ps_token_limit :: nat
  ps_window :: rat

definition pg_capacity_init :: "TenantQuota \<Rightarrow> pyval \<Rightarrow> pyval \<Rightarrow> pyval \<Rightarrow> provider_settings result" where
  "pg_capacity_init default_quota provider_request_limit provider_token_limit token_window_seconds =
     bindE (bounded_integer ''provider_request_limit'' provider_request_limit MAX_CONCURRENT_REQUESTS) (\<lambda>a.
     bindE (bounded_integer ''provider_token_limit'' provider_token_limit MAX_PROVIDER_TOKENS) (\<lambda>b.
     bindE (bounded_seconds ''token_window_seconds'' token_window_seconds) (\<lambda>w.
     Inr \<lparr>ps_default_quota = default_quota, ps_request_limit = a, ps_token_limit = b, ps_window = w\<rparr>)))"

text \<open>A \<open>Numeric(10, 3)\<close> column rounds what is stored to thousandths, halves up.\<close>

definition numeric3 :: "rat \<Rightarrow> rat" where
  "numeric3 x = of_int \<lfloor>x * 1000 + 1 / 2\<rfloor> / 1000"

definition provider_row_ok :: "GatewayProviderCapacityRecord \<Rightarrow> bool" where
  "provider_row_ok r \<longleftrightarrow>
     1 \<le> pr_request_limit r \<and> pr_request_limit r \<le> 10000
   \<and> 1 \<le> pr_token_limit r \<and> pr_token_limit r \<le> 1000000000
   \<and> 0 < pr_token_window_seconds r \<and> pr_token_window_seconds r \<le> 3600
   \<and> 0 \<le> pr_accounted_tokens r \<and> pr_token_window_started_at r \<le> pr_updated_at r"

definition capacity_lease_rows_ok :: "pg_capacity \<Rightarrow> bool" where
  "capacity_lease_rows_ok s \<longleftrightarrow>
     list_all (\<lambda>r. let l = gcr_lease r in 1 \<le> gl_reserved_tokens l \<and> gl_acquired_at l < gl_expires_at l
         \<and> gl_tenant_id l \<in> tqr_tenant_id ` set (db_quotas (pc_database s))
         \<and> gl_route_name l \<in> pr_route_name ` set (pc_routes s)) (pc_leases s)
   \<and> distinct (map (gl_id \<circ> gcr_lease) (pc_leases s))
   \<and> distinct (map (lease_request \<circ> gcr_lease) (pc_leases s))"

definition capacity_flush :: "pg_capacity \<Rightarrow> pg_capacity result" where
  "capacity_flush s =
     (let s' = s\<lparr>pc_routes := map (\<lambda>r. r\<lparr>pr_token_window_seconds := numeric3 (pr_token_window_seconds r)\<rparr>) (pc_routes s)\<rparr>
      in if constraints_ok (pc_database s') \<and> list_all provider_row_ok (pc_routes s') \<and> capacity_lease_rows_ok s'
         then Inr s' else Inl (IntegrityError ''gateway_capacity''))"

abbreviation pg_clock :: "datetime \<Rightarrow> timestamp result" where
  "pg_clock \<equiv> capacity_clock ''capacity clock must return an aware datetime''"

definition capacity_lease_domain :: "GatewayCapacityLeaseRecord \<Rightarrow> GatewayCapacityLease result" where
  "capacity_lease_domain r = capacity_lease_validate (gcr_lease r)"

definition validated_capacity_route :: "string \<Rightarrow> string result" where
  "validated_capacity_route s = (if policy_route_name s then Inr s else Inl (ValueError ''route_name is invalid''))"

definition validated_request_id :: "string \<Rightarrow> string result" where
  "validated_request_id s =
     (if is_ok (GatewayRequestIdentifier ''request_id'' s) then Inr s else Inl (ValueError ''request_id is invalid''))"

definition new_route_row :: "provider_settings \<Rightarrow> string \<Rightarrow> timestamp \<Rightarrow> GatewayProviderCapacityRecord" where
  "new_route_row cfg route now =
     \<lparr>pr_route_name = route, pr_request_limit = int (ps_request_limit cfg), pr_token_limit = int (ps_token_limit cfg),
      pr_token_window_seconds = numeric3 (ps_window cfg), pr_token_window_started_at = now,
      pr_accounted_tokens = 0, pr_updated_at = now\<rparr>"

definition configured_route ::
    "provider_settings \<Rightarrow> timestamp \<Rightarrow> GatewayProviderCapacityRecord \<Rightarrow> GatewayProviderCapacityRecord" where
  "configured_route cfg now row =
     (if pr_request_limit row \<noteq> int (ps_request_limit cfg) \<or> pr_token_limit row \<noteq> int (ps_token_limit cfg)
         \<or> pr_token_window_seconds row \<noteq> ps_window cfg
      then row\<lparr>pr_request_limit := int (ps_request_limit cfg), pr_token_limit := int (ps_token_limit cfg),
               pr_token_window_seconds := ps_window cfg, pr_updated_at := now\<rparr>
      else row)"

definition route_capacity ::
    "provider_settings \<Rightarrow> string \<Rightarrow> timestamp \<Rightarrow> pg_capacity \<Rightarrow> (GatewayProviderCapacityRecord \<times> pg_capacity) result" where
  "route_capacity cfg route now s =
     (let row0 = new_route_row cfg route now; routes = insert_missing pr_route_name row0 (pc_routes s)
      in if \<not> list_ex (\<lambda>r. pr_route_name r = route) (pc_routes s) \<and> \<not> provider_row_ok row0
         then Inl (IntegrityError ''gateway_provider_capacity'')
         else case select_one (\<lambda>r. pr_route_name r = route) routes of
                None \<Rightarrow> Inl (RuntimeError ''gateway provider capacity row disappeared'')
              | Some row \<Rightarrow>
                  if now < pr_token_window_started_at row \<or> now < pr_updated_at row
                  then Inl (ValueError ''capacity clock may not move backward'')
                  else let row' = configured_route cfg now row
                       in Inr (row', s\<lparr>pc_routes := put_row pr_route_name row' routes\<rparr>))"

definition reset_token_window ::
    "GatewayProviderCapacityRecord \<Rightarrow> timestamp \<Rightarrow> GatewayProviderCapacityRecord result" where
  "reset_token_window route now =
     (if now < pr_token_window_started_at route \<or> now < pr_updated_at route
      then Inl (ValueError ''capacity clock may not move backward'')
      else Inr (if total_seconds (now - pr_token_window_started_at route) \<ge> pr_token_window_seconds route
                then route\<lparr>pr_token_window_started_at := now, pr_accounted_tokens := 0, pr_updated_at := now\<rparr>
                else route))"

definition database_retry_after :: "timestamp \<Rightarrow> (GatewayCapacityLease \<Rightarrow> bool) \<Rightarrow> pg_capacity \<Rightarrow> rat result" where
  "database_retry_after now condition s =
     (let ls = filter condition (map gcr_lease (pc_leases s))
      in if ls = [] then Inl (TypeError ''capacity rejection has no expiring lease'')
         else Inr (max (1 / 1000) (total_seconds (earliest_expiry ls - now))))"

definition committing :: "'a result \<Rightarrow> pg_capacity \<Rightarrow> ('a \<times> pg_capacity) result" where
  "committing r s = bindE r (\<lambda>x. bindE (capacity_flush s) (\<lambda>s'. Inr (x, s')))"

text \<open>The decision of \<open>acquire\<close> for a request without a live lease, on the locked route.\<close>

definition pg_admit ::
    "uuid option \<Rightarrow> uuid \<Rightarrow> string \<Rightarrow> string \<Rightarrow> int \<Rightarrow> rat \<Rightarrow> timestamp \<Rightarrow> TenantQuotaRecord \<Rightarrow> GatewayProviderCapacityRecord \<Rightarrow>
     pg_capacity \<Rightarrow> (GatewayCapacityClaim \<times> pg_capacity) result" where
  "pg_admit lease_id tenant route request tokens duration now quota row s =
     (let held = map gcr_lease (pc_leases s)
      in if int (length (filter (\<lambda>l. gl_tenant_id l = tenant) held)) \<ge> tq_max_gateway_requests (tqr_quota quota)
         then committing (bindE (database_retry_after now (\<lambda>l. gl_tenant_id l = tenant) s) (rejected TENANT_GATEWAY_REQUESTS)) s
         else if int (length (filter (\<lambda>l. gl_route_name l = route) held)) \<ge> pr_request_limit row
         then committing (bindE (database_retry_after now (\<lambda>l. gl_route_name l = route) s) (rejected PROVIDER_REQUESTS)) s
         else bindE (reset_token_window row now) (\<lambda>row1.
           if pr_accounted_tokens row1 + tokens > pr_token_limit row1
           then committing (rejected PROVIDER_TOKENS
                  (max (1 / 1000) (pr_token_window_seconds row1 - total_seconds (now - pr_token_window_started_at row1))))
                  (s\<lparr>pc_routes := put_row pr_route_name row1 (pc_routes s)\<rparr>)
           else case lease_id of
                  None \<Rightarrow> Inl (TypeError ''capacity id_factory must return UUID values'')
                | Some i \<Rightarrow>
                    let lease = \<lparr>gl_id = i, gl_tenant_id = tenant, gl_route_name = route, gl_request_id = request,
                          gl_reserved_tokens = tokens, gl_acquired_at = now, gl_expires_at = now + timedelta_seconds duration\<rparr>;
                        added = \<lparr>gcr_lease = lease, gcr_token_window_started_at = pr_token_window_started_at row1\<rparr>;
                        row2 = row1\<lparr>pr_accounted_tokens := pr_accounted_tokens row1 + tokens, pr_updated_at := now\<rparr>
                    in bindE (capacity_flush (s\<lparr>pc_routes := put_row pr_route_name row2 (pc_routes s),
                                                 pc_leases := pc_leases s @ [added]\<rparr>)) (\<lambda>s'.
                       bindE (capacity_lease_domain added) (\<lambda>l. Inr (Granted l, s')))))"

definition pg_capacity_acquire ::
    "provider_settings \<Rightarrow> factories \<Rightarrow> capacity_request \<Rightarrow> pg_capacity \<Rightarrow> (GatewayCapacityClaim \<times> pg_capacity) result" where
  "pg_capacity_acquire cfg fa q s =
     bindE (validated_capacity_route (cq_route_name q)) (\<lambda>route.
     bindE (validated_request_id (cq_request_id q)) (\<lambda>request.
     bindE (bounded_integer ''reserved_tokens'' (cq_reserved_tokens q) MAX_PROVIDER_TOKENS) (\<lambda>tokens.
     bindE (bounded_seconds ''lease_duration'' (PyFloat (Fin (total_seconds (cq_lease_duration q))))) (\<lambda>duration.
     bindE (pg_clock (fa_clock fa)) (\<lambda>now.
     bindE (ensure_tenant_quota (cq_tenant_id q) (ps_default_quota cfg) now (pc_database s)) (\<lambda>(quota, db).
     bindE (route_capacity cfg route now (s\<lparr>pc_database := db\<rparr>)) (\<lambda>(row, s1).
     let s2 = s1\<lparr>pc_leases := filter (\<lambda>r. \<not> gl_expires_at (gcr_lease r) \<le> now) (pc_leases s1)\<rparr>
     in case select_one (\<lambda>r. lease_request (gcr_lease r) = (cq_tenant_id q, request)) (pc_leases s2) of
          Some existing \<Rightarrow>
            if gl_route_name (gcr_lease existing) \<noteq> route \<or> gl_reserved_tokens (gcr_lease existing) \<noteq> int tokens
            then Inl (ValueError ''gateway capacity request identity is already in use'')
            else committing (bindE (capacity_lease_domain existing) (\<lambda>l. Inr (Granted l))) s2
        | None \<Rightarrow>
            pg_admit (fa_id fa) (cq_tenant_id q) route request (int tokens) duration now quota row s2)))))))"

definition released_route ::
    "timestamp \<Rightarrow> GatewayCapacityLeaseRecord \<Rightarrow> int \<Rightarrow> GatewayProviderCapacityRecord \<Rightarrow> GatewayProviderCapacityRecord" where
  "released_route now row consumed route =
     (let route1 = (if pr_token_window_started_at route = gcr_token_window_started_at row
                    then route\<lparr>pr_accounted_tokens :=
                           max 0 (pr_accounted_tokens route - gl_reserved_tokens (gcr_lease row) + consumed)\<rparr>
                    else route)
      in route1\<lparr>pr_updated_at := now\<rparr>)"

definition pg_capacity_release ::
    "factories \<Rightarrow> GatewayCapacityLease \<Rightarrow> pyval \<Rightarrow> pg_capacity \<Rightarrow> (unit \<times> pg_capacity) result" where
  "pg_capacity_release fa lease consumed_tokens s =
     bindE (bounded_consumption consumed_tokens) (\<lambda>consumed.
     bindE (pg_clock (fa_clock fa)) (\<lambda>now.
     case select_one (\<lambda>r. gl_id (gcr_lease r) = gl_id lease) (pc_leases s) of
       None \<Rightarrow> Inr ((), s)
     | Some row \<Rightarrow>
         bindE (capacity_lease_domain row) (\<lambda>stored.
         if stored \<noteq> lease then Inl (ValueError ''gateway capacity lease does not match durable ownership'')
         else case select_one (\<lambda>r. pr_route_name r = gl_route_name lease) (pc_routes s) of
                None \<Rightarrow> Inl (RuntimeError ''gateway provider capacity row disappeared'')
              | Some route \<Rightarrow>
                  bindE (reset_token_window route now) (\<lambda>route1.
                  committing (Inr ())
                    (s\<lparr>pc_routes := put_row pr_route_name (released_route now row consumed route1) (pc_routes s),
                       pc_leases := filter (\<lambda>r. gl_id (gcr_lease r) \<noteq> gl_id lease) (pc_leases s)\<rparr>)))))"

definition pg_capacity_renew ::
    "factories \<Rightarrow> GatewayCapacityLease \<Rightarrow> timedelta \<Rightarrow> pg_capacity \<Rightarrow> (GatewayCapacityLease \<times> pg_capacity) result" where
  "pg_capacity_renew fa lease lease_duration s =
     bindE (bounded_seconds ''lease_duration'' (PyFloat (Fin (total_seconds lease_duration)))) (\<lambda>duration.
     bindE (pg_clock (fa_clock fa)) (\<lambda>now.
     case select_one (\<lambda>r. gl_id (gcr_lease r) = gl_id lease) (pc_leases s) of
       None \<Rightarrow> Inl capacity_lease_lost
     | Some row \<Rightarrow>
         bindE (capacity_lease_domain row) (\<lambda>stored.
         if stored \<noteq> lease \<or> gl_expires_at (gcr_lease row) \<le> now then Inl capacity_lease_lost
         else let row' = row\<lparr>gcr_lease := (gcr_lease row)\<lparr>gl_expires_at := now + timedelta_seconds duration\<rparr>\<rparr>
              in bindE (capacity_flush (s\<lparr>pc_leases := put_row (gl_id \<circ> gcr_lease) row' (pc_leases s)\<rparr>)) (\<lambda>s'.
                 bindE (capacity_lease_domain row') (\<lambda>l. Inr (l, s'))))))"

subsection \<open>The contract\<close>

definition live :: "timestamp \<Rightarrow> GatewayCapacityLease set \<Rightarrow> GatewayCapacityLease set" where
  "live t ls = {l \<in> ls. t < gl_expires_at l}"

text \<open>From the time of the operation on, the live leases are those of \<open>ls\<close>.\<close>

definition live_from :: "timestamp result \<Rightarrow> GatewayCapacityLease set \<Rightarrow> GatewayCapacityLease set \<Rightarrow> bool" where
  "live_from clock ls ls' \<longleftrightarrow> (case clock of Inl e \<Rightarrow> ls' = ls | Inr now \<Rightarrow> \<forall>t \<ge> now. live t ls' = live t ls)"

definition request_of :: "capacity_request \<Rightarrow> uuid \<times> string" where
  "request_of q = (cq_tenant_id q, cq_request_id q)"

definition tenant_load :: "uuid \<Rightarrow> GatewayCapacityLease set \<Rightarrow> nat" where
  "tenant_load tenant ls = card {l \<in> ls. gl_tenant_id l = tenant}"

definition route_load :: "string \<Rightarrow> GatewayCapacityLease set \<Rightarrow> nat" where
  "route_load route ls = card {l \<in> ls. gl_route_name l = route}"

datatype 'c capacity_op =
    AcquireCapacity 'c capacity_request
  | ReleaseCapacity 'c GatewayCapacityLease pyval
  | RenewCapacity 'c GatewayCapacityLease timedelta

fun capacity_step ::
    "('c \<Rightarrow> capacity_request \<Rightarrow> 's \<Rightarrow> GatewayCapacityClaim result \<times> 's) \<Rightarrow>
     ('c \<Rightarrow> GatewayCapacityLease \<Rightarrow> pyval \<Rightarrow> 's \<Rightarrow> unit result \<times> 's) \<Rightarrow>
     ('c \<Rightarrow> GatewayCapacityLease \<Rightarrow> timedelta \<Rightarrow> 's \<Rightarrow> GatewayCapacityLease result \<times> 's) \<Rightarrow>
     'c capacity_op \<Rightarrow> 's \<Rightarrow> 's" where
  "capacity_step f1 f2 f3 (AcquireCapacity c q) s = snd (f1 c q s)"
| "capacity_step f1 f2 f3 (ReleaseCapacity c l n) s = snd (f2 c l n s)"
| "capacity_step f1 f2 f3 (RenewCapacity c l d) s = snd (f3 c l d s)"

fun capacity_op_at :: "('c \<Rightarrow> timestamp result) \<Rightarrow> 'c capacity_op \<Rightarrow> timestamp result" where
  "capacity_op_at reading (AcquireCapacity c q) = reading c"
| "capacity_op_at reading (ReleaseCapacity c l n) = reading c"
| "capacity_op_at reading (RenewCapacity c l d) = reading c"

text \<open>The operations that give back or extend a lease.\<close>

fun touches_lease :: "uuid \<Rightarrow> 'c capacity_op \<Rightarrow> bool" where
  "touches_lease i (AcquireCapacity c q) \<longleftrightarrow> False"
| "touches_lease i (ReleaseCapacity c l n) \<longleftrightarrow> gl_id l = i"
| "touches_lease i (RenewCapacity c l d) \<longleftrightarrow> gl_id l = i"

text \<open>
  A history from time \<open>t\<close> to time \<open>t'\<close>: the clocks do not go back, and each acquisition meets what
  the store relies on.
\<close>

fun capacity_history ::
    "('c \<Rightarrow> timestamp result) \<Rightarrow> ('c \<Rightarrow> capacity_request \<Rightarrow> 's \<Rightarrow> bool) \<Rightarrow> ('c capacity_op \<Rightarrow> 's \<Rightarrow> 's) \<Rightarrow> timestamp \<Rightarrow>
     'c capacity_op list \<Rightarrow> timestamp \<Rightarrow> 's \<Rightarrow> bool" where
  "capacity_history reading usable step t [] t' s \<longleftrightarrow> t \<le> t'"
| "capacity_history reading usable step t (x # xs) t' s \<longleftrightarrow>
     (case x of AcquireCapacity c q \<Rightarrow> usable c q s | _ \<Rightarrow> True)
   \<and> (case capacity_op_at reading x of
        Inl e \<Rightarrow> capacity_history reading usable step t xs t' (step x s)
      | Inr now \<Rightarrow> t \<le> now \<and> capacity_history reading usable step now xs t' (step x s))"

text \<open>A granted lease is the live one of the request, or a new one for which there is room.\<close>

definition grant_ok ::
    "(uuid \<Rightarrow> int) \<Rightarrow> int \<Rightarrow> capacity_request \<Rightarrow> timestamp \<Rightarrow> GatewayCapacityLease \<Rightarrow>
     GatewayCapacityLease set \<Rightarrow> GatewayCapacityLease set \<Rightarrow> bool" where
  "grant_ok tenant_max route_max q now l ls ls' \<longleftrightarrow>
     lease_request l = request_of q \<and> gl_route_name l = cq_route_name q
   \<and> (l \<in> live now ls \<and> live_from (Inr now) ls ls'
      \<or> request_of q \<notin> lease_request ` live now ls \<and> gl_id l \<notin> gl_id ` live now ls \<and> now < gl_expires_at l
        \<and> int (tenant_load (cq_tenant_id q) (live now ls)) < tenant_max (cq_tenant_id q)
        \<and> int (route_load (cq_route_name q) (live now ls)) < route_max
        \<and> live_from (Inr now) (insert l ls) ls')"

definition loads_within :: "(uuid \<Rightarrow> int) \<Rightarrow> int \<Rightarrow> GatewayCapacityLease set \<Rightarrow> bool" where
  "loads_within tenant_max route_max ls \<longleftrightarrow>
     (\<forall>tenant. int (tenant_load tenant ls) \<le> tenant_max tenant) \<and> (\<forall>route. int (route_load route ls) \<le> route_max)"

lemma loads_withinD:
  "loads_within L R ls \<Longrightarrow> int (tenant_load tenant ls) \<le> L tenant"
  "loads_within L R ls \<Longrightarrow> int (route_load route ls) \<le> R"
  by (simp_all add: loads_within_def)

lemma live_subset: "t \<le> t' \<Longrightarrow> live t' ls \<subseteq> live t ls" "live t ls \<subseteq> ls" "ls \<subseteq> ls' \<Longrightarrow> live t ls \<subseteq> live t ls'"
  by (auto simp: live_def)

lemma card_part_mono: "finite B \<Longrightarrow> A \<subseteq> B \<Longrightarrow> card {l \<in> A. P l} \<le> card {l \<in> B. P l}"
  by (rule card_mono) auto

lemma loads_within_mono:
  assumes "loads_within L R B" "A \<subseteq> B" "finite B"
  shows "loads_within L R A"
  unfolding loads_within_def
proof (intro conjI allI)
  fix tenant
  have "tenant_load tenant A \<le> tenant_load tenant B" unfolding tenant_load_def by (rule card_part_mono [OF assms(3,2)])
  then show "int (tenant_load tenant A) \<le> L tenant" using loads_withinD(1) [OF assms(1), of tenant] by linarith
next
  fix route
  have "route_load route A \<le> route_load route B" unfolding route_load_def by (rule card_part_mono [OF assms(3,2)])
  then show "int (route_load route A) \<le> R" using loads_withinD(2) [OF assms(1), of route] by linarith
qed

lemma card_part_insert: "finite A \<Longrightarrow> card {l \<in> insert m A. P l} \<le> (if P m then Suc (card {l \<in> A. P l}) else card {l \<in> A. P l})"
proof -
  assume "finite A"
  have "{l \<in> insert m A. P l} = (if P m then insert m {l \<in> A. P l} else {l \<in> A. P l})" by auto
  then show ?thesis using \<open>finite A\<close> by (simp add: card_insert_if)
qed

lemma card_part_replace:
  assumes "finite A" "l \<in> A" "P l' \<longleftrightarrow> P l"
  shows "card {m \<in> insert l' (A - {l}). P m} \<le> card {m \<in> A. P m}"
proof -
  have "{m \<in> A. P m} = {m \<in> A - {l}. P m} \<union> (if P l then {l} else {})" using assms(2) by auto
  moreover have "l \<notin> {m \<in> A - {l}. P m}" "finite {m \<in> A - {l}. P m}" using assms(1) by auto
  ultimately have "card {m \<in> A. P m} = (if P l then Suc (card {m \<in> A - {l}. P m}) else card {m \<in> A - {l}. P m})"
    by simp
  then show ?thesis using card_part_insert [of "A - {l}" l' P] assms(1,3) by simp
qed

lemma loads_within_replace:
  assumes "loads_within L R A" "finite A" "l \<in> A" "lease_request l' = lease_request l" "gl_route_name l' = gl_route_name l"
  shows "loads_within L R (insert l' (A - {l}))"
  unfolding loads_within_def
proof (intro conjI allI)
  fix tenant
  have "tenant_load tenant (insert l' (A - {l})) \<le> tenant_load tenant A"
    unfolding tenant_load_def using assms(4) by (intro card_part_replace assms) (simp add: lease_request_def)
  then show "int (tenant_load tenant (insert l' (A - {l}))) \<le> L tenant" using loads_withinD(1) [OF assms(1), of tenant] by linarith
next
  fix route
  have "route_load route (insert l' (A - {l})) \<le> route_load route A"
    unfolding route_load_def using assms(5) by (intro card_part_replace assms) simp
  then show "int (route_load route (insert l' (A - {l}))) \<le> R" using loads_withinD(2) [OF assms(1), of route] by linarith
qed

lemma loads_within_grant:
  assumes "loads_within L R A" "finite A"
    and "int (tenant_load (gl_tenant_id l) A) < L (gl_tenant_id l)" "int (route_load (gl_route_name l) A) < R"
  shows "loads_within L R (insert l A)"
  unfolding loads_within_def
proof (intro conjI allI)
  fix tenant
  show "int (tenant_load tenant (insert l A)) \<le> L tenant"
    using card_part_insert [OF assms(2), of l "\<lambda>l. gl_tenant_id l = tenant"] loads_withinD(1) [OF assms(1), of tenant] assms(3)
    by (cases "gl_tenant_id l = tenant") (simp_all add: tenant_load_def)
next
  fix route
  show "int (route_load route (insert l A)) \<le> R"
    using card_part_insert [OF assms(2), of l "\<lambda>l. gl_route_name l = route"] loads_withinD(2) [OF assms(1), of route] assms(4)
    by (cases "gl_route_name l = route") (simp_all add: route_load_def)
qed

locale capacity_store =
  fixes acquire_op :: "'c \<Rightarrow> capacity_request \<Rightarrow> 's \<Rightarrow> GatewayCapacityClaim result \<times> 's"
    and release_op :: "'c \<Rightarrow> GatewayCapacityLease \<Rightarrow> pyval \<Rightarrow> 's \<Rightarrow> unit result \<times> 's"
    and renew_op :: "'c \<Rightarrow> GatewayCapacityLease \<Rightarrow> timedelta \<Rightarrow> 's \<Rightarrow> GatewayCapacityLease result \<times> 's"
    and reading :: "'c \<Rightarrow> timestamp result"
    and usable :: "'c \<Rightarrow> capacity_request \<Rightarrow> 's \<Rightarrow> bool"
    and held :: "'s \<Rightarrow> GatewayCapacityLease set"
    and tenant_limit :: "'s \<Rightarrow> uuid \<Rightarrow> int"
    and route_limit :: int
    and wf :: "'s \<Rightarrow> bool"
  assumes held_wf: "wf s \<Longrightarrow> finite (held s) \<and> inj_on gl_id (held s) \<and> inj_on lease_request (held s)"
    and acquire_law: "\<lbrakk>wf s; usable c q s; acquire_op c q s = (x, s')\<rbrakk> \<Longrightarrow>
      wf s' \<and> tenant_limit s' = tenant_limit s \<and>
      (case x of
         Inl e \<Rightarrow> live_from (reading c) (held s) (held s')
       | Inr (Rejected j) \<Rightarrow> \<exists>now. reading c = Inr now \<and> request_of q \<notin> lease_request ` live now (held s)
           \<and> live_from (Inr now) (held s) (held s')
       | Inr (Granted l) \<Rightarrow> \<exists>now. reading c = Inr now
           \<and> grant_ok (tenant_limit s) route_limit q now l (held s) (held s'))"
    and release_law: "\<lbrakk>wf s; release_op c l n s = (u, s')\<rbrakk> \<Longrightarrow>
      wf s' \<and> tenant_limit s' = tenant_limit s \<and>
      (case u of Inl e \<Rightarrow> live_from (reading c) (held s) (held s')
       | Inr _ \<Rightarrow> live_from (reading c) (held s - {l}) (held s'))"
    and renew_law: "\<lbrakk>wf s; renew_op c l d s = (y, s')\<rbrakk> \<Longrightarrow>
      wf s' \<and> tenant_limit s' = tenant_limit s \<and>
      (case y of Inl e \<Rightarrow> live_from (reading c) (held s) (held s')
       | Inr l' \<Rightarrow> \<exists>now. reading c = Inr now \<and> l \<in> live now (held s)
           \<and> gl_id l' = gl_id l \<and> lease_request l' = lease_request l \<and> gl_route_name l' = gl_route_name l
           \<and> live_from (Inr now) (insert l' (held s - {l})) (held s'))"
begin

abbreviation step where
  "step \<equiv> capacity_step acquire_op release_op renew_op"

text \<open>What an operation does to the live leases, at every time from its own on.\<close>

lemma step_cases:
  assumes "wf s" "case x of AcquireCapacity c q \<Rightarrow> usable c q s | _ \<Rightarrow> True"
  shows "wf (step x s) \<and> tenant_limit (step x s) = tenant_limit s
    \<and> (live_from (capacity_op_at reading x) (held s) (held (step x s))
      \<or> (\<exists>l. touches_lease (gl_id l) x \<and> live_from (capacity_op_at reading x) (held s - {l}) (held (step x s)))
      \<or> (\<exists>now l l'. capacity_op_at reading x = Inr now \<and> l \<in> live now (held s) \<and> touches_lease (gl_id l) x
           \<and> gl_id l' = gl_id l \<and> lease_request l' = lease_request l \<and> gl_route_name l' = gl_route_name l
           \<and> live_from (Inr now) (insert l' (held s - {l})) (held (step x s)))
      \<or> (\<exists>now q l. capacity_op_at reading x = Inr now
           \<and> grant_ok (tenant_limit s) route_limit q now l (held s) (held (step x s))))"
proof (cases x)
  case (AcquireCapacity c q)
  obtain y s' where e: "acquire_op c q s = (y, s')" by fastforce
  have "usable c q s" using assms(2) by (simp add: AcquireCapacity)
  from acquire_law [OF assms(1) this e] show ?thesis
    by (cases y) (auto simp: AcquireCapacity e split: GatewayCapacityClaim.splits)
next
  case (ReleaseCapacity c l n)
  obtain y s' where e: "release_op c l n s = (y, s')" by fastforce
  from release_law [OF assms(1) e] show ?thesis
    by (cases y) (auto simp: ReleaseCapacity e)
next
  case (RenewCapacity c l d)
  obtain y s' where e: "renew_op c l d s = (y, s')" by fastforce
  show ?thesis
  proof (cases y)
    case (Inl err)
    then show ?thesis using renew_law [OF assms(1) e] by (simp add: RenewCapacity e)
  next
    case (Inr l')
    then show ?thesis using renew_law [OF assms(1) e] by (auto simp: RenewCapacity e)
  qed
qed

lemma step_within:
  assumes s: "wf s" "case x of AcquireCapacity c q \<Rightarrow> usable c q s | _ \<Rightarrow> True"
    and t: "t \<le> t'" "case capacity_op_at reading x of Inl e \<Rightarrow> True | Inr now \<Rightarrow> t' = now"
    and w: "loads_within (tenant_limit s) route_limit (live t (held s))"
  shows "loads_within (tenant_limit s) route_limit (live t' (held (step x s)))"
proof -
  let ?within = "loads_within (tenant_limit s) route_limit"
  have fin: "finite (held s)" using held_wf [OF s(1)] by blast
  have fin_live: "finite (live u ls)" if "finite ls" for u ls
    using that live_subset(2) [of u ls] by (rule rev_finite_subset)
  have now: "?within (live t' (held s))"
    using loads_within_mono [OF w live_subset(1) [OF t(1)]] fin fin_live by blast
  have less: "?within (live t' (held s - {l}))" for l
    by (rule loads_within_mono [OF now live_subset(3)]) (use fin fin_live in auto)
  from step_cases [OF s] show ?thesis
  proof (elim conjE disjE exE)
    assume "live_from (capacity_op_at reading x) (held s) (held (step x s))"
    then have "live t' (held (step x s)) = live t' (held s)"
      using t(2) by (auto simp: live_from_def split: sum.splits)
    then show ?thesis using now by simp
  next
    fix l assume "live_from (capacity_op_at reading x) (held s - {l}) (held (step x s))"
    then have "live t' (held (step x s)) = live t' (held s - {l})"
      using t(2) by (auto simp: live_from_def split: sum.splits)
    then show ?thesis using less by simp
  next
    fix now' l l' assume r: "capacity_op_at reading x = Inr now'" "l \<in> live now' (held s)"
      "lease_request l' = lease_request l" "gl_route_name l' = gl_route_name l"
      "live_from (Inr now') (insert l' (held s - {l})) (held (step x s))"
    then have "t' = now'" "live t' (held (step x s)) \<subseteq> insert l' (live t' (held s) - {l})"
      using t(2) by (auto simp: live_from_def live_def)
    then show ?thesis
      using loads_within_mono [OF loads_within_replace [OF now _ _ r(3,4)]] r(2) fin fin_live by blast
  next
    fix now' q l assume r: "capacity_op_at reading x = Inr now'"
      "grant_ok (tenant_limit s) route_limit q now' l (held s) (held (step x s))"
    then have [simp]: "now' = t'" using t(2) by simp
    from r(2) show ?thesis
      unfolding grant_ok_def
    proof (elim conjE disjE)
      assume "live_from (Inr now') (held s) (held (step x s))"
      then show ?thesis using now by (simp add: live_from_def)
    next
      assume g: "lease_request l = request_of q" "gl_route_name l = cq_route_name q"
        "int (tenant_load (cq_tenant_id q) (live now' (held s))) < tenant_limit s (cq_tenant_id q)"
        "int (route_load (cq_route_name q) (live now' (held s))) < route_limit"
        "live_from (Inr now') (insert l (held s)) (held (step x s))"
      have "?within (insert l (live t' (held s)))"
        using g(1-4) fin fin_live by (intro loads_within_grant now) (auto simp: lease_request_def request_of_def)
      moreover have "live t' (held (step x s)) \<subseteq> insert l (live t' (held s))"
        using g(5) by (auto simp: live_from_def live_def)
      ultimately show ?thesis using loads_within_mono fin fin_live by blast
    qed
  qed
qed

lemma run_within:
  "\<lbrakk>capacity_history reading usable step t xs t' s; wf s; loads_within (tenant_limit s) route_limit (live t (held s))\<rbrakk> \<Longrightarrow>
   wf (run_ops step xs s) \<and> tenant_limit (run_ops step xs s) = tenant_limit s
     \<and> loads_within (tenant_limit s) route_limit (live t' (held (run_ops step xs s)))"
proof (induction xs arbitrary: t s)
  case Nil
  then show ?case
    using loads_within_mono [OF Nil(3) live_subset(1), of t'] held_wf [OF Nil(2)] live_subset(2) [of t "held s"]
    by (auto intro: finite_subset)
next
  case (Cons x xs)
  have ok: "case x of AcquireCapacity c q \<Rightarrow> usable c q s | _ \<Rightarrow> True" using Cons.prems(1) by simp
  define u where "u = (case capacity_op_at reading x of Inl e \<Rightarrow> t | Inr now \<Rightarrow> now)"
  have u: "t \<le> u" "case capacity_op_at reading x of Inl e \<Rightarrow> True | Inr now \<Rightarrow> u = now"
    "capacity_history reading usable step u xs t' (step x s)"
    using Cons.prems(1) by (auto simp: u_def split: sum.splits)
  have same: "wf (step x s)" "tenant_limit (step x s) = tenant_limit s" using step_cases [OF Cons.prems(2) ok] by blast+
  from Cons.IH [OF u(3) same(1)] step_within [OF Cons.prems(2) ok u(1,2) Cons.prems(3)] show ?case
    by (simp add: same(2))
qed

lemma step_holds:
  assumes "wf s" "case x of AcquireCapacity c q \<Rightarrow> usable c q s | _ \<Rightarrow> True"
    and "l \<in> held s" "\<not> touches_lease (gl_id l) x"
    and "case capacity_op_at reading x of Inl e \<Rightarrow> True | Inr now \<Rightarrow> now < gl_expires_at l"
  shows "l \<in> held (step x s)"
proof -
  have mem: "l \<in> held (step x s)" if "live_from (capacity_op_at reading x) ls (held (step x s))" "l \<in> ls" for ls
    using that assms(5) by (cases "capacity_op_at reading x") (auto simp: live_from_def live_def set_eq_iff)
  have other: "l \<noteq> m" if "touches_lease (gl_id m) x" for m using that assms(4) by blast
  from step_cases [OF assms(1,2)] show ?thesis
  proof (elim conjE disjE exE)
    assume "live_from (capacity_op_at reading x) (held s) (held (step x s))"
    then show ?thesis using mem assms(3) by blast
  next
    fix m assume "live_from (capacity_op_at reading x) (held s - {m}) (held (step x s))" "touches_lease (gl_id m) x"
    then show ?thesis using mem other [of m] assms(3) by blast
  next
    fix now m m' assume "capacity_op_at reading x = Inr now" "touches_lease (gl_id m) x"
      "live_from (Inr now) (insert m' (held s - {m})) (held (step x s))"
    then show ?thesis using mem other [of m] assms(3) by simp
  next
    fix now q m assume "capacity_op_at reading x = Inr now" "grant_ok (tenant_limit s) route_limit q now m (held s) (held (step x s))"
    then show ?thesis using mem assms(3) by (auto simp: grant_ok_def)
  qed
qed

lemma history_times: "capacity_history reading usable step t xs t' s \<Longrightarrow> t \<le> t'"
  by (induction xs arbitrary: t s) (force split: sum.splits)+

lemma run_holds:
  "\<lbrakk>capacity_history reading usable step t xs t' s; wf s; l \<in> held s; t' < gl_expires_at l;
    \<not> list_ex (touches_lease (gl_id l)) xs\<rbrakk> \<Longrightarrow> wf (run_ops step xs s) \<and> l \<in> held (run_ops step xs s)"
proof (induction xs arbitrary: t s)
  case (Cons x xs)
  have ok: "case x of AcquireCapacity c q \<Rightarrow> usable c q s | _ \<Rightarrow> True" using Cons.prems(1) by simp
  obtain u where u: "capacity_history reading usable step u xs t' (step x s)"
    and now: "case capacity_op_at reading x of Inl e \<Rightarrow> True | Inr now \<Rightarrow> now = u"
    using Cons.prems(1) by (auto split: sum.splits)
  have "case capacity_op_at reading x of Inl e \<Rightarrow> True | Inr now \<Rightarrow> now < gl_expires_at l"
    using now history_times [OF u] Cons.prems(4) by (auto split: sum.splits)
  from step_holds [OF Cons.prems(2) ok Cons.prems(3) _ this] Cons.prems(5) have "l \<in> held (step x s)" by simp
  moreover have "wf (step x s)" using step_cases [OF Cons.prems(2) ok] by blast
  ultimately show ?case using Cons.IH [OF u] Cons.prems(4,5) by simp
qed simp

lemma acquire_again:
  assumes "wf s" "usable c q s" "acquire_op c q s = (Inr answer, s')"
    and "l \<in> held s" "request_of q = lease_request l" "reading c = Inr now" "now < gl_expires_at l"
  shows "answer = Granted l"
proof -
  have l: "l \<in> live now (held s)" using assms(4,7) by (simp add: live_def)
  note law = acquire_law [OF assms(1-3)]
  have inj: "inj_on lease_request (held s)" using held_wf [OF assms(1)] by blast
  show ?thesis
  proof (cases answer)
    case (Granted m)
    then have "grant_ok (tenant_limit s) route_limit q now m (held s) (held s')" using law assms(6) by simp
    then have "m \<in> live now (held s)" "lease_request m = lease_request l"
      using l assms(5) by (auto simp: grant_ok_def)
    then show ?thesis using inj l Granted by (auto simp: live_def dest: inj_onD)
  next
    case (Rejected j)
    then show ?thesis using law assms(5,6) l by auto
  qed
qed

end

subsection \<open>The shared store meets the contract\<close>

definition pg_held :: "pg_capacity \<Rightarrow> GatewayCapacityLease set" where
  "pg_held s = gcr_lease ` set (pc_leases s)"

definition pg_tenant_limit :: "provider_settings \<Rightarrow> pg_capacity \<Rightarrow> uuid \<Rightarrow> int" where
  "pg_tenant_limit cfg s tenant =
     tq_max_gateway_requests (case select_one (\<lambda>q. tqr_tenant_id q = tenant) (db_quotas (pc_database s)) of
       None \<Rightarrow> ps_default_quota cfg | Some q \<Rightarrow> tqr_quota q)"

definition lease_valid :: "GatewayCapacityLease \<Rightarrow> bool" where
  "lease_valid l \<longleftrightarrow> capacity_lease_validate l = Inr l"

definition pg_capacity_wf :: "pg_capacity \<Rightarrow> bool" where
  "pg_capacity_wf s \<longleftrightarrow>
     (\<forall>r \<in> set (pc_leases s). lease_valid (gcr_lease r))
   \<and> distinct (map (gl_id \<circ> gcr_lease) (pc_leases s)) \<and> distinct (map (lease_request \<circ> gcr_lease) (pc_leases s))"

lemma strip_by_plain: "list_all (\<lambda>c. \<not> p c) s \<Longrightarrow> strip_by p s = s"
proof -
  assume s: "list_all (\<lambda>c. \<not> p c) s"
  have "dropWhile p t = t" if "\<forall>c \<in> set t. \<not> p c" for t using that by (cases t) auto
  from this [of s] this [of "rev s"] show ?thesis using s by (simp add: strip_by_def list_all_iff)
qed

lemma policy_route_plain:
  assumes "policy_route_name r"
  shows "IdentifierString f r = Inr r"
proof -
  have "list_all (\<lambda>c. \<not> rust_isspace c) r"
    using assms
    by (auto simp: policy_route_name_def list_all_iff lower_letter_def digit_char_def rust_isspace_def Let_def
        split: list.splits)
  then have "rust_trim r = r" by (rule strip_by_plain)
  then show ?thesis
    using assms by (cases r) (auto simp: IdentifierString_def constrained_string_def policy_route_name_def Let_def)
qed

lemma lease_validate_Inr:
  "capacity_lease_validate l = Inr l' \<Longrightarrow> l' = l\<lparr>gl_route_name := gl_route_name l'\<rparr> \<and> IdentifierString ''route_name'' (gl_route_name l) = Inr (gl_route_name l')
     \<and> gl_acquired_at l < gl_expires_at l"
  by (auto simp: capacity_lease_validate_def bindE_eq_Inr GatewayRequestIdentifier_def split: if_splits)

lemma lease_validate_same:
  "capacity_lease_validate l = Inr l' \<Longrightarrow> IdentifierString ''route_name'' (gl_route_name l) = Inr (gl_route_name l) \<Longrightarrow>
     l' = l \<and> lease_valid l"
  using lease_validate_Inr [of l l'] by (auto simp: lease_valid_def)

lemma capacity_flush_Inr:
  "capacity_flush s = Inr s' \<Longrightarrow> pc_leases s' = pc_leases s \<and> pc_database s' = pc_database s
     \<and> distinct (map (gl_id \<circ> gcr_lease) (pc_leases s)) \<and> distinct (map (lease_request \<circ> gcr_lease) (pc_leases s))"
  by (auto simp: capacity_flush_def capacity_lease_rows_ok_def Let_def split: if_splits)

lemma committing_Inr:
  "committing r s = Inr (x, s') \<longleftrightarrow> r = Inr x \<and> capacity_flush s = Inr s'"
  by (auto simp: committing_def bindE_eq_Inr)

lemma pg_limit_ensure:
  assumes "ensure_tenant_quota tenant (ps_default_quota cfg) now (pc_database s) = Inr (quota, db)"
  shows "pg_tenant_limit cfg (s\<lparr>pc_database := db\<rparr>) = pg_tenant_limit cfg s
    \<and> tq_max_gateway_requests (tqr_quota quota) = pg_tenant_limit cfg s tenant"
proof -
  let ?new = "\<lparr>tqr_tenant_id = tenant, tqr_quota = ps_default_quota cfg, tqr_created_at = now, tqr_updated_at = now\<rparr>"
  have db: "db_quotas db = insert_missing tqr_tenant_id ?new (db_quotas (pc_database s))"
    "select_one (\<lambda>q. tqr_tenant_id q = tenant) (db_quotas db) = Some quota"
    using assms by (auto simp: ensure_tenant_quota_def insert_missing_def Let_def split: option.splits if_splits)
  have "pg_tenant_limit cfg (s\<lparr>pc_database := db\<rparr>) u = pg_tenant_limit cfg s u" for u
    by (cases "select_one (\<lambda>q. tqr_tenant_id q = u) (db_quotas (pc_database s))")
      (simp_all add: pg_tenant_limit_def db(1) select_insert_missing)
  moreover have "tq_max_gateway_requests (tqr_quota quota) = pg_tenant_limit cfg (s\<lparr>pc_database := db\<rparr>) tenant"
    by (simp add: pg_tenant_limit_def db(2))
  ultimately show ?thesis by (simp add: fun_eq_iff)
qed

lemma route_capacity_Inr:
  assumes "route_capacity cfg route now s = Inr (row, s1)"
  shows "pc_leases s1 = pc_leases s \<and> pc_database s1 = pc_database s \<and> pr_request_limit row = int (ps_request_limit cfg)"
  using assms by (auto simp: route_capacity_def configured_route_def Let_def split: option.splits if_splits)

lemma reset_token_window_Inr:
  "reset_token_window route now = Inr route1 \<Longrightarrow> pr_request_limit route1 = pr_request_limit route"
  by (auto simp: reset_token_window_def split: if_splits)

lemma pg_admit_cases:
  assumes "pg_admit i tenant route request tokens duration now quota row s = Inr (x, s')"
  shows "pc_database s' = pc_database s \<and> (case x of Rejected j \<Rightarrow> pc_leases s' = pc_leases s
    | Granted l \<Rightarrow> \<exists>added. pc_leases s' = pc_leases s @ [added] \<and> capacity_lease_validate (gcr_lease added) = Inr l
        \<and> lease_request (gcr_lease added) = (tenant, request) \<and> gl_route_name (gcr_lease added) = route
        \<and> gl_acquired_at (gcr_lease added) = now
        \<and> int (length (filter (\<lambda>r. gl_tenant_id (gcr_lease r) = tenant) (pc_leases s))) < tq_max_gateway_requests (tqr_quota quota)
        \<and> int (length (filter (\<lambda>r. gl_route_name (gcr_lease r) = route) (pc_leases s))) < pr_request_limit row
        \<and> distinct (map (gl_id \<circ> gcr_lease) (pc_leases s')) \<and> distinct (map (lease_request \<circ> gcr_lease) (pc_leases s')))"
  using assms
  by (auto simp: pg_admit_def Let_def committing_Inr rejected_def bindE_eq_Inr capacity_lease_domain_def filter_map o_def
      lease_request_def dest!: capacity_flush_Inr split: if_splits option.splits)

lemma inj_on_rows: "distinct (map (f \<circ> gcr_lease) t) \<Longrightarrow> inj_on f (gcr_lease ` set t)"
  by (auto simp: distinct_map inj_on_def)

lemma card_rows:
  assumes "distinct (map (gl_id \<circ> gcr_lease) t)"
  shows "card {l \<in> gcr_lease ` set t. P l} = length (filter (\<lambda>r. P (gcr_lease r)) t)"
proof -
  have "distinct (map gcr_lease (filter (\<lambda>r. P (gcr_lease r)) t))"
    using assms by (auto simp: distinct_map inj_on_def)
  moreover have "{l \<in> gcr_lease ` set t. P l} = set (map gcr_lease (filter (\<lambda>r. P (gcr_lease r)) t))" by auto
  ultimately show ?thesis by (metis distinct_card length_map)
qed

abbreviation live_rows :: "timestamp \<Rightarrow> GatewayCapacityLeaseRecord list \<Rightarrow> GatewayCapacityLeaseRecord list" where
  "live_rows now t \<equiv> filter (\<lambda>r. \<not> gl_expires_at (gcr_lease r) \<le> now) t"

lemma live_live_rows: "gcr_lease ` set (live_rows now t) = live now (gcr_lease ` set t)"
  by (auto simp: live_def)

lemma live_from_pruned: "live_from (Inr now) ls (live now ls)"
  by (auto simp: live_from_def live_def)

lemma pg_wf_filter: "pg_capacity_wf s \<Longrightarrow> pc_leases s' = filter p (pc_leases s) \<Longrightarrow> pg_capacity_wf s'"
  by (simp add: pg_capacity_wf_def distinct_map_filter)

text \<open>The row that an acquisition adds, with what was checked before.\<close>

lemma pg_grant_ok:
  assumes wf: "pg_capacity_wf s" and route: "policy_route_name (cq_route_name q)"
    and none: "\<forall>r \<in> set (live_rows now (pc_leases s)). lease_request (gcr_lease r) \<noteq> request_of q"
    and s': "pc_leases s' = live_rows now (pc_leases s) @ [added]"
      "capacity_lease_validate (gcr_lease added) = Inr l" "lease_request (gcr_lease added) = request_of q"
      "gl_route_name (gcr_lease added) = cq_route_name q" "gl_acquired_at (gcr_lease added) = now"
      "distinct (map (gl_id \<circ> gcr_lease) (pc_leases s'))" "distinct (map (lease_request \<circ> gcr_lease) (pc_leases s'))"
    and room: "int (length (filter (\<lambda>r. gl_tenant_id (gcr_lease r) = cq_tenant_id q) (live_rows now (pc_leases s)))) < L (cq_tenant_id q)"
      "int (length (filter (\<lambda>r. gl_route_name (gcr_lease r) = cq_route_name q) (live_rows now (pc_leases s)))) < R"
  shows "pg_capacity_wf s' \<and> grant_ok L R q now l (pg_held s) (pg_held s')"
proof -
  have l: "l = gcr_lease added" "lease_valid l"
    using lease_validate_same [OF s'(2)] policy_route_plain [OF route] s'(4) by auto
  have later: "now < gl_expires_at l" using lease_validate_Inr [OF s'(2)] s'(5) l(1) by simp
  have held: "pg_held s' = insert l (live now (pg_held s))"
    by (auto simp: pg_held_def s'(1) l(1) live_def)
  have d: "distinct (map (gl_id \<circ> gcr_lease) (live_rows now (pc_leases s)))"
    using wf by (simp add: pg_capacity_wf_def distinct_map_filter)
  have "gl_id l \<notin> gl_id ` live now (pg_held s)"
    using s'(6) unfolding s'(1) l(1) pg_held_def live_live_rows [symmetric] by auto
  moreover have "request_of q \<notin> lease_request ` live now (pg_held s)"
    using none unfolding pg_held_def live_live_rows [symmetric] by auto
  moreover have "live_from (Inr now) (insert l (pg_held s)) (pg_held s')"
    unfolding held by (auto simp: live_from_def live_def)
  moreover have "int (tenant_load (cq_tenant_id q) (live now (pg_held s))) < L (cq_tenant_id q)"
    "int (route_load (cq_route_name q) (live now (pg_held s))) < R"
    using room unfolding tenant_load_def route_load_def pg_held_def live_live_rows [symmetric] card_rows [OF d] by simp_all
  moreover have "pg_capacity_wf s'"
    using wf s'(1,6,7) l by (auto simp: pg_capacity_wf_def)
  ultimately show ?thesis using s'(3,4) l(1) later by (simp add: grant_ok_def)
qed

text \<open>A committed acquisition finds the live lease of the request or decides on a new one.\<close>

lemma pg_acquire_cases:
  assumes "pg_capacity_acquire cfg fa q s = Inr (y, s')"
  obtains now where "pg_clock (fa_clock fa) = Inr now" "policy_route_name (cq_route_name q)"
    "pg_tenant_limit cfg s' = pg_tenant_limit cfg s"
    "(\<exists>r \<in> set (live_rows now (pc_leases s)). lease_request (gcr_lease r) = request_of q
        \<and> gl_route_name (gcr_lease r) = cq_route_name q \<and> bindE (capacity_lease_domain r) (\<lambda>l. Inr (Granted l)) = Inr y
        \<and> pc_leases s' = live_rows now (pc_leases s))
     \<or> (\<forall>r \<in> set (live_rows now (pc_leases s)). lease_request (gcr_lease r) \<noteq> request_of q)
        \<and> (\<exists>tokens duration quota row s2. pc_leases s2 = live_rows now (pc_leases s)
            \<and> tq_max_gateway_requests (tqr_quota quota) = pg_tenant_limit cfg s (cq_tenant_id q)
            \<and> pr_request_limit row = int (ps_request_limit cfg)
            \<and> pg_admit (fa_id fa) (cq_tenant_id q) (cq_route_name q) (cq_request_id q) tokens duration now quota row s2 = Inr (y, s'))"
proof -
  from assms obtain tokens duration now quota db row s1 where route: "policy_route_name (cq_route_name q)"
    and now: "pg_clock (fa_clock fa) = Inr now"
    and quota: "ensure_tenant_quota (cq_tenant_id q) (ps_default_quota cfg) now (pc_database s) = Inr (quota, db)"
    and row: "route_capacity cfg (cq_route_name q) now (s\<lparr>pc_database := db\<rparr>) = Inr (row, s1)"
    and cont: "(case select_one (\<lambda>r. lease_request (gcr_lease r) = request_of q) (live_rows now (pc_leases s1)) of
        Some existing \<Rightarrow>
          if gl_route_name (gcr_lease existing) \<noteq> cq_route_name q \<or> gl_reserved_tokens (gcr_lease existing) \<noteq> int tokens
          then Inl (ValueError ''gateway capacity request identity is already in use'')
          else committing (bindE (capacity_lease_domain existing) (\<lambda>l. Inr (Granted l)))
                 (s1\<lparr>pc_leases := live_rows now (pc_leases s1)\<rparr>)
      | None \<Rightarrow> pg_admit (fa_id fa) (cq_tenant_id q) (cq_route_name q) (cq_request_id q) (int tokens) duration now quota row
          (s1\<lparr>pc_leases := live_rows now (pc_leases s1)\<rparr>)) = Inr (y, s')"
    by (auto simp: pg_capacity_acquire_def bindE_eq_Inr validated_capacity_route_def validated_request_id_def
        request_of_def Let_def split: if_splits)
  let ?s2 = "s1\<lparr>pc_leases := live_rows now (pc_leases s1)\<rparr>"
  note s1 = route_capacity_Inr [OF row] pg_limit_ensure [OF quota]
  have limit: "pg_tenant_limit cfg s' = pg_tenant_limit cfg s" if "pc_database s' = pc_database ?s2"
    using s1 that by (auto simp: pg_tenant_limit_def fun_eq_iff)
  show thesis
  proof (cases "select_one (\<lambda>r. lease_request (gcr_lease r) = request_of q) (live_rows now (pc_leases s1))")
    case (Some existing)
    with cont have e: "gl_route_name (gcr_lease existing) = cq_route_name q"
      and y: "bindE (capacity_lease_domain existing) (\<lambda>l. Inr (Granted l)) = Inr y" and f: "capacity_flush ?s2 = Inr s'"
      by (auto simp: committing_Inr split: if_splits)
    have s': "pc_leases s' = live_rows now (pc_leases s)" "pc_database s' = pc_database ?s2"
      using capacity_flush_Inr [OF f] s1 by simp_all
    have "existing \<in> set (live_rows now (pc_leases s))" "lease_request (gcr_lease existing) = request_of q"
      using select_one_Some [OF Some] s1 by simp_all
    then show thesis using e y s'(1) by (intro that [OF now route limit [OF s'(2)]]) blast
  next
    case None
    then have none: "\<forall>r \<in> set (live_rows now (pc_leases s)). lease_request (gcr_lease r) \<noteq> request_of q"
      using s1 by (auto simp: select_one_None)
    from None cont have a: "pg_admit (fa_id fa) (cq_tenant_id q) (cq_route_name q) (cq_request_id q) (int tokens)
        duration now quota row ?s2 = Inr (y, s')" by simp
    have "pc_leases ?s2 = live_rows now (pc_leases s)" using s1 by simp
    with none a s1 show thesis using pg_admit_cases [OF a] by (intro that [OF now route limit]) blast+
  qed
qed

lemma pg_capacity_acquire_law:
  assumes wf: "pg_capacity_wf s" and op: "rolled_back (pg_capacity_acquire cfg fa q) s = (x, s')"
  shows "pg_capacity_wf s' \<and> pg_tenant_limit cfg s' = pg_tenant_limit cfg s \<and>
    (case x of
       Inl e \<Rightarrow> live_from (pg_clock (fa_clock fa)) (pg_held s) (pg_held s')
     | Inr (Rejected j) \<Rightarrow> \<exists>now. pg_clock (fa_clock fa) = Inr now \<and> request_of q \<notin> lease_request ` live now (pg_held s)
         \<and> live_from (Inr now) (pg_held s) (pg_held s')
     | Inr (Granted l) \<Rightarrow> \<exists>now. pg_clock (fa_clock fa) = Inr now
         \<and> grant_ok (pg_tenant_limit cfg s) (int (ps_request_limit cfg)) q now l (pg_held s) (pg_held s'))"
proof (cases x)
  case (Inl e)
  then show ?thesis using wf op by (auto simp: rolled_back_cases live_from_def split: sum.splits)
next
  case (Inr y)
  with op have tx: "pg_capacity_acquire cfg fa q s = Inr (y, s')" by (simp add: rolled_back_cases)
  obtain now where now: "pg_clock (fa_clock fa) = Inr now" and route: "policy_route_name (cq_route_name q)"
    and limit: "pg_tenant_limit cfg s' = pg_tenant_limit cfg s"
    and c: "(\<exists>r \<in> set (live_rows now (pc_leases s)). lease_request (gcr_lease r) = request_of q
        \<and> gl_route_name (gcr_lease r) = cq_route_name q \<and> bindE (capacity_lease_domain r) (\<lambda>l. Inr (Granted l)) = Inr y
        \<and> pc_leases s' = live_rows now (pc_leases s))
     \<or> (\<forall>r \<in> set (live_rows now (pc_leases s)). lease_request (gcr_lease r) \<noteq> request_of q)
        \<and> (\<exists>tokens duration quota row s2. pc_leases s2 = live_rows now (pc_leases s)
            \<and> tq_max_gateway_requests (tqr_quota quota) = pg_tenant_limit cfg s (cq_tenant_id q)
            \<and> pr_request_limit row = int (ps_request_limit cfg)
            \<and> pg_admit (fa_id fa) (cq_tenant_id q) (cq_route_name q) (cq_request_id q) tokens duration now quota row s2 = Inr (y, s'))"
    using pg_acquire_cases [OF tx] .
  have pruned: "pg_capacity_wf s'" "pg_held s' = live now (pg_held s)" if "pc_leases s' = live_rows now (pc_leases s)"
    using pg_wf_filter [OF wf that] by (simp_all add: pg_held_def that live_live_rows del: set_filter)
  from c show ?thesis
  proof (elim disjE conjE exE bexE)
    fix r assume r: "r \<in> set (live_rows now (pc_leases s))" "lease_request (gcr_lease r) = request_of q"
      "gl_route_name (gcr_lease r) = cq_route_name q" "bindE (capacity_lease_domain r) (\<lambda>l. Inr (Granted l)) = Inr y"
      "pc_leases s' = live_rows now (pc_leases s)"
    have "y = Granted (gcr_lease r)"
      using r(1,4) wf by (simp add: capacity_lease_domain_def pg_capacity_wf_def lease_valid_def)
    moreover have "gcr_lease r \<in> live now (pg_held s)" using r(1) by (auto simp: pg_held_def live_def)
    ultimately show ?thesis
      using Inr now r(2,3) limit pruned [OF r(5)] live_from_pruned by (simp add: grant_ok_def)
  next
    fix tokens duration quota row s2
    assume none: "\<forall>r \<in> set (live_rows now (pc_leases s)). lease_request (gcr_lease r) \<noteq> request_of q"
      and s2: "pc_leases s2 = live_rows now (pc_leases s)"
        "tq_max_gateway_requests (tqr_quota quota) = pg_tenant_limit cfg s (cq_tenant_id q)"
        "pr_request_limit row = int (ps_request_limit cfg)"
      and a: "pg_admit (fa_id fa) (cq_tenant_id q) (cq_route_name q) (cq_request_id q) tokens duration now quota row s2 = Inr (y, s')"
    note c = conjunct2 [OF pg_admit_cases [OF a], unfolded s2]
    show ?thesis
    proof (cases y)
      case (Rejected j)
      moreover have "request_of q \<notin> lease_request ` live now (pg_held s)"
        using none unfolding pg_held_def live_live_rows [symmetric] by auto
      ultimately show ?thesis using c Inr now limit pruned live_from_pruned by simp
    next
      case (Granted l)
      with c obtain added where g: "pc_leases s' = live_rows now (pc_leases s) @ [added]"
        "capacity_lease_validate (gcr_lease added) = Inr l" "lease_request (gcr_lease added) = request_of q"
        "gl_route_name (gcr_lease added) = cq_route_name q" "gl_acquired_at (gcr_lease added) = now"
        "distinct (map (gl_id \<circ> gcr_lease) (pc_leases s'))" "distinct (map (lease_request \<circ> gcr_lease) (pc_leases s'))"
        "int (length (filter (\<lambda>r. gl_tenant_id (gcr_lease r) = cq_tenant_id q) (live_rows now (pc_leases s)))) < pg_tenant_limit cfg s (cq_tenant_id q)"
        "int (length (filter (\<lambda>r. gl_route_name (gcr_lease r) = cq_route_name q) (live_rows now (pc_leases s)))) < int (ps_request_limit cfg)"
        by (auto simp: request_of_def)
      from pg_grant_ok [OF wf route none g(1-7), of "pg_tenant_limit cfg s", OF g(8,9)] show ?thesis
        using Inr Granted now limit by simp
    qed
  qed
qed

lemma pg_limit_same: "pc_database s' = pc_database s \<Longrightarrow> pg_tenant_limit cfg s' = pg_tenant_limit cfg s"
  by (simp add: pg_tenant_limit_def fun_eq_iff)

lemma live_from_refl: "live_from c ls ls"
  by (simp add: live_from_def split: sum.splits)

lemma pg_capacity_release_law:
  assumes wf: "pg_capacity_wf s" and op: "rolled_back (pg_capacity_release fa l n) s = (u, s')"
  shows "pg_capacity_wf s' \<and> pg_tenant_limit cfg s' = pg_tenant_limit cfg s \<and>
    (case u of Inl e \<Rightarrow> live_from (pg_clock (fa_clock fa)) (pg_held s) (pg_held s')
     | Inr _ \<Rightarrow> live_from (pg_clock (fa_clock fa)) (pg_held s - {l}) (pg_held s'))"
proof (cases u)
  case (Inl e)
  then show ?thesis using wf op by (simp add: rolled_back_cases live_from_refl)
next
  case (Inr v)
  with op have tx: "pg_capacity_release fa l n s = Inr (v, s')" by (simp add: rolled_back_cases)
  show ?thesis
  proof (cases "select_one (\<lambda>r. gl_id (gcr_lease r) = gl_id l) (pc_leases s)")
    case None
    then have "l \<notin> pg_held s" by (auto simp: select_one_None pg_held_def)
    moreover have "s' = s" using tx None by (auto simp: pg_capacity_release_def bindE_eq_Inr)
    ultimately show ?thesis using wf Inr by (simp add: live_from_refl)
  next
    case (Some row)
    have row: "row \<in> set (pc_leases s)" "gl_id (gcr_lease row) = gl_id l" using select_one_Some [OF Some] by simp_all
    have stored: "capacity_lease_domain row = Inr (gcr_lease row)"
      using wf row(1) by (simp add: capacity_lease_domain_def pg_capacity_wf_def lease_valid_def)
    from tx Some stored have l: "gcr_lease row = l"
      and s': "pc_leases s' = filter (\<lambda>r. gl_id (gcr_lease r) \<noteq> gl_id l) (pc_leases s)" "pc_database s' = pc_database s"
      by (auto simp: pg_capacity_release_def bindE_eq_Inr committing_Inr dest!: capacity_flush_Inr
          split: option.splits if_splits)
    have "pg_held s' = pg_held s - {l}"
      using inj_on_rows [of gl_id "pc_leases s"] wf row(1) l
      by (auto simp: pg_held_def s'(1) pg_capacity_wf_def inj_on_def)
    then show ?thesis using Inr pg_wf_filter [OF wf s'(1)] pg_limit_same [OF s'(2)] by (simp add: live_from_refl)
  qed
qed

lemma pg_capacity_renew_law:
  assumes wf: "pg_capacity_wf s" and op: "rolled_back (pg_capacity_renew fa l d) s = (y, s')"
  shows "pg_capacity_wf s' \<and> pg_tenant_limit cfg s' = pg_tenant_limit cfg s \<and>
    (case y of Inl e \<Rightarrow> live_from (pg_clock (fa_clock fa)) (pg_held s) (pg_held s')
     | Inr l' \<Rightarrow> \<exists>now. pg_clock (fa_clock fa) = Inr now \<and> l \<in> live now (pg_held s)
         \<and> gl_id l' = gl_id l \<and> lease_request l' = lease_request l \<and> gl_route_name l' = gl_route_name l
         \<and> live_from (Inr now) (insert l' (pg_held s - {l})) (pg_held s'))"
proof (cases y)
  case (Inl e)
  then show ?thesis using wf op by (simp add: rolled_back_cases live_from_refl)
next
  case (Inr l')
  with op have tx: "pg_capacity_renew fa l d s = Inr (l', s')" by (simp add: rolled_back_cases)
  then obtain row duration now where now: "pg_clock (fa_clock fa) = Inr now"
    and sel: "select_one (\<lambda>r. gl_id (gcr_lease r) = gl_id l) (pc_leases s) = Some row"
    by (auto simp: pg_capacity_renew_def bindE_eq_Inr split: option.splits)
  have row: "row \<in> set (pc_leases s)" using select_one_Some [OF sel] by simp
  have stored: "capacity_lease_domain row = Inr (gcr_lease row)" "lease_valid (gcr_lease row)"
    using wf row(1) by (simp_all add: capacity_lease_domain_def pg_capacity_wf_def lease_valid_def)
  from tx now sel stored(1) obtain duration where l: "gcr_lease row = l" "now < gl_expires_at l"
    and f: "capacity_flush (s\<lparr>pc_leases := put_row (gl_id \<circ> gcr_lease)
        (row\<lparr>gcr_lease := l\<lparr>gl_expires_at := now + timedelta_seconds duration\<rparr>\<rparr>) (pc_leases s)\<rparr>) = Inr s'"
    and l': "capacity_lease_validate (l\<lparr>gl_expires_at := now + timedelta_seconds duration\<rparr>) = Inr l'"
    by (auto simp: pg_capacity_renew_def bindE_eq_Inr capacity_lease_domain_def Let_def not_le split: if_splits)
  have "IdentifierString ''route_name'' (gl_route_name l) = Inr (gl_route_name l)"
    using stored(2) lease_validate_Inr [of l l] by (simp add: l(1) lease_valid_def)
  with lease_validate_same [OF l'] have same: "l' = l\<lparr>gl_expires_at := now + timedelta_seconds duration\<rparr>" "lease_valid l'"
    by auto
  note fl = capacity_flush_Inr [OF f [folded same(1)]]
  have rows: "set (pc_leases s') = insert (row\<lparr>gcr_lease := l'\<rparr>) (set (pc_leases s) - {row})"
    using wf row l(1) same(1) unfolding conjunct1 [OF fl]
    by (simp add: set_put_row_distinct pg_capacity_wf_def)
  have "pg_held s' = insert l' (pg_held s - {l})"
    using inj_on_rows [of gl_id "pc_leases s"] wf row l(1)
    by (auto simp: pg_held_def rows pg_capacity_wf_def inj_on_def distinct_map)
  moreover have "pg_capacity_wf s'" using wf same(2) fl rows by (auto simp: pg_capacity_wf_def)
  moreover have "l \<in> live now (pg_held s)" using row l by (auto simp: pg_held_def live_def)
  moreover have "gl_id l' = gl_id l" "lease_request l' = lease_request l" "gl_route_name l' = gl_route_name l"
    by (simp_all add: same(1) lease_request_def)
  moreover have "pg_tenant_limit cfg s' = pg_tenant_limit cfg s" by (rule pg_limit_same) (use fl in simp)
  ultimately show ?thesis using Inr now live_from_refl by auto
qed

interpretation shared_capacity: capacity_store
  "\<lambda>fa q. rolled_back (pg_capacity_acquire cfg fa q)" "\<lambda>fa l n. rolled_back (pg_capacity_release fa l n)"
  "\<lambda>fa l d. rolled_back (pg_capacity_renew fa l d)" "\<lambda>fa. pg_clock (fa_clock fa)" "\<lambda>fa q s. True"
  pg_held "pg_tenant_limit cfg" "int (ps_request_limit cfg)" pg_capacity_wf for cfg
proof
  fix s assume "pg_capacity_wf s"
  then show "finite (pg_held s) \<and> inj_on gl_id (pg_held s) \<and> inj_on lease_request (pg_held s)"
    unfolding pg_held_def pg_capacity_wf_def by (intro conjI inj_on_rows) simp_all
qed (rule pg_capacity_acquire_law pg_capacity_release_law pg_capacity_renew_law; assumption)+

abbreviation pg_capacity_step :: "provider_settings \<Rightarrow> factories capacity_op \<Rightarrow> pg_capacity \<Rightarrow> pg_capacity" where
  "pg_capacity_step cfg \<equiv> capacity_step (\<lambda>fa q. rolled_back (pg_capacity_acquire cfg fa q))
     (\<lambda>fa l n. rolled_back (pg_capacity_release fa l n)) (\<lambda>fa l d. rolled_back (pg_capacity_renew fa l d))"

abbreviation pg_capacity_history ::
    "provider_settings \<Rightarrow> timestamp \<Rightarrow> factories capacity_op list \<Rightarrow> timestamp \<Rightarrow> pg_capacity \<Rightarrow> bool" where
  "pg_capacity_history cfg \<equiv> capacity_history (\<lambda>fa. pg_clock (fa_clock fa)) (\<lambda>fa q s. True) (pg_capacity_step cfg)"

text \<open>
  C12: Gateway capacity is never exceeded. Whatever acquisitions, renewals and releases all
  workers perform, with clocks that do not go back, at the end of every history the live leases
  of a tenant are within its quota of gateway requests and those of a route within the
  provider's limit, provided they were at the start.
\<close>

theorem capacity_never_exceeded:
  assumes "pg_capacity_wf s" "pg_capacity_history cfg t ops t' s"
    and "loads_within (pg_tenant_limit cfg s) (int (ps_request_limit cfg)) (live t (pg_held s))"
  shows "int (tenant_load tenant (live t' (pg_held (run_ops (pg_capacity_step cfg) ops s)))) \<le> pg_tenant_limit cfg s tenant
    \<and> int (route_load route (live t' (pg_held (run_ops (pg_capacity_step cfg) ops s)))) \<le> int (ps_request_limit cfg)"
  using shared_capacity.run_within [OF assms(2,1,3)] by (blast intro: loads_withinD)

definition sample_provider :: provider_settings where
  "sample_provider = \<lparr>ps_default_quota = \<lparr>tq_max_active_runs = 4, tq_max_queued_runs = 100, tq_max_gateway_requests = 4,
     tq_memory_enabled = True\<rparr>, ps_request_limit = 1, ps_token_limit = 1000, ps_window = 60\<rparr>"

definition sample_request :: "string \<Rightarrow> capacity_request" where
  "sample_request i = \<lparr>cq_tenant_id = 1, cq_route_name = ''coding'', cq_request_id = i, cq_reserved_tokens = PyInt 10,
     cq_lease_duration = 1000000\<rparr>"

definition sample_capacity :: pg_capacity where
  "sample_capacity = \<lparr>pc_database = empty_db, pc_routes = [], pc_leases = []\<rparr>"

definition sample_lease_row :: "uuid \<Rightarrow> string \<Rightarrow> timestamp \<Rightarrow> GatewayCapacityLease" where
  "sample_lease_row i request t = \<lparr>gl_id = i, gl_tenant_id = 1, gl_route_name = ''coding'', gl_request_id = request,
     gl_reserved_tokens = 10, gl_acquired_at = t, gl_expires_at = t + 1000000\<rparr>"

definition sample_granted :: pg_capacity where
  "sample_granted = \<lparr>pc_database = empty_db\<lparr>db_quotas := [\<lparr>tqr_tenant_id = 1, tqr_quota = ps_default_quota sample_provider,
       tqr_created_at = 5, tqr_updated_at = 5\<rparr>]\<rparr>,
     pc_routes = [\<lparr>pr_route_name = ''coding'', pr_request_limit = 1, pr_token_limit = 1000, pr_token_window_seconds = 60,
       pr_token_window_started_at = 5, pr_accounted_tokens = 10, pr_updated_at = 5\<rparr>],
     pc_leases = [\<lparr>gcr_lease = sample_lease_row 90 ''a'' 5, gcr_token_window_started_at = 5\<rparr>]\<rparr>"

lemma sample_request_simps:
  "validated_capacity_route ''coding'' = Inr ''coding''"
  "validated_request_id ''a'' = Inr ''a''" "validated_request_id ''b'' = Inr ''b''"
  "bounded_integer ''reserved_tokens'' (PyInt 10) MAX_PROVIDER_TOKENS = Inr 10"
  "total_seconds 1000000 = 1" "bounded_seconds ''lease_duration'' (PyFloat (Fin 1)) = Inr 1"
  "timedelta_seconds 1 = 1000000" "numeric3 60 = 60"
  by (simp_all add: bounded_seconds_def total_seconds_def MAX_POLICY_SECONDS_def timedelta_seconds_def round_half_even_def
      numeric3_def bounded_integer_def MAX_PROVIDER_TOKENS_def) code_simp+

lemma sample_lease_valid: "capacity_lease_validate (sample_lease_row 90 ''a'' 5) = Inr (sample_lease_row 90 ''a'' 5)"
proof -
  have "policy_route_name ''coding''" by code_simp
  moreover have "GatewayRequestIdentifier ''request_id'' ''a'' = Inr ''a''" by code_simp
  ultimately show ?thesis
    by (simp add: capacity_lease_validate_def sample_lease_row_def policy_route_plain MAX_PROVIDER_TOKENS_def check_def)
qed

lemma sample_flush: "capacity_flush sample_granted = Inr sample_granted"
  by (simp add: capacity_flush_def sample_granted_def sample_request_simps provider_row_ok_def capacity_lease_rows_ok_def
    sample_lease_row_def Let_def constraints_ok_def rows_ok_def unique_ok_def foreign_keys_ok_def execution_rows_ok_def
    execution_unique_ok_def execution_keys_ok_def empty_db_def sample_provider_def quota_row_ok_def quota_ok_def
    compaction_unique_ok_def execution_refers_def)

lemma sample_first:
  "pg_capacity_acquire sample_provider \<lparr>fa_clock = utc 5, fa_id = Some 90\<rparr> (sample_request ''a'') sample_capacity =
     Inr (Granted (sample_lease_row 90 ''a'' 5), sample_granted)"
proof -
  have q: "ensure_tenant_quota 1 (ps_default_quota sample_provider) 5 empty_db =
      Inr (\<lparr>tqr_tenant_id = 1, tqr_quota = ps_default_quota sample_provider, tqr_created_at = 5, tqr_updated_at = 5\<rparr>,
           pc_database sample_granted)"
    by (simp add: ensure_tenant_quota_def sample_granted_def empty_db_def)
  have r: "route_capacity sample_provider ''coding'' 5 (sample_capacity\<lparr>pc_database := pc_database sample_granted\<rparr>) =
      Inr (new_route_row sample_provider ''coding'' 5,
           \<lparr>pc_database = pc_database sample_granted, pc_routes = [new_route_row sample_provider ''coding'' 5], pc_leases = []\<rparr>)"
    by (simp add: route_capacity_def sample_capacity_def new_route_row_def sample_provider_def provider_row_ok_def
        insert_missing_def configured_route_def sample_request_simps put_row_def Let_def)
  have f: "capacity_flush \<lparr>pc_database = pc_database sample_granted,
      pc_routes = [(new_route_row sample_provider ''coding'' 5)\<lparr>pr_accounted_tokens := 10\<rparr>],
      pc_leases = [\<lparr>gcr_lease = sample_lease_row 90 ''a'' 5, gcr_token_window_started_at = 5\<rparr>]\<rparr> = Inr sample_granted"
    using sample_flush by (simp add: sample_granted_def new_route_row_def sample_provider_def sample_request_simps)
  show ?thesis
    using q r f sample_lease_valid
    by (simp add: pg_capacity_acquire_def sample_request_def sample_request_simps sample_capacity_def pg_admit_def
      new_route_row_def sample_provider_def reset_token_window_def total_seconds_def put_row_def capacity_lease_domain_def
      sample_lease_row_def Let_def)
qed

text \<open>What a later acquisition finds while the lease is live.\<close>

lemma sample_locked:
  assumes "5 \<le> now" "now < 1000005"
  shows "ensure_tenant_quota 1 (ps_default_quota sample_provider) now (pc_database sample_granted) =
      Inr (hd (db_quotas (pc_database sample_granted)), pc_database sample_granted)"
    "route_capacity sample_provider ''coding'' now sample_granted = Inr (hd (pc_routes sample_granted), sample_granted)"
    "filter (\<lambda>r. \<not> gl_expires_at (gcr_lease r) \<le> now) (pc_leases sample_granted) = pc_leases sample_granted"
  using assms
  by (simp_all add: ensure_tenant_quota_def route_capacity_def sample_granted_def sample_provider_def insert_missing_def
      configured_route_def put_row_def new_route_row_def sample_lease_row_def Let_def)

lemma sample_second:
  "pg_capacity_acquire sample_provider \<lparr>fa_clock = utc 6, fa_id = Some 91\<rparr> (sample_request ''b'') sample_granted =
     Inr (Rejected \<lparr>cj_scope = PROVIDER_REQUESTS, cj_retry_after_seconds = 999999 / 1000000\<rparr>, sample_granted)"
proof -
  have a: "pg_admit (Some 91) 1 ''coding'' ''b'' 10 1 6 (hd (db_quotas (pc_database sample_granted)))
      (hd (pc_routes sample_granted)) sample_granted =
      committing (Inr (Rejected \<lparr>cj_scope = PROVIDER_REQUESTS, cj_retry_after_seconds = 999999 / 1000000\<rparr>)) sample_granted"
    by (simp add: pg_admit_def sample_granted_def sample_lease_row_def sample_provider_def database_retry_after_def
        earliest_expiry_def total_seconds_def rejected_def capacity_rejection_validate_def)
  have "select_one (\<lambda>r. lease_request (gcr_lease r) = (1, ''b'')) (pc_leases sample_granted) = None"
    by (simp add: sample_granted_def sample_lease_row_def lease_request_def)
  then show ?thesis
    using sample_locked [of 6] a
    by (simp add: pg_capacity_acquire_def sample_request_def sample_request_simps committing_def sample_flush)
qed

lemma sample_repeated:
  "is_ok (pg_capacity_acquire sample_provider \<lparr>fa_clock = utc 9, fa_id = Some 92\<rparr> (sample_request ''a'') sample_granted)"
proof -
  have "select_one (\<lambda>r. lease_request (gcr_lease r) = (1, ''a'')) (pc_leases sample_granted) =
      Some \<lparr>gcr_lease = sample_lease_row 90 ''a'' 5, gcr_token_window_started_at = 5\<rparr>"
    by (simp add: sample_granted_def sample_lease_row_def lease_request_def)
  then show ?thesis
    using sample_locked [of 9] sample_lease_valid
    by (simp add: pg_capacity_acquire_def sample_request_def sample_request_simps committing_def sample_flush
        capacity_lease_domain_def) (simp add: sample_lease_row_def)
qed

lemma sample_run:
  "run_ops (pg_capacity_step sample_provider) [AcquireCapacity \<lparr>fa_clock = utc 5, fa_id = Some 90\<rparr> (sample_request ''a'')] sample_capacity
     = sample_granted"
  "run_ops (pg_capacity_step sample_provider) [AcquireCapacity \<lparr>fa_clock = utc 6, fa_id = Some 91\<rparr> (sample_request ''b'')] sample_granted
     = sample_granted"
  by (simp_all add: rolled_back_def sample_first sample_second)

definition sample_rivals :: "factories capacity_op list" where
  "sample_rivals = [AcquireCapacity \<lparr>fa_clock = utc 5, fa_id = Some 90\<rparr> (sample_request ''a''),
     AcquireCapacity \<lparr>fa_clock = utc 6, fa_id = Some 91\<rparr> (sample_request ''b'')]"

theorem capacity_never_exceeded_witness:
  "pg_capacity_history sample_provider 0 sample_rivals 20 sample_capacity
   \<and> run_ops (pg_capacity_step sample_provider) sample_rivals sample_capacity = sample_granted
   \<and> int (route_load ''coding'' (live 20 (pg_held sample_granted))) \<le> 1"
proof -
  have h: "pg_capacity_history sample_provider 0 sample_rivals 20 sample_capacity" by (simp add: sample_rivals_def)
  have r: "run_ops (pg_capacity_step sample_provider) sample_rivals sample_capacity = sample_granted"
    using sample_run by (simp add: sample_rivals_def)
  have "pg_capacity_wf sample_capacity"
    "loads_within (pg_tenant_limit sample_provider sample_capacity) (int (ps_request_limit sample_provider))
       (live 0 (pg_held sample_capacity))"
    by (simp_all add: pg_capacity_wf_def sample_capacity_def loads_within_def pg_held_def live_def tenant_load_def
        route_load_def pg_tenant_limit_def empty_db_def sample_provider_def)
  from capacity_never_exceeded [OF this(1) h this(2), of 1 "''coding''"] h r show ?thesis
    by (simp add: sample_provider_def)
qed

text \<open>
  C26: Acquiring capacity is idempotent. As long as a granted lease is neither released nor
  renewed and has not expired, every repetition of the request that is answered gets the very
  same lease, whatever else happened in between: a retried request never takes a second slot.
\<close>

theorem capacity_acquire_idempotent:
  assumes "pg_capacity_wf s" "pg_capacity_acquire cfg fa q s = Inr (Granted l, s1)" "pg_clock (fa_clock fa) = Inr t"
    and "pg_capacity_history cfg t ops t' s1" "t' < gl_expires_at l" "\<not> list_ex (touches_lease (gl_id l)) ops"
    and "pg_capacity_acquire cfg fa' q' (run_ops (pg_capacity_step cfg) ops s1) = Inr (answer, s2)"
    and "request_of q' = request_of q" "pg_clock (fa_clock fa') = Inr now" "now < gl_expires_at l"
  shows "answer = Granted l"
proof -
  have op: "rolled_back (pg_capacity_acquire cfg fa q) s = (Inr (Granted l), s1)"
    "rolled_back (pg_capacity_acquire cfg fa' q') (run_ops (pg_capacity_step cfg) ops s1) = (Inr answer, s2)"
    using assms(2,7) by (simp_all add: rolled_back_cases)
  have first: "pg_capacity_wf s1"
    "grant_ok (pg_tenant_limit cfg s) (int (ps_request_limit cfg)) q t l (pg_held s) (pg_held s1)"
    using shared_capacity.acquire_law [OF assms(1) TrueI op(1)] assms(3) by auto
  then have l: "l \<in> live t (pg_held s1)" "lease_request l = request_of q"
    by (auto simp: grant_ok_def live_from_def live_def)
  then have "l \<in> pg_held s1" by (simp add: live_def)
  from shared_capacity.run_holds [OF assms(4) first(1) this assms(5,6)]
  have final: "pg_capacity_wf (run_ops (pg_capacity_step cfg) ops s1)" "l \<in> pg_held (run_ops (pg_capacity_step cfg) ops s1)"
    by simp_all
  show ?thesis
    using shared_capacity.acquire_again [OF final(1) TrueI op(2) final(2) _ assms(9,10)] assms(8) l(2) by simp
qed

theorem capacity_acquire_idempotent_witness:
  "\<exists>s2. pg_capacity_acquire sample_provider \<lparr>fa_clock = utc 5, fa_id = Some 90\<rparr> (sample_request ''a'') sample_capacity
       = Inr (Granted (sample_lease_row 90 ''a'' 5), sample_granted)
     \<and> pg_capacity_acquire sample_provider \<lparr>fa_clock = utc 9, fa_id = Some 92\<rparr> (sample_request ''a'')
         (run_ops (pg_capacity_step sample_provider)
           [AcquireCapacity \<lparr>fa_clock = utc 6, fa_id = Some 91\<rparr> (sample_request ''b'')] sample_granted)
       = Inr (Granted (sample_lease_row 90 ''a'' 5), s2)"
proof -
  let ?fb = "\<lparr>fa_clock = utc 9, fa_id = Some 92\<rparr>"
  let ?ops = "[AcquireCapacity \<lparr>fa_clock = utc 6, fa_id = Some 91\<rparr> (sample_request ''b'')]"
  obtain answer s2 where s2: "pg_capacity_acquire sample_provider ?fb (sample_request ''a'')
      (run_ops (pg_capacity_step sample_provider) ?ops sample_granted) = Inr (answer, s2)"
    using sample_repeated unfolding sample_run(2) is_ok_iff by auto
  have wf: "pg_capacity_wf sample_capacity" by (simp add: pg_capacity_wf_def sample_capacity_def)
  have "answer = Granted (sample_lease_row 90 ''a'' 5)"
    by (rule capacity_acquire_idempotent [OF wf sample_first _ _ _ _ s2, of 5 7 9]) (simp_all add: sample_lease_row_def)
  with sample_first s2 show ?thesis by blast
qed

end
