(* ===== verification/Spec2Isabelle.thy ===== *)
theory Spec2Isabelle
  imports Execution_Properties Fencing Gateway_Capacity
begin

text \<open>
  Verification of the control plane of a distributed coding-agent platform.

  \<^bold>\<open>The program.\<close> Clients submit runs through an API; the runs wait in PostgreSQL tables;
  workers claim them under leases, execute a model/tool loop in a sandboxed workspace, journal
  what they do and report a result; a scheduler recovers the runs of workers that disappeared.
  Model calls go through a gateway client that deduplicates requests. Paths below are relative
  to \<open>src/packages\<close>: \<open>core\<close> is \<open>agent-core/src/agent_core\<close>, \<open>db\<close> is
  \<open>persistence/src/platform_persistence\<close>, \<open>gw\<close> is \<open>gateway-client/src/gateway_client\<close>.

  \<^bold>\<open>Values.\<close>
  \<^item> \<open>Prelude\<close>: dynamically typed arguments, errors as values (\<open>py_error\<close>, \<open>result\<close>), time stamps
    in microseconds, tables as lists of rows, and the locale \<open>invariant_machine\<close>.
  \<^item> \<open>Domain\<close>, \<open>Entities\<close>, \<open>Run_Lifecycle\<close>: \<open>core/domain\<close> - enumerations, frozen JSON, the
    entities with their validators, \<open>transition_run\<close> and \<open>rewind_run\<close>.
  \<^item> \<open>Contracts\<close>, \<open>Task_Plans\<close>, \<open>Control\<close>, \<open>Gateway_Types\<close>: \<open>core/distributed.py\<close>,
    \<open>core/control.py\<close>, \<open>core/capacity.py\<close>, \<open>core/gateway.py\<close>.

  \<^bold>\<open>Tables and transactions.\<close> \<open>Database\<close> has the rows of \<open>db/models.py\<close> and their CHECK, UNIQUE
  and FOREIGN KEY constraints. An operation is a function from the database to an error or a
  value with the new database; an error is a rollback. Row locks of concurrent transactions
  that \<open>SKIP LOCKED\<close> observes are the argument \<open>row_locks\<close>; clocks, generated identifiers and
  tokens are arguments as well.
  \<^item> \<open>Run_Queue\<close>, \<open>Workspace_Leases\<close>: \<open>PostgresRunQueue\<close> and \<open>PostgresWorkspaceLeaseStore\<close> of
    \<open>db/distributed.py\<close>.
  \<^item> \<open>Run_Repository\<close>, \<open>Execution_Repository\<close>: \<open>db/repositories.py\<close>, \<open>db/fencing.py\<close> and the
    tenant quotas of \<open>db/capacity.py\<close>.
  \<^item> \<open>Gateway_Requests\<close>, \<open>Gateway_Policies\<close>, \<open>Gateway_Capacity\<close>: the request stores, rate limiters,
    circuit breakers and capacity stores of \<open>gw/reliability.py\<close> (one process; a raise keeps what
    was already changed) and of \<open>db/gateway_store.py\<close>, \<open>db/gateway_policies.py\<close> and
    \<open>db/capacity.py\<close> (shared tables). Their tables are states of their own, beside the database.

  \<^bold>\<open>What is shown.\<close>
  \<^item> \<open>Queue_Invariant\<close>, \<open>Queue_Steps\<close>, \<open>Queue_Claim\<close>, \<open>Queue_Operations\<close>, \<open>Queue_Recovery\<close>,
    \<open>Repository_Invariant\<close>: \<open>queue_inv\<close> - the constraints, and the agreement of runs, leases,
    workspace writers and worker slots - is kept by every operation.
  \<^item> \<open>Platform_Machine\<close>: all writes as operations of one machine. A history is any sequence of
    them, committed or rolled back, so the theorems on histories cover every interleaving of
    API, workers and scheduler at the granularity of transactions.
  \<^item> \<open>Queue_Properties\<close>: the invariant in every history, refusal of lost leases, one writer per
    workspace, what claim, finish and recovery do and when they go through.
  \<^item> \<open>Fencing\<close>: the tables implement an abstract fencing lock (\<open>fence_step\<close>), from which one
    generation has one holder.
  \<^item> \<open>Repository_Properties\<close>, \<open>Execution_Properties\<close>: idempotent creation, admission,
    cancellation, approvals, rewinds; the append-only journal.
  \<^item> \<open>Gateway_Requests\<close>: both stores meet the contract \<open>request_store\<close>: a logical request is
    executed once until it is released, and its response is replayed.
  \<^item> \<open>Gateway_Policies\<close>: local and shared circuits meet the contract \<open>circuit_breaker\<close>: an open
    circuit refuses, a half-open one lets a single probe through. The local limiter enforces an
    exact sliding window, the shared one at most twice its limit (\<open>rate_limiter\<close>).
  \<^item> \<open>Gateway_Capacity\<close>: the contract \<open>capacity_store\<close>: live leases stay within the limits of tenant
    and route, and a repeated acquisition gets the same lease.
  \<^item> \<open>Platform_Samples\<close>: the concrete database on which the witnesses evaluate.

  \<^bold>\<open>Bounds.\<close> The model uses no fuel: the loops of the source are over lists, over the constant
  \<open>MAX_CLAIM_CANDIDATES\<close>, or have a termination proof (\<open>visit\<close> of \<open>Task_Plans\<close>). Python integers
  are \<open>int\<close>, finite floats the rationals they denote. Characters are code points below 256.

  \<^bold>\<open>Where the code departs from its intent.\<close> \<open>cancel_retry_pending_fails\<close>,
  \<open>waiting_run_stranded\<close>, \<open>aging_is_bounded\<close> and \<open>snapshot_fails_after_a_year\<close>.

  \<^bold>\<open>Not modelled.\<close> Transactions are atomic: no anomaly of PostgreSQL's isolation level inside one
  is represented, except skipped locked rows. \<open>PostgresRecoveryStore\<close>, the event store, context
  and memory management, artifacts and retention are left out; so are the asynchronous agent
  loop and gateway client, the HTTP applications, the sandbox (processes, file descriptors,
  containers, Git), the adapter of a third-party SDK, telemetry, migrations and scripts, whose
  behaviour is mostly that of the systems they call.
\<close>

end
